(* ===== verification/Prelude.thy ===== *)
theory Prelude
  imports Main "HOL-Library.Word" "HOL-Library.AList" "HOL-Library.Sublist"
begin

text \<open>
  Shared vocabulary of the development: names for the machine types of the Rust code, the
  result type of its fallible functions, the collections of facts the component theories
  feed, decimal printing, and generic lemmas on lists, association lists and words.
\<close>

section \<open>Types\<close>

text \<open>
  A Rust \<^verbatim>\<open>String\<close>/\<^verbatim>\<open>&str\<close> is its UTF-8 byte sequence, modelled as a HOL \<^typ>\<open>string\<close>
  (a HOL character is exactly one byte), so that \<open>length\<close> is Rust's \<^verbatim>\<open>len()\<close>.
  \<^verbatim>\<open>Vec<u8>\<close> is a list of 8-bit words.  \<^verbatim>\<open>Result<T, E>\<close> is a sum with the error left.
\<close>

type_synonym u8 = "8 word"
type_synonym u16 = "16 word"
type_synonym u32 = "32 word"
type_synonym u64 = "64 word"
type_synonym i32 = "32 word"
type_synonym i64 = "64 word"
type_synonym bytes = "8 word list"

definition byte_of_char :: "char \<Rightarrow> u8" where
  "byte_of_char c = word_of_nat (of_char c)"

definition char_of_byte :: "u8 \<Rightarrow> char" where
  "char_of_byte b = char_of (unat b)"

definition as_bytes :: "string \<Rightarrow> bytes" where
  "as_bytes s = List.map byte_of_char s"

definition of_bytes :: "bytes \<Rightarrow> string" where
  "of_bytes b = List.map char_of_byte b"

section \<open>Collections of facts\<close>

text \<open>
  \<open>frame\<close>: which parts of the world an operation leaves alone.
  \<open>keeps_wf\<close>: operations keep the world well formed.
\<close>

named_theorems frame
named_theorems keeps_wf

section \<open>Results\<close>

definition is_ok :: "'e + 'a \<Rightarrow> bool" where
  "is_ok r = (case r of Inl _ \<Rightarrow> False | Inr _ \<Rightarrow> True)"

lemma is_ok_simps [simp]: "is_ok (Inr x)" "\<not> is_ok (Inl e)"
  by (simp_all add: is_ok_def)

definition unwrap_or :: "'e + 'a \<Rightarrow> 'a \<Rightarrow> 'a" where
  "unwrap_or r d = (case r of Inl _ \<Rightarrow> d | Inr x \<Rightarrow> x)"

lemma unwrap_or_simps [simp]: "unwrap_or (Inr x) d = x" "unwrap_or (Inl e) d = d"
  by (simp_all add: unwrap_or_def)

section \<open>Decimal printing (Rust's Display of integers)\<close>

fun show_nat_aux :: "nat \<Rightarrow> string \<Rightarrow> string" where
  "show_nat_aux n acc =
     (if n < 10 then char_of (48 + n) # acc
      else show_nat_aux (n div 10) (char_of (48 + n mod 10) # acc))"

declare show_nat_aux.simps [simp del]

definition show_nat :: "nat \<Rightarrow> string" where
  "show_nat n = show_nat_aux n []"

definition show_int :: "int \<Rightarrow> string" where
  "show_int i = (if i < 0 then CHR ''-'' # show_nat (nat (- i)) else show_nat (nat i))"

section \<open>Generic lemmas\<close>

lemma byte_char_inverse [simp]: "byte_of_char (char_of_byte b) = b"
proof -
  have "unat b < 256" using unsigned_less [of b] by simp
  then show ?thesis by (simp add: byte_of_char_def char_of_byte_def)
qed

lemma char_byte_inverse [simp]: "char_of_byte (byte_of_char c) = c"
proof -
  have "of_char c < (256 :: nat)" by (rule nat_of_char_less_256)
  then have "unat (word_of_nat (of_char c) :: u8) = of_char c"
    by (simp add: unat_of_nat)
  then show ?thesis by (simp add: byte_of_char_def char_of_byte_def)
qed

lemma as_of_bytes [simp]: "as_bytes (of_bytes b) = b"
  by (induction b) (simp_all add: as_bytes_def of_bytes_def)

lemma of_as_bytes [simp]: "of_bytes (as_bytes s) = s"
  by (induction s) (simp_all add: as_bytes_def of_bytes_def)

lemma length_as_bytes [simp]: "length (as_bytes s) = length s"
  by (simp add: as_bytes_def)

lemma length_of_bytes [simp]: "length (of_bytes b) = length b"
  by (simp add: of_bytes_def)

text \<open>Association lists as finite maps.\<close>

lemma map_of_alist_update [simp]: "map_of (AList.update k v al) = (map_of al)(k \<mapsto> v)"
  by (simp add: update_conv')

lemma map_of_alist_delete [simp]: "map_of (AList.delete k al) = (map_of al)(k := None)"
  by (simp add: delete_conv')

text \<open>Prefixes.\<close>

lemma prefix_map_inj:
  assumes "inj f" and "prefix (List.map f xs) (List.map f ys)"
  shows "prefix xs ys"
  using assms(2)
proof (induction xs arbitrary: ys)
  case Nil
  then show ?case by simp
next
  case (Cons x xs)
  then show ?case using injD [OF assms(1)] by (cases ys) auto
qed

lemma butlast_snoc_last: "xs \<noteq> [] \<Longrightarrow> xs = butlast xs @ [last xs]"
  by simp

text \<open>Minimum of two words, as Rust's \<^verbatim>\<open>Ord::min\<close>.\<close>

lemma unat_min: "unat (min a b) = min (unat a) (unat (b :: 'a::len word))"
  by (simp add: min_def word_le_nat_alt)

end
