(* ===== verification/RustStr.thy ===== *)
theory RustStr
  imports Prelude
begin

text \<open>
  The string functions of Rust's standard library that the daemon calls, on UTF-8 byte
  strings: \<^verbatim>\<open>trim\<close>, \<^verbatim>\<open>split_whitespace\<close>, \<^verbatim>\<open>trim_end_matches\<close>, \<^verbatim>\<open>strip_prefix\<close>,
  \<^verbatim>\<open>rsplit_once\<close>, \<^verbatim>\<open>str::from_utf8\<close>, \<^verbatim>\<open>u16::from_str\<close> and \<^verbatim>\<open>is_ascii_hexdigit\<close>.
\<close>

section \<open>Whitespace\<close>

text \<open>
  The UTF-8 encodings of the characters with the Unicode property \<^verbatim>\<open>White_Space\<close>, which is
  what \<^verbatim>\<open>char::is_whitespace\<close> tests.  UTF-8 is self-synchronising, so a whitespace character
  of a valid string is exactly an occurrence of one of these byte sequences.
\<close>

definition ws_encodings :: "string list" where
  "ws_encodings =
     [[CHR 0x09], [CHR 0x0A], [CHR 0x0B], [CHR 0x0C], [CHR 0x0D], [CHR 0x20],
      [CHR 0xC2, CHR 0x85], [CHR 0xC2, CHR 0xA0],
      [CHR 0xE1, CHR 0x9A, CHR 0x80],
      [CHR 0xE2, CHR 0x80, CHR 0x80], [CHR 0xE2, CHR 0x80, CHR 0x81],
      [CHR 0xE2, CHR 0x80, CHR 0x82], [CHR 0xE2, CHR 0x80, CHR 0x83],
      [CHR 0xE2, CHR 0x80, CHR 0x84], [CHR 0xE2, CHR 0x80, CHR 0x85],
      [CHR 0xE2, CHR 0x80, CHR 0x86], [CHR 0xE2, CHR 0x80, CHR 0x87],
      [CHR 0xE2, CHR 0x80, CHR 0x88], [CHR 0xE2, CHR 0x80, CHR 0x89],
      [CHR 0xE2, CHR 0x80, CHR 0x8A],
      [CHR 0xE2, CHR 0x80, CHR 0xA8], [CHR 0xE2, CHR 0x80, CHR 0xA9],
      [CHR 0xE2, CHR 0x80, CHR 0xAF], [CHR 0xE2, CHR 0x81, CHR 0x9F],
      [CHR 0xE3, CHR 0x80, CHR 0x80]]"

definition ws_len :: "string \<Rightarrow> nat" where
  "ws_len s = (case find (\<lambda>e. prefix e s) ws_encodings of None \<Rightarrow> 0 | Some e \<Rightarrow> length e)"

definition ws_len_end :: "string \<Rightarrow> nat" where
  "ws_len_end s = (case find (\<lambda>e. suffix e s) ws_encodings of None \<Rightarrow> 0 | Some e \<Rightarrow> length e)"

lemma ws_len_Nil [simp]: "ws_len [] = 0"
  by (simp add: ws_len_def ws_encodings_def)

lemma ws_len_end_Nil [simp]: "ws_len_end [] = 0"
  by (simp add: ws_len_end_def ws_encodings_def)

lemma ws_len_end_le: "ws_len_end s \<le> length s"
  by (auto simp: ws_len_end_def find_Some_iff dest!: suffix_length_le split: option.splits)

function trim_start :: "string \<Rightarrow> string" where
  "trim_start s = (if ws_len s = 0 then s else trim_start (drop (ws_len s) s))"
  by pat_completeness auto
termination
proof (relation "measure length")
  fix s :: string
  assume "ws_len s \<noteq> 0"
  then show "(drop (ws_len s) s, s) \<in> measure length" by (cases s) auto
qed simp

function trim_end :: "string \<Rightarrow> string" where
  "trim_end s =
     (if ws_len_end s = 0 then s else trim_end (take (length s - ws_len_end s) s))"
  by pat_completeness auto
termination
proof (relation "measure length")
  fix s :: string
  assume "ws_len_end s \<noteq> 0"
  then show "(take (length s - ws_len_end s) s, s) \<in> measure length" by (cases s) auto
qed simp

declare trim_start.simps [simp del] trim_end.simps [simp del]

definition trim :: "string \<Rightarrow> string" where
  "trim s = trim_end (trim_start s)"

lemma trim_end_prefix: "prefix (trim_end s) s"
proof (induction s rule: trim_end.induct)
  case (1 s)
  show ?case
  proof (cases "ws_len_end s = 0")
    case True
    then show ?thesis by (simp add: trim_end.simps [of s])
  next
    case False
    from "1.IH" [OF False] have "prefix (trim_end (take (length s - ws_len_end s) s)) s"
      using take_is_prefix prefix_order.trans by blast
    with False show ?thesis by (simp add: trim_end.simps [of s])
  qed
qed

lemma trim_start_suffix: "suffix (trim_start s) s"
proof (induction s rule: trim_start.induct)
  case (1 s)
  show ?case
  proof (cases "ws_len s = 0")
    case True
    then show ?thesis by (simp add: trim_start.simps [of s])
  next
    case False
    from "1.IH" [OF False] have "suffix (trim_start (drop (ws_len s) s)) s"
      using suffix_drop suffix_order.trans by blast
    with False show ?thesis by (simp add: trim_start.simps [of s])
  qed
qed

lemma trim_sublist: "sublist (trim s) s"
  unfolding trim_def
  by (meson prefix_imp_sublist suffix_imp_sublist sublist_order.order_trans trim_end_prefix
      trim_start_suffix)

lemma trim_no_trailing_ws: "ws_len_end (trim_end s) = 0"
proof (induction s rule: trim_end.induct)
  case (1 s)
  then show ?case by (cases "ws_len_end s = 0") (simp_all add: trim_end.simps [of s])
qed

text \<open>\<^verbatim>\<open>split_whitespace\<close>: the maximal runs of non-whitespace characters.\<close>

function take_token :: "string \<Rightarrow> string" where
  "take_token [] = []"
| "take_token (c # cs) = (if ws_len (c # cs) = 0 then c # take_token cs else [])"
  by pat_completeness auto
termination by (relation "measure length") auto

lemma length_take_token: "length (take_token s) \<le> length s"
  by (induction s rule: take_token.induct) auto

lemma take_token_prefix: "prefix (take_token s) s"
  by (induction s rule: take_token.induct) auto

lemma length_trim_start: "length (trim_start s) \<le> length s"
  using trim_start_suffix suffix_length_le by blast

lemma take_token_nonempty: "ws_len s = 0 \<Longrightarrow> s \<noteq> [] \<Longrightarrow> take_token s \<noteq> []"
  by (cases s) auto

lemma trim_start_no_ws: "ws_len (trim_start s) = 0"
proof (induction s rule: trim_start.induct)
  case (1 s)
  then show ?case by (cases "ws_len s = 0") (simp_all add: trim_start.simps [of s])
qed

function split_whitespace :: "string \<Rightarrow> string list" where
  "split_whitespace s =
     (let t = trim_start s in
      if t = [] then []
      else take_token t # split_whitespace (drop (length (take_token t)) t))"
  by pat_completeness auto
termination
proof (relation "measure length")
  fix s t :: string
  assume t: "t = trim_start s" and ne: "t \<noteq> []"
  from ne have "take_token t \<noteq> []"
    unfolding t by (intro take_token_nonempty trim_start_no_ws)
  moreover have "length t \<le> length s" unfolding t by (rule length_trim_start)
  ultimately show "(drop (length (take_token t)) t, s) \<in> measure length"
    using ne by (cases t) auto
qed simp

declare split_whitespace.simps [simp del]

text \<open>Printable ASCII characters other than the space are not whitespace.\<close>

definition printable :: "char \<Rightarrow> bool" where
  "printable c \<longleftrightarrow> 32 < (of_char c :: nat) \<and> (of_char c :: nat) < 128"

lemma ws_encodings_unprintable:
  "e \<in> set ws_encodings \<Longrightarrow> e \<noteq> [] \<and> \<not> printable (hd e) \<and> \<not> printable (last e)"
proof -
  have "list_all (\<lambda>e. e \<noteq> [] \<and> \<not> printable (hd e) \<and> \<not> printable (last e)) ws_encodings"
    by (simp add: ws_encodings_def printable_def)
  then show "e \<in> set ws_encodings \<Longrightarrow> ?thesis" by (simp add: list_all_iff)
qed

lemma ws_len_printable: "printable c \<Longrightarrow> ws_len (c # s) = 0"
proof -
  assume c: "printable c"
  have "\<not> prefix e (c # s)" if "e \<in> set ws_encodings" for e
    using ws_encodings_unprintable [OF that] c by (cases e) auto
  then have "find (\<lambda>e. prefix e (c # s)) ws_encodings = None" by (simp add: find_None_iff)
  then show ?thesis by (simp add: ws_len_def)
qed

lemma ws_len_end_printable: "s \<noteq> [] \<Longrightarrow> printable (last s) \<Longrightarrow> ws_len_end s = 0"
proof -
  assume s: "s \<noteq> []" "printable (last s)"
  have "\<not> suffix e s" if "e \<in> set ws_encodings" for e
    using ws_encodings_unprintable [OF that] s by (auto simp: suffix_def)
  then have "find (\<lambda>e. suffix e s) ws_encodings = None" by (simp add: find_None_iff)
  then show ?thesis by (simp add: ws_len_end_def)
qed

lemma trim_printable: "list_all printable s \<Longrightarrow> trim s = s"
proof (cases s)
  case (Cons c cs)
  assume p: "list_all printable s"
  with Cons have "ws_len s = 0" by (simp add: ws_len_printable)
  moreover from p Cons have "ws_len_end s = 0"
    by (intro ws_len_end_printable) (auto simp: list_all_iff)
  ultimately show ?thesis by (simp add: trim_def trim_start.simps [of s] trim_end.simps [of s])
qed (simp add: trim_def trim_start.simps trim_end.simps)

lemma take_token_printable:
  "list_all printable b \<Longrightarrow> s = [] \<or> ws_len s \<noteq> 0 \<Longrightarrow> take_token (b @ s) = b"
proof (induction b)
  case Nil
  then show ?case by (cases s) auto
next
  case (Cons c b)
  then show ?case by (simp add: ws_len_printable)
qed

text \<open>The first token of a command is what stands before its first space.\<close>

lemma split_whitespace_first:
  assumes "list_all printable b" and "b \<noteq> []"
  shows "\<exists>ts. split_whitespace (b @ CHR '' '' # s) = b # ts"
proof -
  obtain c b' where b: "b = c # b'" using assms(2) by (cases b) auto
  with assms(1) have "trim_start (b @ CHR '' '' # s) = b @ CHR '' '' # s"
    by (simp add: ws_len_printable trim_start.simps [of "c # b' @ CHR '' '' # s"])
  moreover have "ws_len (CHR '' '' # s) \<noteq> 0" by (simp add: ws_len_def ws_encodings_def)
  then have "take_token (b @ CHR '' '' # s) = b"
    using take_token_printable [OF assms(1), of "CHR '' '' # s"] by simp
  ultimately show ?thesis
    using assms(2) by (subst split_whitespace.simps) (simp add: Let_def del: take_token.simps)
qed

section \<open>Prefixes, suffixes and splitting\<close>

text \<open>\<^verbatim>\<open>trim_end_matches(c)\<close> for a character pattern.\<close>

definition trim_end_matches :: "char \<Rightarrow> string \<Rightarrow> string" where
  "trim_end_matches c s = rev (dropWhile (\<lambda>x. x = c) (rev s))"

lemma trim_end_matches_prefix: "prefix (trim_end_matches c s) s"
proof -
  have "suffix (dropWhile (\<lambda>x. x = c) (rev s)) (rev s)" by (rule suffix_dropWhile)
  then show ?thesis by (simp add: trim_end_matches_def suffix_to_prefix)
qed

lemma trim_end_matches_last:
  "trim_end_matches c s = [] \<or> last (trim_end_matches c s) \<noteq> c"
  by (metis (mono_tags, lifting) hd_dropWhile last_rev rev_is_Nil_conv trim_end_matches_def)

lemma trim_end_matches_id: "s = [] \<or> last s \<noteq> c \<Longrightarrow> trim_end_matches c s = s"
proof -
  assume a: "s = [] \<or> last s \<noteq> c"
  then have "dropWhile (\<lambda>x. x = c) (rev s) = rev s"
    by (cases "rev s") (auto simp: last_rev [symmetric])
  then show ?thesis by (simp add: trim_end_matches_def)
qed

definition starts_with_str :: "string \<Rightarrow> string \<Rightarrow> bool" where
  "starts_with_str s p = prefix p s"

definition ends_with_str :: "string \<Rightarrow> string \<Rightarrow> bool" where
  "ends_with_str s p = suffix p s"

definition strip_prefix_str :: "string \<Rightarrow> string \<Rightarrow> string option" where
  "strip_prefix_str p s = (if prefix p s then Some (drop (length p) s) else None)"

text \<open>\<^verbatim>\<open>rsplit_once(c)\<close>: the text before and after the last \<open>c\<close>.\<close>

fun rsplit_once :: "char \<Rightarrow> string \<Rightarrow> (string \<times> string) option" where
  "rsplit_once c [] = None"
| "rsplit_once c (x # xs) =
     (case rsplit_once c xs of
        Some (a, b) \<Rightarrow> Some (x # a, b)
      | None \<Rightarrow> if x = c then Some ([], xs) else None)"

lemma rsplit_once_None: "rsplit_once c s = None \<longleftrightarrow> c \<notin> set s"
  by (induction s) (auto split: option.splits)

lemma rsplit_once_Some:
  "rsplit_once c s = Some (a, b) \<Longrightarrow> s = a @ c # b \<and> c \<notin> set b"
  by (induction s arbitrary: a b)
    (fastforce simp: rsplit_once_None split: option.splits prod.splits if_splits)+

lemma rsplit_once_append: "c \<notin> set b \<Longrightarrow> rsplit_once c (a @ c # b) = Some (a, b)"
proof (induction a)
  case Nil
  then show ?case by (simp add: rsplit_once_None [THEN iffD2])
qed simp

text \<open>\<^verbatim>\<open>split(c)\<close>: the pieces between the occurrences of \<open>c\<close>.\<close>

fun split_on :: "char \<Rightarrow> string \<Rightarrow> string list" where
  "split_on c [] = [[]]"
| "split_on c (x # xs) =
     (if x = c then [] # split_on c xs
      else (case split_on c xs of [] \<Rightarrow> [[x]] | s # ss \<Rightarrow> (x # s) # ss))"

lemma split_on_nonempty [simp]: "split_on c s \<noteq> []"
  by (induction s) (auto split: list.splits)

lemma split_on_free: "s \<in> set (split_on c xs) \<Longrightarrow> c \<notin> set s"
  by (induction xs arbitrary: s) (auto split: list.splits if_splits)

lemma split_on_append: "split_on c (xs @ c # ys) = split_on c xs @ split_on c ys"
  by (induction xs) (auto split: list.splits)

lemma split_on_id: "c \<notin> set s \<Longrightarrow> split_on c s = [s]"
  by (induction s) auto

section \<open>UTF-8 validity\<close>

definition utf8_cont :: "nat \<Rightarrow> bool" where
  "utf8_cont b \<longleftrightarrow> 128 \<le> b \<and> b \<le> 191"

definition utf8_second3 :: "nat \<Rightarrow> nat \<Rightarrow> bool" where
  "utf8_second3 a b \<longleftrightarrow>
     (if a = 224 then 160 \<le> b \<and> b \<le> 191
      else if a = 237 then 128 \<le> b \<and> b \<le> 159 else utf8_cont b)"

definition utf8_second4 :: "nat \<Rightarrow> nat \<Rightarrow> bool" where
  "utf8_second4 a b \<longleftrightarrow>
     (if a = 240 then 144 \<le> b \<and> b \<le> 191
      else if a = 244 then 128 \<le> b \<and> b \<le> 143 else utf8_cont b)"

text \<open>Well-formed UTF-8 byte sequences, as \<^verbatim>\<open>str::from_utf8\<close> accepts them.\<close>

fun valid_utf8 :: "nat list \<Rightarrow> bool" where
  "valid_utf8 [] = True"
| "valid_utf8 (a # r) =
     (if a < 128 then valid_utf8 r
      else (case r of [] \<Rightarrow> False | b # r2 \<Rightarrow>
        if 194 \<le> a \<and> a \<le> 223 then utf8_cont b \<and> valid_utf8 r2
        else (case r2 of [] \<Rightarrow> False | c # r3 \<Rightarrow>
          if 224 \<le> a \<and> a \<le> 239 then utf8_second3 a b \<and> utf8_cont c \<and> valid_utf8 r3
          else (case r3 of [] \<Rightarrow> False | d # r4 \<Rightarrow>
            240 \<le> a \<and> a \<le> 244 \<and> utf8_second4 a b \<and> utf8_cont c \<and> utf8_cont d
              \<and> valid_utf8 r4))))"

definition valid_utf8_str :: "string \<Rightarrow> bool" where
  "valid_utf8_str s = valid_utf8 (List.map of_char s)"

definition from_utf8 :: "bytes \<Rightarrow> string option" where
  "from_utf8 b = (if valid_utf8 (List.map unat b) then Some (of_bytes b) else None)"

lemma unat_byte_of_char: "unat (byte_of_char c) = of_char c"
proof -
  have "of_char c < (256 :: nat)" by (rule nat_of_char_less_256)
  then show ?thesis by (simp add: byte_of_char_def unat_of_nat)
qed

lemma from_utf8_as_bytes: "valid_utf8_str s \<Longrightarrow> from_utf8 (as_bytes s) = Some s"
proof -
  assume "valid_utf8_str s"
  moreover have "List.map unat (as_bytes s) = List.map of_char s"
    by (simp add: as_bytes_def unat_byte_of_char)
  ultimately show ?thesis by (simp add: from_utf8_def valid_utf8_str_def)
qed

lemma valid_utf8_ascii: "\<forall>b \<in> set bs. b < 128 \<Longrightarrow> valid_utf8 bs"
  by (induction bs) auto

section \<open>Numbers\<close>

definition digit_val :: "char \<Rightarrow> nat option" where
  "digit_val c = (let n = (of_char c :: nat) in
     if 48 \<le> n \<and> n \<le> 57 then Some (n - 48) else None)"

fun parse_digits :: "nat \<Rightarrow> string \<Rightarrow> nat option" where
  "parse_digits acc [] = Some acc"
| "parse_digits acc (c # cs) =
     (case digit_val c of None \<Rightarrow> None | Some d \<Rightarrow> parse_digits (10 * acc + d) cs)"

text \<open>
  \<^verbatim>\<open>u16::from_str\<close>: an optional \<open>+\<close>, then at least one decimal digit, and a value below
  65536.
\<close>

definition parse_u16 :: "string \<Rightarrow> u16 option" where
  "parse_u16 s =
     (let ds = (case s of CHR ''+'' # r \<Rightarrow> r | _ \<Rightarrow> s) in
      if ds = [] then None
      else (case parse_digits 0 ds of
              None \<Rightarrow> None
            | Some n \<Rightarrow> if n < 65536 then Some (word_of_nat n) else None))"

definition is_ascii_hexdigit :: "char \<Rightarrow> bool" where
  "is_ascii_hexdigit c = (let n = (of_char c :: nat) in
     (48 \<le> n \<and> n \<le> 57) \<or> (65 \<le> n \<and> n \<le> 70) \<or> (97 \<le> n \<and> n \<le> 102))"

lemma show_nat_aux_append: "show_nat_aux n acc = show_nat n @ acc"
proof -
  have "show_nat_aux n (xs @ ys) = show_nat_aux n xs @ ys" for xs ys
  proof (induction n xs arbitrary: ys rule: show_nat_aux.induct)
    case (1 n xs)
    then show ?case
      by (simp add: show_nat_aux.simps [of n "xs @ ys"] show_nat_aux.simps [of n xs])
  qed
  from this [of "[]" acc] show ?thesis by (simp add: show_nat_def)
qed

lemma show_nat_rec:
  "show_nat n = (if n < 10 then [char_of (48 + n)]
                 else show_nat (n div 10) @ [char_of (48 + n mod 10)])"
  using show_nat_aux_append [of "n div 10" "[char_of (48 + n mod 10)]"]
  by (simp add: show_nat_def show_nat_aux.simps [of n "[]"])

lemma show_nat_nonempty [simp]: "show_nat n \<noteq> []"
  by (subst show_nat_rec) simp

lemma digit_val_char: "n < 10 \<Longrightarrow> digit_val (char_of (48 + n)) = Some n"
  by (simp add: digit_val_def Let_def)

lemma parse_digits_append:
  "parse_digits acc (xs @ ys) =
     (case parse_digits acc xs of None \<Rightarrow> None | Some n \<Rightarrow> parse_digits n ys)"
  by (induction xs arbitrary: acc) (auto split: option.splits)

lemma parse_show_nat [simp]: "parse_digits 0 (show_nat n) = Some n"
proof (induction n rule: less_induct)
  case (less n)
  show ?case
  proof (cases "n < 10")
    case True
    then show ?thesis by (simp add: show_nat_rec [of n] digit_val_char)
  next
    case False
    then have "parse_digits 0 (show_nat (n div 10)) = Some (n div 10)"
      by (intro less.IH) simp
    with False show ?thesis
      by (simp add: show_nat_rec [of n] parse_digits_append digit_val_char)
  qed
qed

lemma show_nat_not_plus: "show_nat n = c # cs \<Longrightarrow> c \<noteq> CHR ''+''"
proof (induction n arbitrary: cs rule: less_induct)
  case (less n)
  show ?case
  proof (cases "n < 10")
    case True
    have "of_char c = 48 + n" using less.prems True by (auto simp: show_nat_rec [of n])
    then show ?thesis by auto
  next
    case False
    then obtain ds where "show_nat (n div 10) = c # ds"
      using less.prems show_nat_nonempty [of "n div 10"]
      by (cases "show_nat (n div 10)") (auto simp: show_nat_rec [of n])
    with False show ?thesis by (intro less.IH) auto
  qed
qed

text \<open>Printing and parsing of a \<^verbatim>\<open>u16\<close>.\<close>

lemma parse_u16_show: "parse_u16 (show_nat (unat w)) = Some w"
proof -
  obtain c cs where s: "show_nat (unat w) = c # cs"
    using show_nat_nonempty [of "unat w"] by (cases "show_nat (unat w)") auto
  have "c \<noteq> CHR ''+''" using show_nat_not_plus [OF s] .
  then have "(case show_nat (unat w) of CHR ''+'' # r \<Rightarrow> r | _ \<Rightarrow> show_nat (unat w))
             = show_nat (unat w)"
    unfolding s by (auto split: char.splits bool.splits)
  moreover have "unat w < 65536" using unsigned_less [of w] by simp
  ultimately show ?thesis
    by (simp add: parse_u16_def show_nat_nonempty)
qed

lemma show_nat_no_char: "of_char c < (48 :: nat) \<or> of_char c > (57 :: nat) \<Longrightarrow> c \<notin> set (show_nat n)"
proof (induction n rule: less_induct)
  case (less n)
  then show ?case
    by (subst show_nat_rec) auto
qed

lemma valid_utf8_printable: "list_all printable s \<Longrightarrow> valid_utf8_str s"
  by (auto simp: valid_utf8_str_def printable_def list_all_iff intro!: valid_utf8_ascii)

end
