(* ===== verification/RustPath.thy ===== *)
theory RustPath
  imports RustStr
begin

text \<open>
  \<^verbatim>\<open>std::path::Path\<close> on Unix: component iteration, \<^verbatim>\<open>starts_with\<close>, \<^verbatim>\<open>file_name\<close>,
  \<^verbatim>\<open>parent\<close> and \<^verbatim>\<open>join\<close>.  A path is the byte string the code holds; these functions are
  purely lexical and never look at the file system.
\<close>

datatype component = RootDir | CurDir | ParentDir | Normal string

definition is_absolute :: "string \<Rightarrow> bool" where
  "is_absolute s = prefix ''/'' s"

definition component_of :: "string \<Rightarrow> component" where
  "component_of n = (if n = ''..'' then ParentDir else Normal n)"

text \<open>
  \<^verbatim>\<open>Path::components\<close>: repeated separators and \<open>.\<close> components are skipped, except that a
  leading \<open>.\<close> of a relative path is kept.
\<close>

definition path_segments :: "string \<Rightarrow> string list" where
  "path_segments s = filter (\<lambda>t. t \<noteq> []) (split_on CHR ''/'' s)"

definition components :: "string \<Rightarrow> component list" where
  "components s =
     (if is_absolute s
      then RootDir # List.map component_of (filter (\<lambda>t. t \<noteq> ''.'') (path_segments s))
      else (case path_segments s of
              [] \<Rightarrow> []
            | t # ts \<Rightarrow>
                (if t = ''.'' then CurDir else component_of t)
                # List.map component_of (filter (\<lambda>u. u \<noteq> ''.'') ts)))"

text \<open>\<^verbatim>\<open>Path::starts_with\<close> compares whole components.\<close>

definition path_starts_with :: "string \<Rightarrow> string \<Rightarrow> bool" where
  "path_starts_with p base = prefix (components base) (components p)"

definition file_name :: "string \<Rightarrow> string option" where
  "file_name p =
     (case rev (components p) of Normal n # _ \<Rightarrow> Some n | _ \<Rightarrow> None)"

fun component_text :: "component \<Rightarrow> string" where
  "component_text RootDir = []"
| "component_text CurDir = ''.''"
| "component_text ParentDir = ''..''"
| "component_text (Normal n) = n"

definition join_names :: "string list \<Rightarrow> string" where
  "join_names ns = (case ns of [] \<Rightarrow> [] | n # ms \<Rightarrow> n @ concat (List.map (\<lambda>m. CHR ''/'' # m) ms))"

fun render_components :: "component list \<Rightarrow> string" where
  "render_components (RootDir # cs) = CHR ''/'' # join_names (List.map component_text cs)"
| "render_components cs = join_names (List.map component_text cs)"

text \<open>
  \<^verbatim>\<open>Path::parent\<close>: the path without its last component; none for the root and the empty
  path.  (Rust returns a slice of the original text; the rendering of the remaining
  components names the same file.)
\<close>

definition path_parent :: "string \<Rightarrow> string option" where
  "path_parent p =
     (case rev (components p) of
        [] \<Rightarrow> None
      | RootDir # _ \<Rightarrow> None
      | _ # cs \<Rightarrow> Some (render_components (rev cs)))"

definition path_join :: "string \<Rightarrow> string \<Rightarrow> string" where
  "path_join a b =
     (if is_absolute b then b
      else if a = [] \<or> suffix ''/'' a then a @ b else a @ CHR ''/'' # b)"

section \<open>Names and canonical paths\<close>

text \<open>A directory entry name, and the text of a canonical absolute path.\<close>

definition valid_name :: "string \<Rightarrow> bool" where
  "valid_name n \<longleftrightarrow> n \<noteq> [] \<and> n \<noteq> ''.'' \<and> n \<noteq> ''..'' \<and> CHR ''/'' \<notin> set n"

definition render_abs :: "string list \<Rightarrow> string" where
  "render_abs p = (if p = [] then ''/'' else concat (List.map (\<lambda>n. CHR ''/'' # n) p))"

lemma is_absolute_render_abs [simp]: "is_absolute (render_abs p)"
  by (cases p) (simp_all add: is_absolute_def render_abs_def)

lemma path_segments_Nil [simp]: "path_segments [] = []"
  by (simp add: path_segments_def)

lemma path_segments_Cons: "path_segments (CHR ''/'' # s) = path_segments s"
  by (simp add: path_segments_def)

lemma path_segments_free: "t \<in> set (path_segments s) \<Longrightarrow> t \<noteq> [] \<and> CHR ''/'' \<notin> set t"
  by (auto simp: path_segments_def split_on_free)

lemma path_segments_append: "path_segments (a @ CHR ''/'' # b) = path_segments a @ path_segments b"
  by (simp add: path_segments_def split_on_append)

lemma path_segments_name: "valid_name n \<Longrightarrow> path_segments n = [n]"
  by (simp add: path_segments_def valid_name_def split_on_id)

lemma path_segments_concat:
  "\<forall>n \<in> set p. valid_name n \<Longrightarrow> path_segments (concat (List.map (\<lambda>n. CHR ''/'' # n) p)) = p"
proof (induction p)
  case Nil
  then show ?case by simp
next
  case (Cons n p)
  then have n: "path_segments n = [n]" by (simp add: path_segments_name)
  show ?case
  proof (cases p)
    case Nil
    then show ?thesis using n by (simp add: path_segments_Cons)
  next
    case (Cons m q)
    let ?r = "concat (List.map (\<lambda>n. CHR ''/'' # n) p)"
    have r: "?r = CHR ''/'' # m @ concat (List.map (\<lambda>n. CHR ''/'' # n) q)"
      using Cons by simp
    have "path_segments (n @ ?r) = path_segments n @ path_segments ?r"
      unfolding r by (simp add: path_segments_append path_segments_Cons)
    also have "\<dots> = n # p" using n Cons.prems Cons.IH by simp
    finally show ?thesis by (simp add: path_segments_Cons)
  qed
qed

lemma path_segments_render_abs:
  "\<forall>n \<in> set p. valid_name n \<Longrightarrow> path_segments (render_abs p) = p"
proof (cases "p = []")
  case True
  then show ?thesis by (simp add: render_abs_def path_segments_def)
next
  case False
  then show "\<forall>n \<in> set p. valid_name n \<Longrightarrow> path_segments (render_abs p) = p"
    by (simp add: render_abs_def path_segments_concat)
qed

lemma components_render_abs:
  assumes "\<forall>n \<in> set p. valid_name n"
  shows "components (render_abs p) = RootDir # List.map Normal p"
proof -
  have "filter (\<lambda>t. t \<noteq> ''.'') p = p" using assms by (auto simp: valid_name_def filter_id_conv)
  moreover have "List.map component_of p = List.map Normal p"
    using assms by (auto simp: valid_name_def component_of_def)
  ultimately show ?thesis
    using assms by (simp add: components_def path_segments_render_abs)
qed

text \<open>On canonical paths \<^verbatim>\<open>starts_with\<close> is the prefix order of the name lists.\<close>

lemma starts_with_render_abs:
  assumes "\<forall>n \<in> set p. valid_name n" and "\<forall>n \<in> set r. valid_name n"
  shows "path_starts_with (render_abs p) (render_abs r) \<longleftrightarrow> prefix r p"
proof -
  have "prefix (List.map Normal r) (List.map Normal p) \<longleftrightarrow> prefix r p"
    by (auto intro: prefix_map_inj [of Normal] map_mono_prefix simp: inj_def)
  with assms show ?thesis by (simp add: path_starts_with_def components_render_abs)
qed

lemma starts_with_refl: "path_starts_with p p"
  by (simp add: path_starts_with_def)

lemma starts_with_trans:
  "path_starts_with p q \<Longrightarrow> path_starts_with q r \<Longrightarrow> path_starts_with p r"
  using prefix_order.trans by (auto simp: path_starts_with_def)

lemma valid_name_nth: "valid_name n \<Longrightarrow> component_of n = Normal n"
  by (simp add: valid_name_def component_of_def)

lemma components_snoc_name:
  assumes "valid_name n"
  shows "\<exists>cs. components (d @ CHR ''/'' # n) = cs @ [Normal n]"
proof -
  have "path_segments (d @ CHR ''/'' # n) = path_segments d @ [n]"
    using assms by (simp add: path_segments_append path_segments_name)
  with assms show ?thesis
    by (cases "path_segments d") (auto simp: components_def valid_name_def component_of_def)
qed

lemma file_name_snoc: "valid_name n \<Longrightarrow> file_name (d @ CHR ''/'' # n) = Some n"
  using components_snoc_name [of n d] by (auto simp: file_name_def)

end
