(* ===== verification/World.thy ===== *)
theory World
  imports RustPath
begin

text \<open>
  The machine the daemon runs on, as far as the code observes it through Rust's \<^verbatim>\<open>std::fs\<close>,
  \<^verbatim>\<open>std::env\<close> and the clock: a file system with directories, regular files, symbolic links
  and kernel pseudo-files, a working directory, environment variables, and a clock.  Any
  system call may also fail: \<open>fs_faults\<close> gives, for each operation and resolved path, the
  error it raises (permissions, a full disk, I/O errors), and is arbitrary.  A write that fails
  leaves part of its data behind: \<open>fs_partial\<close> gives how many bytes of it, and is arbitrary
  too.  Each operation is one atomic step on the \<open>world\<close>; hard links, modes and the
  bookkeeping of directory sizes and times are left out.
\<close>

section \<open>Errors and nodes\<close>

datatype io_kind = EkNotFound | EkPermissionDenied | EkAlreadyExists | EkNotADirectory
  | EkIsADirectory | EkFilesystemLoop | EkInvalidInput | EkInvalidData | EkUnexpectedEof | EkOther

datatype io_error = IoErr (io_kind_of: io_kind) (io_to_string: string)

datatype node =
    FileN bytes "int option"       \<comment> \<open>regular file: content, modification time in ns since the epoch\<close>
  | PseudoN bytes "int option"     \<comment> \<open>kernel pseudo-file: \<^verbatim>\<open>stat\<close> reports size 0 whatever it yields\<close>
  | DirN nat "int option"          \<comment> \<open>directory, with the size \<^verbatim>\<open>stat\<close> reports\<close>
  | LinkN string "int option"      \<comment> \<open>symbolic link and its target\<close>

datatype fs_op = OpLookup | OpRealpath | OpStat | OpRead | OpReadDir | OpDirEntry | OpLstat
  | OpOpen | OpWrite | OpCreate | OpMkdir | OpSync | OpRename | OpUnlink | OpChmod

text \<open>The environment as \<^verbatim>\<open>std::env::var\<close> sees it: the variables whose values are valid Unicode.\<close>

type_synonym environment = "string \<Rightarrow> string option"

record world =
  fs_nodes :: "(string list \<times> node) list"
  fs_cwd :: "string list"
  fs_faults :: "fs_op \<Rightarrow> string list \<Rightarrow> io_error option"
  fs_partial :: "string list \<Rightarrow> nat"
  env_vars :: environment
  wall_clock :: "nat \<Rightarrow> int"
  ticks :: nat

definition strerror :: "io_kind \<Rightarrow> string" where
  "strerror k = (case k of
       EkNotFound \<Rightarrow> ''No such file or directory (os error 2)''
     | EkPermissionDenied \<Rightarrow> ''Permission denied (os error 13)''
     | EkAlreadyExists \<Rightarrow> ''File exists (os error 17)''
     | EkNotADirectory \<Rightarrow> ''Not a directory (os error 20)''
     | EkIsADirectory \<Rightarrow> ''Is a directory (os error 21)''
     | EkFilesystemLoop \<Rightarrow> ''Too many levels of symbolic links (os error 40)''
     | EkInvalidInput \<Rightarrow> ''Invalid argument (os error 22)''
     | _ \<Rightarrow> ''I/O error'')"

definition os_err :: "io_kind \<Rightarrow> io_error" where
  "os_err k = IoErr k (strerror k)"

lemma os_err_sel [simp]: "io_kind_of (os_err k) = k"
  by (simp add: os_err_def)

abbreviation node_at :: "world \<Rightarrow> string list \<Rightarrow> node option" where
  "node_at w p \<equiv> map_of (fs_nodes w) p"

definition is_dir_node :: "node option \<Rightarrow> bool" where
  "is_dir_node n = (case n of Some (DirN _ _) \<Rightarrow> True | _ \<Rightarrow> False)"

definition is_link_node :: "node option \<Rightarrow> bool" where
  "is_link_node n = (case n of Some (LinkN _ _) \<Rightarrow> True | _ \<Rightarrow> False)"

lemma is_dir_node_simps [simp]:
  "\<not> is_dir_node None" "is_dir_node (Some (DirN k m))"
  "\<not> is_dir_node (Some (FileN d m))" "\<not> is_dir_node (Some (PseudoN d m))"
  "\<not> is_dir_node (Some (LinkN t m))"
  by (simp_all add: is_dir_node_def)

lemma is_link_node_simps [simp]:
  "\<not> is_link_node None" "\<not> is_link_node (Some (DirN k m))"
  "\<not> is_link_node (Some (FileN d m))" "\<not> is_link_node (Some (PseudoN d m))"
  "is_link_node (Some (LinkN t m))"
  by (simp_all add: is_link_node_def)

lemma is_dir_nodeE:
  assumes "is_dir_node n" obtains k m where "n = Some (DirN k m)"
  using assms by (auto simp: is_dir_node_def split: option.splits node.splits)

lemma dir_not_link: "is_dir_node n \<Longrightarrow> \<not> is_link_node n"
  by (auto elim: is_dir_nodeE)

section \<open>Path resolution\<close>

text \<open>
  The names the kernel walks: empty segments vanish, and a trailing separator asks for a
  directory, as a final \<open>.\<close> does.
\<close>

definition os_names :: "string \<Rightarrow> string list" where
  "os_names s = path_segments s @ (if suffix ''/'' s then [''.''] else [])"

text \<open>
  Resolution from the directory \<open>cur\<close>, following at most \<open>n\<close> further symbolic links (Linux
  allows 40).  With \<open>mk\<close>, a missing last component is accepted, as \<^verbatim>\<open>open(O_CREAT)\<close> does.
\<close>

fun walk :: "world \<Rightarrow> bool \<Rightarrow> nat \<Rightarrow> string list \<Rightarrow> string list \<Rightarrow> io_error + string list" where
  "walk w mk n cur [] = Inr cur"
| "walk w mk n cur (c # cs) =
     (if node_at w cur = None then Inl (os_err EkNotFound)
      else if \<not> is_dir_node (node_at w cur) then Inl (os_err EkNotADirectory)
      else (case fs_faults w OpLookup cur of
        Some e \<Rightarrow> Inl e
      | None \<Rightarrow>
          if c = ''.'' then walk w mk n cur cs
          else if c = ''..'' then walk w mk n (butlast cur) cs
          else (case node_at w (cur @ [c]) of
              None \<Rightarrow> if mk \<and> cs = [] then Inr (cur @ [c]) else Inl (os_err EkNotFound)
            | Some (LinkN t m) \<Rightarrow>
                (case n of
                   0 \<Rightarrow> Inl (os_err EkFilesystemLoop)
                 | Suc k \<Rightarrow> walk w mk k (if is_absolute t then [] else cur) (os_names t @ cs))
            | Some _ \<Rightarrow> walk w mk n (cur @ [c]) cs)))"

definition max_symlinks :: nat where
  "max_symlinks = 40"

definition start_dir :: "world \<Rightarrow> string \<Rightarrow> string list" where
  "start_dir w s = (if is_absolute s then [] else fs_cwd w)"

text \<open>Resolution that follows every link; the result is the canonical path.\<close>

definition lookup :: "world \<Rightarrow> string \<Rightarrow> io_error + string list" where
  "lookup w s =
     (if s = [] then Inl (os_err EkNotFound)
      else walk w False max_symlinks (start_dir w s) (os_names s))"

definition lookup_create :: "world \<Rightarrow> string \<Rightarrow> io_error + string list" where
  "lookup_create w s =
     (if s = [] then Inl (os_err EkNotFound)
      else walk w True max_symlinks (start_dir w s) (os_names s))"

text \<open>
  Resolution of the directory entry a path names, without following a final link: what
  \<^verbatim>\<open>rename\<close>, \<^verbatim>\<open>mkdir\<close> and \<^verbatim>\<open>unlink\<close> act on.
\<close>

definition lookup_entry :: "world \<Rightarrow> string \<Rightarrow> io_error + string list" where
  "lookup_entry w s =
     (let ns = os_names s in
      if s = [] then Inl (os_err EkNotFound)
      else if ns = [] \<or> \<not> valid_name (last ns) then Inl (os_err EkInvalidInput)
      else (case walk w False max_symlinks (start_dir w s) (butlast ns) of
              Inl e \<Rightarrow> Inl e
            | Inr d \<Rightarrow>
                if node_at w d = None then Inl (os_err EkNotFound)
                else if \<not> is_dir_node (node_at w d) then Inl (os_err EkNotADirectory)
                else (case fs_faults w OpLookup d of
                        Some e \<Rightarrow> Inl e
                      | None \<Rightarrow> Inr (d @ [last ns]))))"

section \<open>Reading operations of \<^verbatim>\<open>std::fs\<close>\<close>

definition canonicalize :: "world \<Rightarrow> string \<Rightarrow> io_error + string" where
  "canonicalize w s =
     (case lookup w s of
        Inl e \<Rightarrow> Inl e
      | Inr p \<Rightarrow> (case fs_faults w OpRealpath p of Some e \<Rightarrow> Inl e | None \<Rightarrow> Inr (render_abs p)))"

record metadata =
  md_len :: u64
  md_is_dir :: bool
  md_modified :: "int option"

fun meta_of :: "node \<Rightarrow> metadata" where
  "meta_of (FileN d m) = \<lparr>md_len = word_of_nat (length d), md_is_dir = False, md_modified = m\<rparr>"
| "meta_of (PseudoN d m) = \<lparr>md_len = 0, md_is_dir = False, md_modified = m\<rparr>"
| "meta_of (DirN k m) = \<lparr>md_len = word_of_nat k, md_is_dir = True, md_modified = m\<rparr>"
| "meta_of (LinkN t m) = \<lparr>md_len = word_of_nat (length t), md_is_dir = False, md_modified = m\<rparr>"

definition fs_metadata :: "world \<Rightarrow> string \<Rightarrow> io_error + metadata" where
  "fs_metadata w s =
     (case lookup w s of
        Inl e \<Rightarrow> Inl e
      | Inr p \<Rightarrow>
          (case fs_faults w OpStat p of
             Some e \<Rightarrow> Inl e
           | None \<Rightarrow> (case node_at w p of
                        None \<Rightarrow> Inl (os_err EkNotFound)
                      | Some nd \<Rightarrow> Inr (meta_of nd))))"

definition path_exists :: "world \<Rightarrow> string \<Rightarrow> bool" where
  "path_exists w s = is_ok (fs_metadata w s)"

definition path_is_dir :: "world \<Rightarrow> string \<Rightarrow> bool" where
  "path_is_dir w s = (case fs_metadata w s of Inl _ \<Rightarrow> False | Inr m \<Rightarrow> md_is_dir m)"

definition fs_read :: "world \<Rightarrow> string \<Rightarrow> io_error + bytes" where
  "fs_read w s =
     (case lookup w s of
        Inl e \<Rightarrow> Inl e
      | Inr p \<Rightarrow>
          (case fs_faults w OpRead p of
             Some e \<Rightarrow> Inl e
           | None \<Rightarrow> (case node_at w p of
                        Some (FileN d m) \<Rightarrow> Inr d
                      | Some (PseudoN d m) \<Rightarrow> Inr d
                      | Some (DirN k m) \<Rightarrow> Inl (os_err EkIsADirectory)
                      | _ \<Rightarrow> Inl (os_err EkNotFound))))"

definition fs_read_to_string :: "world \<Rightarrow> string \<Rightarrow> io_error + string" where
  "fs_read_to_string w s =
     (case fs_read w s of
        Inl e \<Rightarrow> Inl e
      | Inr d \<Rightarrow> (case from_utf8 d of
                    None \<Rightarrow> Inl (IoErr EkInvalidData ''stream did not contain valid UTF-8'')
                  | Some t \<Rightarrow> Inr t))"

text \<open>
  \<^verbatim>\<open>read_dir\<close> yields the entries in the order the file system keeps them, each of which may
  be an error; an entry is its canonical path.  Its \<^verbatim>\<open>metadata\<close> does not follow links.
\<close>

definition children :: "world \<Rightarrow> string list \<Rightarrow> string list list" where
  "children w p = filter (\<lambda>q. q \<noteq> [] \<and> butlast q = p) (List.map fst (fs_nodes w))"

definition dir_entry :: "world \<Rightarrow> string list \<Rightarrow> io_error + string list" where
  "dir_entry w q = (case fs_faults w OpDirEntry q of Some e \<Rightarrow> Inl e | None \<Rightarrow> Inr q)"

definition fs_read_dir :: "world \<Rightarrow> string \<Rightarrow> io_error + (io_error + string list) list" where
  "fs_read_dir w s =
     (case lookup w s of
        Inl e \<Rightarrow> Inl e
      | Inr p \<Rightarrow>
          (case fs_faults w OpReadDir p of
             Some e \<Rightarrow> Inl e
           | None \<Rightarrow>
               if is_dir_node (node_at w p) then Inr (List.map (dir_entry w) (children w p))
               else Inl (os_err EkNotADirectory)))"

definition entry_metadata :: "world \<Rightarrow> string list \<Rightarrow> io_error + metadata" where
  "entry_metadata w q =
     (case fs_faults w OpLstat q of
        Some e \<Rightarrow> Inl e
      | None \<Rightarrow> (case node_at w q of
                   None \<Rightarrow> Inl (os_err EkNotFound)
                 | Some nd \<Rightarrow> Inr (meta_of nd)))"

section \<open>Clock and environment\<close>

definition now :: "world \<Rightarrow> int" where
  "now w = wall_clock w (ticks w)"

definition tick :: "world \<Rightarrow> world" where
  "tick w = w\<lparr>ticks := Suc (ticks w)\<rparr>"

text \<open>\<^verbatim>\<open>Utc::now()\<close>: each reading of the clock is a new one.\<close>

definition utc_now :: "world \<Rightarrow> int \<times> world" where
  "utc_now w = (now w, tick w)"

section \<open>Writing operations of \<^verbatim>\<open>std::fs\<close>\<close>

definition put_node :: "string list \<Rightarrow> node \<Rightarrow> world \<Rightarrow> world" where
  "put_node p nd w = w\<lparr>fs_nodes := AList.update p nd (fs_nodes w)\<rparr>"

definition del_node :: "string list \<Rightarrow> world \<Rightarrow> world" where
  "del_node p w = w\<lparr>fs_nodes := AList.delete p (fs_nodes w)\<rparr>"

text \<open>
  \<^verbatim>\<open>write_all\<close>: nothing is called for no data; otherwise the write may fail, after at most
  \<open>fs_partial\<close> bytes have reached the file.
\<close>

definition write_fault :: "world \<Rightarrow> string list \<Rightarrow> bytes \<Rightarrow> io_error option" where
  "write_fault w p data = (if data = [] then None else fs_faults w OpWrite p)"

definition landed :: "world \<Rightarrow> string list \<Rightarrow> bytes \<Rightarrow> bytes" where
  "landed w p data = (case write_fault w p data of None \<Rightarrow> data | Some e \<Rightarrow> take (fs_partial w p) data)"

definition write_result :: "world \<Rightarrow> string list \<Rightarrow> bytes \<Rightarrow> io_error + unit" where
  "write_result w p data = (case write_fault w p data of None \<Rightarrow> Inr () | Some e \<Rightarrow> Inl e)"

text \<open>
  \<^verbatim>\<open>open(O_CREAT | O_TRUNC)\<close> and \<^verbatim>\<open>write_all\<close>, as \<^verbatim>\<open>std::fs::write\<close>; with \<open>app\<close>, appending.
  The file is emptied or created before the write can fail.
\<close>

definition write_node :: "bool \<Rightarrow> bytes \<Rightarrow> int \<Rightarrow> node option \<Rightarrow> io_error + node" where
  "write_node app data t nd =
     (case nd of
        None \<Rightarrow> Inr (FileN data (Some t))
      | Some (FileN d m) \<Rightarrow> Inr (FileN (if app then d @ data else data) (Some t))
      | Some (PseudoN d m) \<Rightarrow> Inr (PseudoN d m)
      | _ \<Rightarrow> Inl (os_err EkIsADirectory))"

definition fs_open_write :: "bool \<Rightarrow> string \<Rightarrow> bytes \<Rightarrow> world \<Rightarrow> (io_error + unit) \<times> world" where
  "fs_open_write app s data w =
     (case lookup_create w s of
        Inl e \<Rightarrow> (Inl e, w)
      | Inr p \<Rightarrow>
          (case fs_faults w OpOpen p of
             Some e \<Rightarrow> (Inl e, w)
           | None \<Rightarrow>
               (case write_node app (landed w p data) (now w) (node_at w p) of
                  Inl e \<Rightarrow> (Inl e, w)
                | Inr nd \<Rightarrow> (write_result w p data, put_node p nd (tick w)))))"

definition fs_write :: "string \<Rightarrow> bytes \<Rightarrow> world \<Rightarrow> (io_error + unit) \<times> world" where
  "fs_write = fs_open_write False"

definition fs_append :: "string \<Rightarrow> bytes \<Rightarrow> world \<Rightarrow> (io_error + unit) \<times> world" where
  "fs_append = fs_open_write True"

definition fs_mkdir :: "string \<Rightarrow> world \<Rightarrow> (io_error + unit) \<times> world" where
  "fs_mkdir s w =
     (case lookup_entry w s of
        Inl e \<Rightarrow> (Inl e, w)
      | Inr p \<Rightarrow>
          (case fs_faults w OpMkdir p of
             Some e \<Rightarrow> (Inl e, w)
           | None \<Rightarrow>
               (case node_at w p of
                  Some _ \<Rightarrow> (Inl (os_err EkAlreadyExists), w)
                | None \<Rightarrow> (Inr (), put_node p (DirN 4096 (Some (now w))) (tick w)))))"

text \<open>
  \<^verbatim>\<open>std::fs::create_dir_all\<close>: try to create the directory; on \<open>NotFound\<close> create the
  parents first and try again; an existing directory is success.
\<close>

fun create_dirs :: "nat \<Rightarrow> string \<Rightarrow> world \<Rightarrow> (io_error + unit) \<times> world" where
  "create_dirs 0 s w = (Inl (IoErr EkOther ''failed to create whole tree''), w)"
| "create_dirs (Suc k) s w =
     (if s = [] then (Inr (), w)
      else (case fs_mkdir s w of
        (Inr _, w1) \<Rightarrow> (Inr (), w1)
      | (Inl e, w1) \<Rightarrow>
          if io_kind_of e = EkNotFound then
            (case path_parent s of
               None \<Rightarrow> (Inl (IoErr EkOther ''failed to create whole tree''), w1)
             | Some q \<Rightarrow>
                 (case create_dirs k q w1 of
                    (Inl e2, w2) \<Rightarrow> (Inl e2, w2)
                  | (Inr _, w2) \<Rightarrow>
                      (case fs_mkdir s w2 of
                         (Inr _, w3) \<Rightarrow> (Inr (), w3)
                       | (Inl e3, w3) \<Rightarrow>
                           if path_is_dir w3 s then (Inr (), w3) else (Inl e3, w3))))
          else if path_is_dir w1 s then (Inr (), w1) else (Inl e, w1)))"

text \<open>The depth of the recursion is the number of components, so this fuel is never exhausted.\<close>

definition fs_create_dir_all :: "string \<Rightarrow> world \<Rightarrow> (io_error + unit) \<times> world" where
  "fs_create_dir_all s w = create_dirs (Suc (length (components s))) s w"

text \<open>Exclusive creation of a file in a directory, as a temporary file is made.\<close>

definition os_create_new :: "string list \<Rightarrow> string \<Rightarrow> world \<Rightarrow> (io_error + string list) \<times> world" where
  "os_create_new d n w =
     (let p = d @ [n] in
      if \<not> is_dir_node (node_at w d) then (Inl (os_err EkNotADirectory), w)
      else if \<not> valid_name n then (Inl (os_err EkInvalidInput), w)
      else (case fs_faults w OpCreate p of
              Some e \<Rightarrow> (Inl e, w)
            | None \<Rightarrow>
                (case node_at w p of
                   Some _ \<Rightarrow> (Inl (os_err EkAlreadyExists), w)
                 | None \<Rightarrow> (Inr p, put_node p (FileN [] (Some (now w))) (tick w)))))"

text \<open>
  \<^verbatim>\<open>File::write_all\<close> and \<^verbatim>\<open>sync_all\<close> on a file that was just created, named by its
  canonical path.  The data, or as much of it as was written, goes to the start of the file,
  over what others have appended since; when the name no longer leads to a regular file, it
  goes to a file without a name.
\<close>

definition file_write_all :: "string list \<Rightarrow> bytes \<Rightarrow> world \<Rightarrow> (io_error + unit) \<times> world" where
  "file_write_all p data w =
     (case node_at w p of
        Some (FileN d m) \<Rightarrow>
          (let put = landed w p data in
           (write_result w p data,
            put_node p (FileN (put @ drop (length put) d) (Some (now w))) (tick w)))
      | _ \<Rightarrow> (write_result w p data, w))"

definition file_sync_all :: "string list \<Rightarrow> world \<Rightarrow> io_error + unit" where
  "file_sync_all p w = (case fs_faults w OpSync p of Some e \<Rightarrow> Inl e | None \<Rightarrow> Inr ())"

text \<open>\<^verbatim>\<open>rename(2)\<close> of the file \<open>t\<close> onto the directory entry named by \<open>s\<close>.\<close>

definition os_rename :: "string list \<Rightarrow> string \<Rightarrow> world \<Rightarrow> (io_error + unit) \<times> world" where
  "os_rename t s w =
     (case lookup_entry w s of
        Inl e \<Rightarrow> (Inl e, w)
      | Inr p \<Rightarrow>
          (case fs_faults w OpRename p of
             Some e \<Rightarrow> (Inl e, w)
           | None \<Rightarrow>
               if is_dir_node (node_at w p) then (Inl (os_err EkIsADirectory), w)
               else (case node_at w t of
                       None \<Rightarrow> (Inl (os_err EkNotFound), w)
                     | Some nd \<Rightarrow> (Inr (), put_node p nd (del_node t w)))))"

definition fs_remove_file :: "string \<Rightarrow> world \<Rightarrow> (io_error + unit) \<times> world" where
  "fs_remove_file s w =
     (case lookup_entry w s of
        Inl e \<Rightarrow> (Inl e, w)
      | Inr p \<Rightarrow>
          (case fs_faults w OpUnlink p of
             Some e \<Rightarrow> (Inl e, w)
           | None \<Rightarrow>
               (case node_at w p of
                  None \<Rightarrow> (Inl (os_err EkNotFound), w)
                | Some (DirN k m) \<Rightarrow> (Inl (os_err EkIsADirectory), w)
                | Some _ \<Rightarrow> (Inr (), del_node p w))))"

text \<open>\<^verbatim>\<open>set_permissions\<close>: modes are not part of the world, only the outcome is.\<close>

definition fs_set_permissions :: "string \<Rightarrow> world \<Rightarrow> io_error + unit" where
  "fs_set_permissions s w =
     (case lookup w s of
        Inl e \<Rightarrow> Inl e
      | Inr p \<Rightarrow> (case fs_faults w OpChmod p of Some e \<Rightarrow> Inl e | None \<Rightarrow> Inr ()))"

end
