(* ===== verification/Paths.thy ===== *)
theory Paths
  imports World
begin

text \<open>
  \<^verbatim>\<open>membrane-daemon/src/paths.rs\<close>: where the daemon's files live.  The \<^verbatim>\<open>directories\<close> crate
  is a parameter, \<open>dep_config_dir\<close>: the project's configuration directory in a given
  environment, if there is one.  Unix paths only; the Windows arm is not modelled.
\<close>

datatype platform = Linux | MacOS

record paths_deps =
  dep_platform :: platform
  dep_config_dir :: "environment \<Rightarrow> string option"

definition user_dir :: "'z paths_deps_scheme \<Rightarrow> environment \<Rightarrow> string" where
  "user_dir x env =
     (case dep_config_dir x env of
        Some d \<Rightarrow> d
      | None \<Rightarrow> (case env ''HOME'' of
                   Some h \<Rightarrow> path_join (path_join h ''.config'') ''membrane''
                 | None \<Rightarrow> ''.''))"

definition system_dir :: "'z paths_deps_scheme \<Rightarrow> string" where
  "system_dir x =
     (case dep_platform x of
        Linux \<Rightarrow> ''/etc/membrane''
      | MacOS \<Rightarrow> ''/Library/Application Support/membrane'')"

definition user_policy :: "'z paths_deps_scheme \<Rightarrow> environment \<Rightarrow> string" where
  "user_policy x env = path_join (user_dir x env) ''policy.toml''"

definition system_policy :: "'z paths_deps_scheme \<Rightarrow> string" where
  "system_policy x = path_join (system_dir x) ''policy.toml''"

definition cert_path :: "'z paths_deps_scheme \<Rightarrow> environment \<Rightarrow> string" where
  "cert_path x env = path_join (user_dir x env) ''daemon.crt''"

definition key_path :: "'z paths_deps_scheme \<Rightarrow> environment \<Rightarrow> string" where
  "key_path x env = path_join (user_dir x env) ''daemon.key''"

definition cloud_pin_path :: "'z paths_deps_scheme \<Rightarrow> environment \<Rightarrow> string" where
  "cloud_pin_path x env = path_join (user_dir x env) ''cloud.pin''"

definition audit_dir :: "'z paths_deps_scheme \<Rightarrow> environment \<Rightarrow> string" where
  "audit_dir x env = path_join (user_dir x env) ''audit''"

definition audit_log_for :: "'z paths_deps_scheme \<Rightarrow> environment \<Rightarrow> string \<Rightarrow> string" where
  "audit_log_for x env day = path_join (audit_dir x env) (day @ ''.jsonl'')"

definition readable :: "world \<Rightarrow> string \<Rightarrow> bool" where
  "readable w path = is_ok (fs_metadata w path)"

end
