(* ===== verification/WorldFacts.thy ===== *)
theory WorldFacts
  imports World
begin

text \<open>
  Well-formed worlds and what the operations of \<open>World\<close> keep of them, the frame of each
  operation, and the lemmas on path resolution the policy proofs rest on.
\<close>

section \<open>Well-formed worlds\<close>

text \<open>
  The node list is a finite map, the root and the working directory are directories, and
  every other node has a proper name and a directory as its parent.
\<close>

definition wf_world :: "world \<Rightarrow> bool" where
  "wf_world w \<longleftrightarrow>
     distinct (List.map fst (fs_nodes w)) \<and> is_dir_node (node_at w []) \<and>
     is_dir_node (node_at w (fs_cwd w)) \<and>
     list_all (\<lambda>p. p = [] \<or> (is_dir_node (node_at w (butlast p)) \<and> valid_name (last p)))
       (List.map fst (fs_nodes w))"

lemma wf_worldI:
  assumes "distinct (List.map fst (fs_nodes w))"
    and "is_dir_node (node_at w [])" and "is_dir_node (node_at w (fs_cwd w))"
    and "\<And>q. q \<in> set (List.map fst (fs_nodes w)) \<Longrightarrow>
      q = [] \<or> (is_dir_node (node_at w (butlast q)) \<and> valid_name (last q))"
  shows "wf_world w"
  using assms unfolding wf_world_def list_all_iff by blast

lemma wf_root: "wf_world w \<Longrightarrow> is_dir_node (node_at w [])"
  by (simp add: wf_world_def)

lemma wf_cwd: "wf_world w \<Longrightarrow> is_dir_node (node_at w (fs_cwd w))"
  by (simp add: wf_world_def)

lemma node_at_key: "node_at w p = Some nd \<Longrightarrow> p \<in> set (List.map fst (fs_nodes w))"
  by (metis domI dom_map_of_conv_image_fst set_map)

lemma wf_parent:
  assumes "wf_world w" and "node_at w p = Some nd" and "p \<noteq> []"
  shows "is_dir_node (node_at w (butlast p)) \<and> valid_name (last p)"
  using assms node_at_key [OF assms(2)] by (auto simp: wf_world_def list_all_iff)

lemma wf_names:
  assumes wf: "wf_world w"
  shows "node_at w p \<noteq> None \<Longrightarrow> \<forall>n \<in> set p. valid_name n"
proof (induction p rule: rev_induct)
  case Nil
  then show ?case by simp
next
  case (snoc n p)
  then obtain nd where nd: "node_at w (p @ [n]) = Some nd" by blast
  with wf_parent [OF wf nd] have "is_dir_node (node_at w p)" and "valid_name n" by auto
  moreover from this(1) have "node_at w p \<noteq> None" by (auto elim: is_dir_nodeE)
  ultimately show ?case using snoc.IH by auto
qed

lemma wf_prefix_dir:
  assumes wf: "wf_world w"
  shows "node_at w p \<noteq> None \<Longrightarrow> strict_prefix q p \<Longrightarrow> is_dir_node (node_at w q)"
proof (induction p rule: rev_induct)
  case Nil
  then show ?case by simp
next
  case (snoc n p)
  then obtain nd where nd: "node_at w (p @ [n]) = Some nd" by blast
  with wf_parent [OF wf nd] have d: "is_dir_node (node_at w p)" by auto
  from snoc.prems(2) have "prefix q p"
    by (metis prefix_order.less_le prefix_snoc)
  then show ?case
    using d snoc.IH by (cases "q = p") (auto simp: prefix_order.less_le elim: is_dir_nodeE)
qed

section \<open>Frames\<close>

lemma put_node_sel [simp]:
  "fs_nodes (put_node p nd w) = AList.update p nd (fs_nodes w)"
  "fs_cwd (put_node p nd w) = fs_cwd w" "fs_faults (put_node p nd w) = fs_faults w"
  "fs_partial (put_node p nd w) = fs_partial w"
  "env_vars (put_node p nd w) = env_vars w" "wall_clock (put_node p nd w) = wall_clock w"
  "ticks (put_node p nd w) = ticks w"
  by (simp_all add: put_node_def)

lemma del_node_sel [simp]:
  "fs_nodes (del_node p w) = AList.delete p (fs_nodes w)"
  "fs_cwd (del_node p w) = fs_cwd w" "fs_faults (del_node p w) = fs_faults w"
  "fs_partial (del_node p w) = fs_partial w"
  "env_vars (del_node p w) = env_vars w" "wall_clock (del_node p w) = wall_clock w"
  "ticks (del_node p w) = ticks w"
  by (simp_all add: del_node_def)

lemma tick_sel [simp]:
  "fs_nodes (tick w) = fs_nodes w" "fs_cwd (tick w) = fs_cwd w"
  "fs_faults (tick w) = fs_faults w" "fs_partial (tick w) = fs_partial w" "env_vars (tick w) = env_vars w"
  "wall_clock (tick w) = wall_clock w" "ticks (tick w) = Suc (ticks w)"
  by (simp_all add: tick_def)

lemma utc_now_sel [simp]: "fst (utc_now w) = now w" "snd (utc_now w) = tick w"
  by (simp_all add: utc_now_def)

lemma write_result_cases:
  "write_result w p d = Inr u \<longleftrightarrow> write_fault w p d = None"
  "write_result w p d = Inl e \<longleftrightarrow> write_fault w p d = Some e"
  by (simp_all add: write_result_def split: option.split)

lemma landed_ok [simp]: "write_fault w p d = None \<Longrightarrow> landed w p d = d"
  by (simp add: landed_def)

lemma write_result_ok [simp]: "write_fault w p d = None \<Longrightarrow> write_result w p d = Inr ()"
  by (simp add: write_result_def)

lemma write_fault_None [simp]: "fs_faults w OpWrite p = None \<Longrightarrow> write_fault w p d = None"
  by (simp add: write_fault_def)

lemma landed_part: "\<exists>n. landed w p d = take n d"
  unfolding landed_def by (cases "write_fault w p d") (auto intro: exI [of _ "length d"])

text \<open>Operations change the nodes and advance the clock; nothing else.\<close>

definition same_machine :: "world \<Rightarrow> world \<Rightarrow> bool" where
  "same_machine w w' \<longleftrightarrow>
     fs_cwd w' = fs_cwd w \<and> fs_faults w' = fs_faults w
     \<and> fs_partial w' = fs_partial w \<and> env_vars w' = env_vars w
     \<and> wall_clock w' = wall_clock w"

lemma same_machine_refl [simp, intro]: "same_machine w w"
  by (simp add: same_machine_def)

lemma same_machine_trans: "same_machine w w' \<Longrightarrow> same_machine w' w'' \<Longrightarrow> same_machine w w''"
  by (simp add: same_machine_def)

lemma same_machine_put [simp]: "same_machine w (put_node p nd w') = same_machine w w'"
  by (simp add: same_machine_def)

lemma same_machine_del [simp]: "same_machine w (del_node p w') = same_machine w w'"
  by (simp add: same_machine_def)

lemma same_machine_tick [simp]: "same_machine w (tick w') = same_machine w w'"
  by (simp add: same_machine_def)

lemma same_machine_open_write [frame]: "same_machine w (snd (fs_open_write app s d w))"
  by (simp add: fs_open_write_def split: sum.splits option.splits)

lemma same_machine_mkdir [frame]: "same_machine w (snd (fs_mkdir s w))"
  by (simp add: fs_mkdir_def split: sum.splits option.splits)

text \<open>
  Whatever \<^verbatim>\<open>mkdir\<close> keeps, \<^verbatim>\<open>create_dir_all\<close> keeps: used below for frames and for
  well-formedness alike.
\<close>

lemma create_dirs_keeps:
  assumes mk: "\<And>v s. P v \<Longrightarrow> P (snd (fs_mkdir s v))"
  shows "P w \<Longrightarrow> P (snd (create_dirs k s w))"
proof (induction k arbitrary: s w)
  case 0
  then show ?case by simp
next
  case (Suc k)
  obtain r w1 where p1: "fs_mkdir s w = (r, w1)" by fastforce
  with mk [OF Suc.prems, of s] have P1: "P w1" by simp
  show ?case
  proof (cases "s = [] \<or> is_ok r")
    case True
    then show ?thesis using p1 P1 Suc.prems by (cases r) auto
  next
    case False
    then obtain e where e: "s \<noteq> []" "r = Inl e" by (cases r) auto
    show ?thesis
    proof (cases "io_kind_of e = EkNotFound \<and> path_parent s \<noteq> None")
      case False
      then show ?thesis using e p1 P1 by auto
    next
      case True
      then obtain q where q: "io_kind_of e = EkNotFound" "path_parent s = Some q" by blast
      obtain r2 w2 where p2: "create_dirs k q w1 = (r2, w2)" by fastforce
      with Suc.IH [OF P1, of q] have P2: "P w2" by simp
      obtain r3 w3 where p3: "fs_mkdir s w2 = (r3, w3)" by fastforce
      with mk [OF P2, of s] have P3: "P w3" by simp
      show ?thesis using e q p1 p2 p3 P2 P3 by (cases r2; cases r3) simp_all
    qed
  qed
qed

lemma create_dir_all_keeps:
  assumes "\<And>v s. P v \<Longrightarrow> P (snd (fs_mkdir s v))" and "P w"
  shows "P (snd (fs_create_dir_all s w))"
  unfolding fs_create_dir_all_def using assms by (rule create_dirs_keeps)

lemma same_machine_create_dir_all [frame]: "same_machine w (snd (fs_create_dir_all s w))"
  by (rule create_dir_all_keeps [where P = "same_machine w"])
    (auto intro: same_machine_trans same_machine_mkdir)

lemma same_machine_create_new [frame]: "same_machine w (snd (os_create_new d n w))"
  by (simp add: os_create_new_def Let_def split: option.splits)

lemma same_machine_write_all [frame]: "same_machine w (snd (file_write_all p d w))"
  by (simp add: file_write_all_def Let_def split: option.splits node.splits)

lemma same_machine_rename [frame]: "same_machine w (snd (os_rename t s w))"
  by (simp add: os_rename_def split: sum.splits option.splits)

lemma same_machine_remove [frame]: "same_machine w (snd (fs_remove_file s w))"
  by (simp add: fs_remove_file_def split: sum.splits option.splits node.splits)

section \<open>Well-formedness is kept\<close>

lemma keys_update:
  "set (List.map fst (AList.update k v al)) = insert k (set (List.map fst al))"
  by (induction al) auto

lemma set_delete_subset: "set (AList.delete k al) \<subseteq> set al"
  by (induction al) auto

lemma keys_delete: "set (List.map fst (AList.delete k al)) \<subseteq> set (List.map fst al)"
  using set_delete_subset [of k al] by auto

definition placeable :: "world \<Rightarrow> string list \<Rightarrow> node \<Rightarrow> bool" where
  "placeable w p nd \<longleftrightarrow>
     (p = [] \<or> (is_dir_node (node_at w (butlast p)) \<and> valid_name (last p)))
     \<and> (is_dir_node (node_at w p) \<longrightarrow> is_dir_node (Some nd))"

lemma wf_put:
  assumes wf: "wf_world w" and pl: "placeable w p nd"
  shows "wf_world (put_node p nd w)"
proof -
  have dirs: "is_dir_node (node_at (put_node p nd w) q)" if "is_dir_node (node_at w q)" for q
    using that pl by (auto simp: placeable_def)
  have "distinct (List.map fst (AList.update p nd (fs_nodes w)))"
    using wf by (intro distinct_update) (simp add: wf_world_def)
  moreover have "q = [] \<or> (is_dir_node (node_at (put_node p nd w) (butlast q)) \<and> valid_name (last q))"
    if "q \<in> set (List.map fst (AList.update p nd (fs_nodes w)))" for q
  proof (cases "q = p")
    case True
    then show ?thesis using pl dirs by (auto simp: placeable_def)
  next
    case False
    with that have "q \<in> set (List.map fst (fs_nodes w))" unfolding keys_update by blast
    with wf have "q = [] \<or> (is_dir_node (node_at w (butlast q)) \<and> valid_name (last q))"
      by (auto simp: wf_world_def list_all_iff)
    then show ?thesis using dirs by blast
  qed
  ultimately show ?thesis
    using dirs [OF wf_root [OF wf]] dirs [OF wf_cwd [OF wf]]
    by (intro wf_worldI) (simp_all only: put_node_sel del_node_sel)
qed

lemma wf_del:
  assumes wf: "wf_world w" and nd: "\<not> is_dir_node (node_at w p)"
  shows "wf_world (del_node p w)"
proof -
  have dirs: "is_dir_node (node_at (del_node p w) q)" if "is_dir_node (node_at w q)" for q
    using that nd by auto
  have "distinct (List.map fst (AList.delete p (fs_nodes w)))"
    using wf by (intro distinct_delete) (simp add: wf_world_def)
  moreover have "q = [] \<or> (is_dir_node (node_at (del_node p w) (butlast q)) \<and> valid_name (last q))"
    if "q \<in> set (List.map fst (AList.delete p (fs_nodes w)))" for q
  proof -
    from that have "q \<in> set (List.map fst (fs_nodes w))" by (rule subsetD [OF keys_delete])
    with wf have "q = [] \<or> (is_dir_node (node_at w (butlast q)) \<and> valid_name (last q))"
      by (auto simp: wf_world_def list_all_iff)
    then show ?thesis using dirs by blast
  qed
  ultimately show ?thesis
    using dirs [OF wf_root [OF wf]] dirs [OF wf_cwd [OF wf]]
    by (intro wf_worldI) (simp_all only: put_node_sel del_node_sel)
qed

lemma wf_tick [simp]: "wf_world (tick w) = wf_world w"
  by (simp add: wf_world_def)

lemma placeable_tick [simp]: "placeable (tick w) p nd = placeable w p nd"
  by (simp add: placeable_def)

section \<open>Path resolution\<close>

definition good_names :: "string list \<Rightarrow> bool" where
  "good_names ns \<longleftrightarrow> (\<forall>n \<in> set ns. n \<noteq> [] \<and> CHR ''/'' \<notin> set n)"

lemma good_os_names [simp]: "good_names (os_names s)"
  by (auto simp: good_names_def os_names_def dest: path_segments_free)

lemma good_names_append [simp]: "good_names (xs @ ys) \<longleftrightarrow> good_names xs \<and> good_names ys"
  by (auto simp: good_names_def)

lemma good_names_Cons: "good_names (x # xs) \<longleftrightarrow> x \<noteq> [] \<and> CHR ''/'' \<notin> set x \<and> good_names xs"
  by (auto simp: good_names_def)

definition resolved :: "world \<Rightarrow> string list \<Rightarrow> bool" where
  "resolved w p \<longleftrightarrow> node_at w p \<noteq> None \<and> \<not> is_link_node (node_at w p)"

definition creatable :: "world \<Rightarrow> string list \<Rightarrow> bool" where
  "creatable w p \<longleftrightarrow>
     node_at w p = None \<and> p \<noteq> [] \<and> is_dir_node (node_at w (butlast p)) \<and> valid_name (last p)"

lemma resolved_dir: "is_dir_node (node_at w p) \<Longrightarrow> resolved w p"
  by (auto simp: resolved_def elim: is_dir_nodeE)

lemma walk_result:
  "wf_world w \<Longrightarrow> resolved w cur \<Longrightarrow> good_names ns \<Longrightarrow> walk w mk n cur ns = Inr p \<Longrightarrow>
    resolved w p \<or> (mk \<and> creatable w p)"
proof (induction w mk n cur ns rule: walk.induct)
  case (1 w mk n cur)
  then show ?case by simp
next
  case (2 w mk n cur c cs)
  have dir: "is_dir_node (node_at w cur)"
    using "2.prems" by (auto split: if_splits)
  note wf = "2.prems"(1)
  from dir have ex: "node_at w cur \<noteq> None" by (auto elim: is_dir_nodeE)
  have nofault: "fs_faults w OpLookup cur = None"
    using "2.prems" dir ex by (auto split: option.splits)
  have good: "good_names cs" "c \<noteq> []" "CHR ''/'' \<notin> set c"
    using "2.prems" by (auto simp: good_names_Cons)
  note IH = "2.IH" [OF _ _ nofault]
  show ?case
  proof (cases "c = ''.''")
    case True
    then show ?thesis using IH(1) "2.prems" dir ex nofault good by auto
  next
    case c1: False
    show ?thesis
    proof (cases "c = ''..''")
      case True
      have "is_dir_node (node_at w (butlast cur))"
      proof (cases "cur = []")
        case True
        then show ?thesis using wf_root [OF wf] by simp
      next
        case False
        obtain nd where "node_at w cur = Some nd" using ex by blast
        from wf_parent [OF wf this False] show ?thesis by simp
      qed
      then show ?thesis
        using True IH(2) "2.prems" dir ex nofault good c1 by (auto simp: resolved_dir)
    next
      case c2: False
      then have vn: "valid_name c" using c1 good by (simp add: valid_name_def)
      show ?thesis
      proof (cases "node_at w (cur @ [c])")
        case None
        then show ?thesis
          using "2.prems" dir ex nofault c1 c2 vn
          by (auto simp: creatable_def split: if_splits)
      next
        case (Some nd)
        show ?thesis
        proof (cases nd)
          case (LinkN t m)
          then obtain k where n: "n = Suc k"
            using Some "2.prems" dir ex nofault c1 c2 by (cases n) auto
          let ?base = "if is_absolute t then [] else cur"
          have start: "resolved w ?base"
            using wf_root [OF wf] "2.prems"(2) by (simp add: resolved_dir)
          have rest: "walk w mk k ?base (os_names t @ cs) = Inr p"
            using "2.prems" Some LinkN n dir ex nofault c1 c2 by simp
          have names: "good_names (os_names t @ cs)" using good by simp
          show ?thesis
            using IH(6) [OF _ _ c1 c2 Some LinkN n wf start names rest] ex dir by blast
        qed (use IH(3,4,5) Some "2.prems" dir ex nofault good c1 c2 in \<open>auto simp: resolved_def\<close>)
      qed
    qed
  qed
qed

lemma resolved_start: "wf_world w \<Longrightarrow> resolved w (start_dir w s)"
  by (simp add: start_dir_def resolved_dir wf_root wf_cwd)

text \<open>A resolved path names an existing node that is not a link.\<close>

lemma lookup_resolved: "wf_world w \<Longrightarrow> lookup w s = Inr p \<Longrightarrow> resolved w p"
  using walk_result [OF _ resolved_start good_os_names, where w = w and mk = False]
  by (fastforce simp: lookup_def split: if_splits)

lemma lookup_create_result:
  "wf_world w \<Longrightarrow> lookup_create w s = Inr p \<Longrightarrow> resolved w p \<or> creatable w p"
  using walk_result [OF _ resolved_start good_os_names, where w = w and mk = True]
  by (fastforce simp: lookup_create_def split: if_splits)

lemma lookup_entry_parent:
  "lookup_entry w s = Inr p \<Longrightarrow>
    p \<noteq> [] \<and> is_dir_node (node_at w (butlast p)) \<and> valid_name (last p)"
  by (auto simp: lookup_entry_def Let_def split: if_splits sum.splits option.splits)

lemma lookup_names: "wf_world w \<Longrightarrow> lookup w s = Inr p \<Longrightarrow> \<forall>n \<in> set p. valid_name n"
  using lookup_resolved [of w s p] wf_names [of w p] by (simp add: resolved_def)

lemma components_canonical:
  "wf_world w \<Longrightarrow> lookup w s = Inr p \<Longrightarrow> components (render_abs p) = RootDir # List.map Normal p"
  by (simp add: components_render_abs lookup_names)

lemma placeable_resolved_file:
  "wf_world w \<Longrightarrow> resolved w p \<Longrightarrow> \<not> is_dir_node (node_at w p) \<Longrightarrow> placeable w p nd"
  using wf_parent [of w p] wf_root [of w] by (auto simp: placeable_def resolved_def)

lemma placeable_creatable: "creatable w p \<Longrightarrow> placeable w p nd"
  by (auto simp: placeable_def creatable_def)

section \<open>Every operation keeps worlds well formed\<close>

lemma wf_open_write [keeps_wf]:
  assumes wf: "wf_world w"
  shows "wf_world (snd (fs_open_write app s d w))"
proof (cases "lookup_create w s")
  case (Inl e)
  then show ?thesis using wf by (simp add: fs_open_write_def)
next
  case (Inr p)
  have "placeable w p nd" if "write_node app c (now w) (node_at w p) = Inr nd" for c nd
    using lookup_create_result [OF wf Inr] that wf
    by (auto simp: write_node_def placeable_creatable split: option.splits node.splits
        intro: placeable_resolved_file)
  then show ?thesis
    using Inr wf by (auto simp: fs_open_write_def intro: wf_put split: option.splits sum.splits)
qed

lemma wf_mkdir [keeps_wf]: "wf_world w \<Longrightarrow> wf_world (snd (fs_mkdir s w))"
  by (auto simp: fs_mkdir_def placeable_def split: sum.splits option.splits
      intro!: wf_put dest: lookup_entry_parent)

lemma wf_create_dir_all [keeps_wf]:
  "wf_world w \<Longrightarrow> wf_world (snd (fs_create_dir_all s w))"
  by (rule create_dir_all_keeps) (rule wf_mkdir)

lemma wf_create_new [keeps_wf]: "wf_world w \<Longrightarrow> wf_world (snd (os_create_new d n w))"
  by (auto simp: os_create_new_def Let_def placeable_def split: option.splits intro!: wf_put)

lemma wf_rename [keeps_wf]:
  assumes wf: "wf_world w" and plain: "\<not> is_dir_node (node_at w t)"
  shows "wf_world (snd (os_rename t s w))"
proof -
  have "wf_world (put_node p nd (del_node t w))"
    if "lookup_entry w s = Inr p" and "\<not> is_dir_node (node_at w p)" for p nd
  proof (rule wf_put [OF wf_del [OF wf plain]])
    from lookup_entry_parent [OF that(1)] have "butlast p \<noteq> t"
      using plain by auto
    with lookup_entry_parent [OF that(1)] that(2)
    show "placeable (del_node t w) p nd" by (auto simp: placeable_def)
  qed
  then show ?thesis
    using wf by (auto simp: os_rename_def split: sum.splits option.splits)
qed

lemma wf_write_all [keeps_wf]:
  assumes wf: "wf_world w"
  shows "wf_world (snd (file_write_all p d w))"
proof -
  have "placeable w p (FileN c m)" if "node_at w p = Some (FileN c' m')" for c c' m m'
    using that wf_parent [OF wf] wf_root [OF wf] by (auto simp: placeable_def)
  then show ?thesis
    using wf by (auto simp: file_write_all_def Let_def intro: wf_put split: option.splits node.splits)
qed

lemma wf_remove [keeps_wf]: "wf_world w \<Longrightarrow> wf_world (snd (fs_remove_file s w))"
  by (auto simp: fs_remove_file_def split: sum.splits option.splits node.splits intro!: wf_del)

section \<open>Resolution does not read the environment\<close>

lemma walk_cong:
  "fs_nodes v = fs_nodes w \<Longrightarrow> fs_faults v = fs_faults w \<Longrightarrow>
    walk v mk n cur ns = walk w mk n cur ns"
proof (induction w mk n cur ns rule: walk.induct)
  case (1 w mk n cur)
  then show ?case by simp
next
  case (2 w mk n cur c cs)
  show ?case
  proof (cases "is_dir_node (node_at w cur) \<and> fs_faults w OpLookup cur = None")
    case True
    then have d: "node_at w cur \<noteq> None" "\<not> \<not> is_dir_node (node_at w cur)"
        "fs_faults w OpLookup cur = None"
      by (auto elim: is_dir_nodeE)
    then obtain nc where nc: "node_at w cur = Some nc" by blast
    note here = d nc "2.prems"
    consider (dot) "c = ''.''" | (up) "c \<noteq> ''.''" "c = ''..''"
      | (name) "c \<noteq> ''.''" "c \<noteq> ''..''" by blast
    then show ?thesis
    proof cases
      case dot
      from "2.IH"(1) [OF d dot "2.prems"] here dot show ?thesis by simp
    next
      case up
      from "2.IH"(2) [OF d up "2.prems"] here up show ?thesis by simp
    next
      case name
      show ?thesis
      proof (cases "node_at w (cur @ [c])")
        case None
        with here name show ?thesis by simp
      next
        case (Some nd)
        show ?thesis
        proof (cases nd)
          case (LinkN t m)
          note nd = Some [unfolded LinkN]
          show ?thesis
          proof (cases n)
            case 0
            with here name nd show ?thesis by simp
          next
            case (Suc k)
            from "2.IH"(6) [OF d name Some LinkN Suc "2.prems"] here name nd Suc
            show ?thesis by simp
          qed
        qed (use here name Some "2.IH"(3,4,5) [OF d name Some _ "2.prems"] in simp_all)
      qed
    qed
  next
    case False
    then show ?thesis using "2.prems" by (auto split: option.splits)
  qed
qed

lemma lookup_env [simp]: "lookup (w\<lparr>env_vars := e\<rparr>) s = lookup w s"
  by (simp add: lookup_def start_dir_def walk_cong [of "w\<lparr>env_vars := e\<rparr>" w])

lemma path_is_dir_env [simp]: "path_is_dir (w\<lparr>env_vars := e\<rparr>) s = path_is_dir w s"
  by (auto simp: path_is_dir_def fs_metadata_def split: sum.splits option.splits)

section \<open>Reading back what was written\<close>

text \<open>
  A path that was resolved for creation resolves to the same place once a plain file is there.
\<close>

definition plain :: "node option \<Rightarrow> bool" where
  "plain nd \<longleftrightarrow> \<not> is_dir_node nd \<and> \<not> is_link_node nd"

lemma walk_after_put:
  "plain (node_at w p) \<Longrightarrow> plain (Some nd) \<Longrightarrow> fs_nodes v = AList.update p nd (fs_nodes w) \<Longrightarrow>
    fs_faults v = fs_faults w \<Longrightarrow> walk w True n cur ns = Inr p \<Longrightarrow> walk v False n cur ns = Inr p"
proof (induction w True n cur ns rule: walk.induct)
  case (1 w n cur)
  then show ?case by simp
next
  case (2 w n cur c cs)
  note prems = "2.prems"(1-4)
  have dir: "is_dir_node (node_at w cur)" using "2.prems"(5) by (auto split: if_splits)
  then obtain nc where nc: "node_at w cur = Some nc" by (auto elim: is_dir_nodeE)
  have nf: "fs_faults w OpLookup cur = None"
    using "2.prems"(5) dir nc by (auto split: option.splits)
  have d: "node_at w cur \<noteq> None" "\<not> \<not> is_dir_node (node_at w cur)" using dir nc by simp_all
  have ne: "cur \<noteq> p" using dir "2.prems"(1) by (auto simp: plain_def)
  have at: "node_at v q = (if q = p then Some nd else node_at w q)" for q
    using "2.prems"(3) by simp
  have here: "node_at v cur = Some nc" "is_dir_node (Some nc)" "fs_faults v OpLookup cur = None"
    using at [of cur] ne nc dir nf "2.prems"(4) by simp_all
  note now = d nc nf
  consider (dot) "c = ''.''" | (up) "c \<noteq> ''.''" "c = ''..''"
    | (name) "c \<noteq> ''.''" "c \<noteq> ''..''" by blast
  then show ?case
  proof cases
    case dot
    from "2.hyps"(1) [OF d nf dot prems] now here dot "2.prems"(5) show ?thesis by simp
  next
    case up
    from "2.hyps"(2) [OF d nf up prems] now here up "2.prems"(5) show ?thesis by simp
  next
    case name
    show ?thesis
    proof (cases "cur @ [c] = p")
      case True
      have "cs = []"
      proof (rule ccontr)
        assume "cs \<noteq> []"
        then obtain c' cs' where "cs = c' # cs'" by (cases cs) auto
        with "2.prems"(5) now name True "2.prems"(1) show False
          by (auto simp: plain_def split: option.splits node.splits if_splits)
      qed
      then show ?thesis
        using True at [of p] here name "2.prems"(2) by (cases nd) (simp_all add: plain_def)
    next
      case False
      show ?thesis
      proof (cases "node_at w (cur @ [c])")
        case None
        with "2.prems"(5) now name False show ?thesis by (auto split: if_splits)
      next
        case (Some nx)
        have nx: "node_at v (cur @ [c]) = Some nx" using at False Some by simp
        show ?thesis
        proof (cases nx)
          case (LinkN t m)
          obtain k where k: "n = Suc k"
            using "2.prems"(5) now name Some LinkN by (cases n) simp_all
          from "2.hyps"(6) [OF d nf name Some LinkN k prems] now here name Some nx LinkN k "2.prems"(5)
          show ?thesis by simp
        qed (use now here name Some nx "2.prems"(5) "2.hyps"(3,4,5) [OF d nf name Some _ prems]
             in simp_all)
      qed
    qed
  qed
qed

text \<open>What resolves resolves for creation, to the same place.\<close>

lemma walk_creating: "walk w False n cur ns = Inr p \<Longrightarrow> walk w True n cur ns = Inr p"
proof (induction w False n cur ns rule: walk.induct)
  case (1 w n cur)
  then show ?case by simp
next
  case (2 w n cur c cs)
  have dir: "is_dir_node (node_at w cur)" using "2.prems" by (auto split: if_splits)
  then obtain nc where nc: "node_at w cur = Some nc" by (auto elim: is_dir_nodeE)
  have nf: "fs_faults w OpLookup cur = None" using "2.prems" dir nc by (auto split: option.splits)
  have d: "node_at w cur \<noteq> None" "\<not> \<not> is_dir_node (node_at w cur)" using dir nc by simp_all
  note here = d nc nf
  consider (dot) "c = ''.''" | (up) "c \<noteq> ''.''" "c = ''..''"
    | (name) "c \<noteq> ''.''" "c \<noteq> ''..''" by blast
  then show ?case
  proof cases
    case dot
    from "2.hyps"(1) [OF d nf dot] here dot "2.prems" show ?thesis by simp
  next
    case up
    from "2.hyps"(2) [OF d nf up] here up "2.prems" show ?thesis by simp
  next
    case name
    then obtain nd where nd: "node_at w (cur @ [c]) = Some nd"
      using "2.prems" here by (auto split: option.splits)
    show ?thesis
    proof (cases nd)
      case (LinkN t m)
      obtain k where k: "n = Suc k" using "2.prems" here name nd LinkN by (cases n) simp_all
      from "2.hyps"(6) [OF d nf name nd LinkN k] here name nd LinkN k "2.prems" show ?thesis by simp
    qed (use here name nd "2.prems" "2.hyps"(3,4,5) [OF d nf name nd] in simp_all)
  qed
qed

lemma plain_simps [simp]:
  "plain None" "plain (Some (FileN d m))" "plain (Some (PseudoN d m))"
  "\<not> plain (Some (DirN k m))" "\<not> plain (Some (LinkN t m))"
  by (simp_all add: plain_def)

text \<open>What a successful write did, and that it can be read back.\<close>

definition written :: "string \<Rightarrow> bytes \<Rightarrow> world \<Rightarrow> world \<Rightarrow> string list \<Rightarrow> bool" where
  "written s d w w' p \<longleftrightarrow>
     lookup_create w s = Inr p \<and> lookup w' s = Inr p \<and> plain (node_at w p)
     \<and> (case node_at w p of
          Some (PseudoN d0 m) \<Rightarrow> node_at w' p = Some (PseudoN d0 m)
        | _ \<Rightarrow> node_at w' p = Some (FileN d (Some (now w))))
     \<and> (\<forall>q. q \<noteq> p \<longrightarrow> node_at w' q = node_at w q)"

lemma fs_write_written:
  assumes wf: "wf_world w" and run: "fs_write s d w = (Inr u, w')"
  shows "\<exists>p. written s d w w' p \<and> same_machine w w'"
proof -
  from run obtain p nd where l: "lookup_create w s = Inr p"
    and wn: "write_node False d (now w) (node_at w p) = Inr nd"
    and w': "w' = put_node p nd (tick w)"
    by (auto simp: fs_write_def fs_open_write_def write_result_cases split: sum.splits option.splits)
  from lookup_create_result [OF wf l] wn have p: "plain (node_at w p)"
    by (auto simp: resolved_def creatable_def plain_def write_node_def split: option.splits node.splits)
  moreover have nd: "plain (Some nd)"
    using wn by (auto simp: write_node_def split: option.splits node.splits)
  moreover have "lookup w' s = Inr p"
    using l walk_after_put [OF p nd, of w'] w'
    by (auto simp: lookup_def lookup_create_def start_dir_def split: if_splits)
  ultimately show ?thesis
    using l wn w' by (auto simp: written_def write_node_def split: option.splits node.splits)
qed

end
