(* ===== verification/Config.thy ===== *)
theory Config
  imports Paths WorldFacts
begin

text \<open>
  \<^verbatim>\<open>membrane-daemon/src/config.rs\<close>: the policy modes and their checks, the configuration, its
  loading, merging and saving.  The \<^verbatim>\<open>toml\<close> crate is a parameter: \<open>dep_toml_parse\<close> reads a
  configuration off a text (absent fields take their defaults inside it) and
  \<open>dep_toml_print\<close> prints one; both may fail with an error text.
\<close>

section \<open>Data\<close>

definition DEFAULT_ENDPOINT :: string where
  "DEFAULT_ENDPOINT = ''https://cloud.membrane.example.com:443''"

definition DEFAULT_EXEC_TIMEOUT_MS :: u32 where
  "DEFAULT_EXEC_TIMEOUT_MS = 60000"

definition MAX_EXEC_TIMEOUT_MS :: u32 where
  "MAX_EXEC_TIMEOUT_MS = 600000"

definition DEFAULT_MAX_OUTPUT :: u64 where
  "DEFAULT_MAX_OUTPUT = push_bit 20 1"

definition DEFAULT_MAX_READ :: u64 where
  "DEFAULT_MAX_READ = push_bit 20 16"

datatype PolicyMode =
    Unrestricted
  | Workspace "string list"
  | WorkspaceAllowlistExec "string list" "string list"
  | ReadOnly "string list"

record Config =
  endpoint :: string
  policy :: PolicyMode
  max_exec_timeout_ms :: u32
  max_output_bytes :: u64
  max_read_bytes :: u64

definition default_config :: Config where
  "default_config =
     \<lparr>endpoint = DEFAULT_ENDPOINT, policy = Unrestricted,
      max_exec_timeout_ms = DEFAULT_EXEC_TIMEOUT_MS,
      max_output_bytes = DEFAULT_MAX_OUTPUT, max_read_bytes = DEFAULT_MAX_READ\<rparr>"

record config_deps = paths_deps +
  dep_toml_parse :: "string \<Rightarrow> string + Config"
  dep_toml_print :: "Config \<Rightarrow> string + string"

section \<open>Policy checks\<close>

fun roots :: "PolicyMode \<Rightarrow> string list option" where
  "roots Unrestricted = None"
| "roots (Workspace rs) = Some rs"
| "roots (WorkspaceAllowlistExec rs _) = Some rs"
| "roots (ReadOnly rs) = Some rs"

definition path_allowed :: "world \<Rightarrow> PolicyMode \<Rightarrow> string \<Rightarrow> bool" where
  "path_allowed w pol path =
     (case roots pol of
        None \<Rightarrow> True
      | Some rs \<Rightarrow>
          (let canon = unwrap_or (canonicalize w path) path in
           list_ex (\<lambda>r. let rc = unwrap_or (canonicalize w r) r in path_starts_with canon rc) rs))"

fun writes_allowed :: "PolicyMode \<Rightarrow> bool" where
  "writes_allowed (ReadOnly _) = False"
| "writes_allowed _ = True"

definition exec_bin :: "string \<Rightarrow> string" where
  "exec_bin cmd = (case split_whitespace cmd of [] \<Rightarrow> [] | b # _ \<Rightarrow> b)"

fun exec_allowed :: "PolicyMode \<Rightarrow> string \<Rightarrow> bool" where
  "exec_allowed (ReadOnly _) cmd = False"
| "exec_allowed Unrestricted cmd = True"
| "exec_allowed (Workspace _) cmd = True"
| "exec_allowed (WorkspaceAllowlistExec _ exec_allowlist) cmd =
     (let bin = exec_bin cmd;
          basename = (case file_name bin of Some n \<Rightarrow> n | None \<Rightarrow> bin)
      in list_ex (\<lambda>a. a = bin \<or> a = basename
           \<or> (case file_name a of Some n \<Rightarrow> n = basename | None \<Rightarrow> False)) exec_allowlist)"

fun policy_name :: "PolicyMode \<Rightarrow> string" where
  "policy_name Unrestricted = ''Unrestricted''"
| "policy_name (Workspace _) = ''Workspace''"
| "policy_name (WorkspaceAllowlistExec _ _) = ''WorkspaceAllowlistExec''"
| "policy_name (ReadOnly _) = ''ReadOnly''"

section \<open>Loading and saving\<close>

definition read_optional :: "'z config_deps_scheme \<Rightarrow> world \<Rightarrow> string \<Rightarrow> string + Config option" where
  "read_optional x w path =
     (if \<not> path_exists w path then Inr None
      else (case fs_read_to_string w path of
              Inl e \<Rightarrow> Inl (io_to_string e)
            | Inr text \<Rightarrow> (case dep_toml_parse x text of
                             Inl e \<Rightarrow> Inl e
                           | Inr cfg \<Rightarrow> Inr (Some cfg))))"

definition merge_into :: "Config \<Rightarrow> Config \<Rightarrow> Config" where
  "merge_into user system =
     (let defaults = default_config in
      \<lparr>endpoint = (if endpoint system \<noteq> endpoint defaults then endpoint system else endpoint user),
       policy = (if policy system \<noteq> policy defaults then policy system else policy user),
       max_exec_timeout_ms =
         (if max_exec_timeout_ms system \<noteq> max_exec_timeout_ms defaults
          then max_exec_timeout_ms system else max_exec_timeout_ms user),
       max_output_bytes =
         (if max_output_bytes system \<noteq> max_output_bytes defaults
          then max_output_bytes system else max_output_bytes user),
       max_read_bytes =
         (if max_read_bytes system \<noteq> max_read_bytes defaults
          then max_read_bytes system else max_read_bytes user)\<rparr>)"

definition load :: "'z config_deps_scheme \<Rightarrow> world \<Rightarrow> string + Config" where
  "load x w =
     (case read_optional x w (user_policy x (env_vars w)) of
        Inl e \<Rightarrow> Inl e
      | Inr user \<Rightarrow>
          (case read_optional x w (system_policy x) of
             Inl e \<Rightarrow> Inl e
           | Inr system \<Rightarrow>
               (let merged = (case (user, system) of
                        (None, None) \<Rightarrow> default_config
                      | (Some u, None) \<Rightarrow> u
                      | (None, Some s) \<Rightarrow> s
                      | (Some u, Some s) \<Rightarrow> merge_into u s)
                in Inr (if max_exec_timeout_ms merged > MAX_EXEC_TIMEOUT_MS
                        then merged\<lparr>max_exec_timeout_ms := MAX_EXEC_TIMEOUT_MS\<rparr>
                        else merged))))"

definition effective_exec_timeout_ms :: "Config \<Rightarrow> u32 \<Rightarrow> u32" where
  "effective_exec_timeout_ms cfg requested =
     (let req = (if requested = 0 then max_exec_timeout_ms cfg else requested)
      in min req (max_exec_timeout_ms cfg))"

definition save_user :: "'z config_deps_scheme \<Rightarrow> Config \<Rightarrow> world \<Rightarrow> (string + unit) \<times> world" where
  "save_user x cfg w =
     (let path = user_policy x (env_vars w);
          (made, w1) = (case path_parent path of
                          None \<Rightarrow> (Inr (), w)
                        | Some parent \<Rightarrow> fs_create_dir_all parent w)
      in case made of
           Inl e \<Rightarrow> (Inl (io_to_string e), w1)
         | Inr _ \<Rightarrow>
             (case dep_toml_print x cfg of
                Inl e \<Rightarrow> (Inl e, w1)
              | Inr toml \<Rightarrow>
                  (case fs_write path (as_bytes toml) w1 of
                     (Inl e, w2) \<Rightarrow> (Inl (io_to_string e), w2)
                   | (Inr _, w2) \<Rightarrow> (Inr (), w2))))"

section \<open>Which paths a policy confines\<close>

text \<open>A root as the check reads it: canonical where it resolves, as written otherwise.\<close>

definition root_text :: "world \<Rightarrow> string \<Rightarrow> string" where
  "root_text w r = unwrap_or (canonicalize w r) r"

text \<open>The canonical path \<open>p\<close> lies under one of the policy's roots.\<close>

definition inside :: "world \<Rightarrow> PolicyMode \<Rightarrow> string list \<Rightarrow> bool" where
  "inside w pol p \<longleftrightarrow>
     (case roots pol of
        None \<Rightarrow> True
      | Some rs \<Rightarrow> list_ex (\<lambda>r. path_starts_with (render_abs p) (root_text w r)) rs)"

lemma canonicalize_ok:
  "lookup w s = Inr p \<Longrightarrow> fs_faults w OpRealpath p = None \<Longrightarrow> canonicalize w s = Inr (render_abs p)"
  by (simp add: canonicalize_def)

text \<open>
  On a path that resolves, the check is a check of the canonical path: symbolic links and
  \<open>..\<close> are gone before the roots are compared.
\<close>

lemma path_allowed_resolved:
  "lookup w s = Inr p \<Longrightarrow> fs_faults w OpRealpath p = None \<Longrightarrow>
    path_allowed w pol s \<longleftrightarrow> inside w pol p"
  by (simp add: path_allowed_def inside_def root_text_def canonicalize_ok Let_def split: option.splits)

lemma root_text_resolved:
  "lookup w r = Inr q \<Longrightarrow> fs_faults w OpRealpath q = None \<Longrightarrow> root_text w r = render_abs q"
  by (simp add: root_text_def canonicalize_ok)

lemma inside_resolved_root:
  assumes wf: "wf_world w" and r: "lookup w r = Inr q" "fs_faults w OpRealpath q = None"
    and p: "node_at w p \<noteq> None"
  shows "path_starts_with (render_abs p) (root_text w r) \<longleftrightarrow> prefix q p"
  using starts_with_render_abs [OF wf_names [OF wf p] lookup_names [OF wf r(1)]]
  by (simp add: root_text_resolved [OF r])

text \<open>
  The meaning of confinement: the canonical path lies under the canonical path of a root, or,
  for a root that does not resolve, under the root's text.
\<close>

definition under_roots :: "world \<Rightarrow> PolicyMode \<Rightarrow> string list \<Rightarrow> bool" where
  "under_roots w pol p \<longleftrightarrow>
     (case roots pol of
        None \<Rightarrow> True
      | Some rs \<Rightarrow> list_ex (\<lambda>r. case lookup w r of
            Inr q \<Rightarrow> prefix q p
          | Inl _ \<Rightarrow> path_starts_with (render_abs p) r) rs)"

definition realpath_reliable :: "world \<Rightarrow> bool" where
  "realpath_reliable w \<longleftrightarrow> (\<forall>p. fs_faults w OpRealpath p = None)"

lemma canonicalize_fail: "lookup w s = Inl e \<Longrightarrow> canonicalize w s = Inl e"
  by (simp add: canonicalize_def)

lemma inside_under_roots:
  assumes wf: "wf_world w" and rp: "realpath_reliable w" and p: "node_at w p \<noteq> None"
  shows "inside w pol p \<longleftrightarrow> under_roots w pol p"
proof (cases "roots pol")
  case None
  then show ?thesis by (simp add: inside_def under_roots_def)
next
  case (Some rs)
  have "path_starts_with (render_abs p) (root_text w r) =
      (case lookup w r of Inr q \<Rightarrow> prefix q p | Inl _ \<Rightarrow> path_starts_with (render_abs p) r)" for r
  proof (cases "lookup w r")
    case (Inl e)
    then show ?thesis by (simp add: root_text_def canonicalize_fail)
  next
    case (Inr q)
    then show ?thesis
      using inside_resolved_root [OF wf Inr _ p] rp by (simp add: realpath_reliable_def)
  qed
  with Some show ?thesis by (simp add: inside_def under_roots_def)
qed

lemma path_allowed_under_roots:
  assumes "wf_world w" and "realpath_reliable w" and "lookup w s = Inr p"
  shows "path_allowed w pol s \<longleftrightarrow> under_roots w pol p"
  using assms path_allowed_resolved [of w s p pol] inside_under_roots [of w p pol]
    lookup_resolved [of w s p]
  by (simp add: realpath_reliable_def resolved_def)

end
