(* ===== verification/AuditLog.thy ===== *)
theory AuditLog
  imports Config
begin

text \<open>
  \<^verbatim>\<open>membrane-daemon/src/audit.rs\<close>: events, entries and the appending of one line to the day's
  log file.  \<^verbatim>\<open>serde_json\<close> and \<^verbatim>\<open>chrono\<close>'s formatting are parameters: \<open>dep_json_entry\<close>
  prints an entry and \<open>dep_day\<close> formats the day of a time.
\<close>

datatype OpResult =
    OpOk
  | OpDenied (reason: string)
  | OpError (message: string)

datatype Event =
    EvRead (ev_path: string) (ev_bytes: u64) (ev_result: OpResult)
  | EvWrite (ev_path: string) (ev_bytes: u64) (ev_mtime_check: bool) (ev_result: OpResult)
  | EvList (ev_path: string) (ev_entries: u64) (ev_result: OpResult)
  | EvExec (ev_cmd: string) (ev_exit_code: "i32 option") (ev_duration_ms: u32)
      (ev_timed_out: bool) (ev_output_truncated: bool) (ev_result: OpResult)
  | EvLifecycle (ev_event: string) (ev_detail: string)

record Entry =
  ts :: int
  mode :: string
  event :: Event

record Audit =
  mode_name :: string

record audit_deps = config_deps +
  dep_json_entry :: "Entry \<Rightarrow> string + string"
  dep_day :: "int \<Rightarrow> string"

definition audit_new :: "string \<Rightarrow> Audit" where
  "audit_new m = \<lparr>mode_name = m\<rparr>"

text \<open>
  \<^verbatim>\<open>append_line\<close>: \<^verbatim>\<open>writeln!\<close> on an unbuffered file writes the text and the line end as two
  separate appends.
\<close>

definition append_line :: "string \<Rightarrow> string \<Rightarrow> world \<Rightarrow> (io_error + unit) \<times> world" where
  "append_line path line w =
     (case fs_append path (as_bytes line) w of
        (Inl e, w1) \<Rightarrow> (Inl e, w1)
      | (Inr _, w1) \<Rightarrow> fs_append path (as_bytes [CHR 0x0A]) w1)"

definition audit_write :: "'z audit_deps_scheme \<Rightarrow> Audit \<Rightarrow> Event \<Rightarrow> world \<Rightarrow> (io_error + unit) \<times> world" where
  "audit_write x a ev w =
     (let (t, w1) = utc_now w;
          entry = \<lparr>ts = t, mode = mode_name a, event = ev\<rparr>
      in case dep_json_entry x entry of
           Inl e \<Rightarrow> (Inl (IoErr EkOther e), w1)
         | Inr line \<Rightarrow>
             (let path = audit_log_for x (env_vars w1) (dep_day x t);
                  (made, w2) = (case path_parent path of
                                  None \<Rightarrow> (Inr (), w1)
                                | Some parent \<Rightarrow> fs_create_dir_all parent w1)
              in case made of
                   Inl e \<Rightarrow> (Inl e, w2)
                 | Inr _ \<Rightarrow> append_line path line w2))"

text \<open>\<^verbatim>\<open>let _ = audit.write(..)\<close>: the handlers drop the result.\<close>

definition audit_log :: "'z audit_deps_scheme \<Rightarrow> Audit \<Rightarrow> Event \<Rightarrow> world \<Rightarrow> world" where
  "audit_log x a ev w = snd (audit_write x a ev w)"

section \<open>The log only grows the file system\<close>

text \<open>
  Nothing disappears, and what exists keeps its content except that regular files may have
  been extended at their end.
\<close>

definition grows :: "world \<Rightarrow> world \<Rightarrow> bool" where
  "grows w w' \<longleftrightarrow>
     (\<forall>p nd. node_at w p = Some nd \<longrightarrow>
        node_at w' p = Some nd
        \<or> (\<exists>d m d' m'. nd = FileN d m \<and> node_at w' p = Some (FileN (d @ d') m')))"

lemma grows_refl [simp, intro]: "grows w w"
  by (simp add: grows_def)

lemma grows_trans:
  assumes "grows w w'" and "grows w' w''"
  shows "grows w w''"
  unfolding grows_def
proof (intro allI impI)
  fix p nd assume "node_at w p = Some nd"
  with assms(1) consider "node_at w' p = Some nd"
    | d m d' m' where "nd = FileN d m" "node_at w' p = Some (FileN (d @ d') m')"
    unfolding grows_def by blast
  then show "node_at w'' p = Some nd
      \<or> (\<exists>d m d' m'. nd = FileN d m \<and> node_at w'' p = Some (FileN (d @ d') m'))"
  proof cases
    case 1
    with assms(2) show ?thesis unfolding grows_def by blast
  next
    case 2
    from assms(2) 2(2) have "node_at w'' p = Some (FileN (d @ d') m')
        \<or> (\<exists>e m''. node_at w'' p = Some (FileN (d @ d' @ e) m''))"
      unfolding grows_def by fastforce
    with 2(1) show ?thesis by blast
  qed
qed

lemma grows_tick [simp]: "grows w (tick w') = grows w w'"
  by (simp add: grows_def)

lemma grows_put_new: "node_at w p = None \<Longrightarrow> grows w (put_node p nd w)"
  by (simp add: grows_def)

lemma grows_append [frame]: "grows w (snd (fs_append s d w))"
  by (auto simp: fs_append_def fs_open_write_def write_node_def grows_def
      split: sum.splits option.splits node.splits)

lemma grows_mkdir [frame]: "grows w (snd (fs_mkdir s w))"
  by (auto simp: fs_mkdir_def grows_def split: sum.splits option.splits)

lemma grows_create_dir_all [frame]: "grows w (snd (fs_create_dir_all s w))"
  by (rule create_dir_all_keeps [where P = "grows w"]) (auto intro: grows_trans grows_mkdir)

text \<open>
  A property that every step of the log keeps, the log keeps: used for frames, growth and
  well-formedness.
\<close>

lemma append_line_keeps:
  assumes app: "\<And>v s d. P v \<Longrightarrow> P (snd (fs_append s d v))" and P: "P w"
  shows "P (snd (append_line path line w))"
  using app [OF P, of path "as_bytes line"] app
  by (auto simp: append_line_def split: prod.splits sum.splits)

lemma audit_write_keeps:
  assumes app: "\<And>v s d. P v \<Longrightarrow> P (snd (fs_append s d v))"
    and mk: "\<And>v s. P v \<Longrightarrow> P (snd (fs_mkdir s v))"
    and tk: "\<And>v. P v \<Longrightarrow> P (tick v)" and P: "P w"
  shows "P (snd (audit_write x a ev w))"
proof -
  have mkall: "P (snd (fs_create_dir_all s v))" if "P v" for s v
    using mk that by (rule create_dir_all_keeps)
  have line: "P (snd (append_line s l v))" if "P v" for s l v
    using app that by (rule append_line_keeps)
  let ?w1 = "tick w"
  have P1: "P ?w1" using tk P .
  show ?thesis
    using P1 mkall [OF P1] line
    by (auto simp: audit_write_def utc_now_def Let_def split: sum.splits option.splits prod.splits)
      (metis snd_conv)+
qed

lemma grows_audit_log [frame]: "grows w (audit_log x a ev w)"
  unfolding audit_log_def
  by (rule audit_write_keeps [where P = "grows w"])
    (auto intro: grows_trans grows_append grows_mkdir)

lemma same_machine_audit_log [frame]: "same_machine w (audit_log x a ev w)"
  unfolding audit_log_def
  by (rule audit_write_keeps [where P = "same_machine w"])
    (auto intro: same_machine_trans same_machine_mkdir same_machine_open_write simp: fs_append_def)

lemma wf_audit_log [keeps_wf]: "wf_world w \<Longrightarrow> wf_world (audit_log x a ev w)"
  unfolding audit_log_def
  by (rule audit_write_keeps [where P = wf_world]) (auto intro: keeps_wf simp: fs_append_def)

end
