(* ===== verification/TempFile.thy ===== *)
theory TempFile
  imports AuditLog
begin

text \<open>
  Replacing a file by way of a temporary one.  The \<^verbatim>\<open>tempfile\<close> crate is a parameter:
  \<^verbatim>\<open>NamedTempFile::new_in\<close>, \<^verbatim>\<open>persist\<close> and the removal when a handle is dropped.  Its
  documented behaviour is the predicate \<open>tempfile_ok\<close>.  \<open>replace_via_temp\<close> is the part
  \<^verbatim>\<open>write_file::atomic_write\<close> and \<^verbatim>\<open>pairing::write_atomic\<close> have in common; the locale
  \<open>atomic_replace\<close> states what their callers rely on.
\<close>

record tmp_deps = audit_deps +
  dep_tmp_new_in :: "string \<Rightarrow> world \<Rightarrow> (io_error + string list) \<times> world"
  dep_tmp_persist :: "string list \<Rightarrow> string \<Rightarrow> world \<Rightarrow> (io_error + unit) \<times> world"
  dep_tmp_drop :: "string list \<Rightarrow> world \<Rightarrow> world"

text \<open>
  Documented behaviour: a new temporary file is a fresh, exclusively created file in the
  given directory (the current one for the empty path); persisting renames it; a failure of
  either changes nothing; dropping the handle removes the file, or leaves it if that fails.  Should
  a directory have taken the name of the file in the meantime, dropping the handle leaves it, and
  of persisting nothing is assumed but that the file system stays one.
\<close>

definition new_in_ok :: "'z tmp_deps_scheme \<Rightarrow> string \<Rightarrow> world \<Rightarrow> bool" where
  "new_in_ok x d w \<longleftrightarrow>
     (case dep_tmp_new_in x d w of
        (Inl e, w') \<Rightarrow> w' = w
      | (Inr t, w') \<Rightarrow> (\<exists>q n. lookup w (if d = [] then ''.'' else d) = Inr q
                                \<and> os_create_new q n w = (Inr t, w')))"

definition persist_ok :: "'z tmp_deps_scheme \<Rightarrow> string list \<Rightarrow> string \<Rightarrow> world \<Rightarrow> bool" where
  "persist_ok x t s w \<longleftrightarrow>
     (case dep_tmp_persist x t s w of
        (Inl e, w') \<Rightarrow> w' = w
      | (Inr _, w') \<Rightarrow>
          if is_dir_node (node_at w t) then wf_world w \<longrightarrow> wf_world w'
          else os_rename t s w = (Inr (), w'))"

definition drop_ok :: "'z tmp_deps_scheme \<Rightarrow> string list \<Rightarrow> world \<Rightarrow> bool" where
  "drop_ok x t w \<longleftrightarrow>
     dep_tmp_drop x t w = w \<or> (\<not> is_dir_node (node_at w t) \<and> dep_tmp_drop x t w = del_node t w)"

definition tempfile_ok :: "'z tmp_deps_scheme \<Rightarrow> bool" where
  "tempfile_ok x \<longleftrightarrow>
     (\<forall>d w. new_in_ok x d w) \<and> (\<forall>t s w. persist_ok x t s w) \<and> (\<forall>t w. drop_ok x t w)"

text \<open>A crate that behaves as documented, for the witnesses: the name is fixed.\<close>

definition simple_new_in :: "string \<Rightarrow> world \<Rightarrow> (io_error + string list) \<times> world" where
  "simple_new_in d w =
     (case lookup w (if d = [] then ''.'' else d) of
        Inl e \<Rightarrow> (Inl e, w)
      | Inr q \<Rightarrow> os_create_new q ''.tmp0'' w)"

definition simple_persist :: "string list \<Rightarrow> string \<Rightarrow> world \<Rightarrow> (io_error + unit) \<times> world" where
  "simple_persist t s w =
     (if is_dir_node (node_at w t) then (Inl (os_err EkIsADirectory), w) else os_rename t s w)"

definition simple_drop :: "string list \<Rightarrow> world \<Rightarrow> world" where
  "simple_drop t w = (if is_dir_node (node_at w t) then w else del_node t w)"

lemma os_create_new_fail: "os_create_new q n w = (Inl e, w') \<Longrightarrow> w' = w"
  by (auto simp: os_create_new_def Let_def split: if_splits option.splits)

lemma os_rename_fail: "os_rename t s w = (Inl e, w') \<Longrightarrow> w' = w"
  by (auto simp: os_rename_def split: if_splits option.splits sum.splits)

lemma tempfile_ok_simple:
  assumes "dep_tmp_new_in x = simple_new_in" and "dep_tmp_persist x = simple_persist"
    and "dep_tmp_drop x = simple_drop"
  shows "tempfile_ok x"
  unfolding tempfile_ok_def new_in_ok_def persist_ok_def drop_ok_def assms
  by (auto simp: simple_new_in_def simple_persist_def simple_drop_def split: prod.splits sum.splits
      dest: os_create_new_fail os_rename_fail)

section \<open>The replacement\<close>

definition replace_via_temp ::
    "'z tmp_deps_scheme \<Rightarrow> string \<Rightarrow> string \<Rightarrow> bytes \<Rightarrow> world \<Rightarrow> (io_error + unit) \<times> world" where
  "replace_via_temp x dir path data w =
     (case dep_tmp_new_in x dir w of
        (Inl e, w1) \<Rightarrow> (Inl e, w1)
      | (Inr t, w1) \<Rightarrow>
          (case file_write_all t data w1 of
             (Inl e, w2) \<Rightarrow> (Inl e, dep_tmp_drop x t w2)
           | (Inr _, w2) \<Rightarrow>
               (case file_sync_all t w2 of
                  Inl e \<Rightarrow> (Inl e, dep_tmp_drop x t w2)
                | Inr _ \<Rightarrow>
                    (case dep_tmp_persist x t path w2 of
                       (Inl e, w3) \<Rightarrow> (Inl e, dep_tmp_drop x t w3)
                     | (Inr _, w3) \<Rightarrow> (Inr (), w3)))))"

text \<open>Existing nodes are untouched.\<close>

definition keeps_nodes :: "world \<Rightarrow> world \<Rightarrow> bool" where
  "keeps_nodes w w' \<longleftrightarrow> (\<forall>p nd. node_at w p = Some nd \<longrightarrow> node_at w' p = Some nd)"

lemma keeps_nodes_refl [simp, intro]: "keeps_nodes w w"
  by (simp add: keeps_nodes_def)

lemma keeps_nodes_trans: "keeps_nodes w w' \<Longrightarrow> keeps_nodes w' w'' \<Longrightarrow> keeps_nodes w w''"
  by (simp add: keeps_nodes_def)

lemma keeps_nodes_grows: "keeps_nodes w w' \<Longrightarrow> grows w w'"
  by (simp add: keeps_nodes_def grows_def)

lemma keeps_nodes_mkdir: "keeps_nodes w (snd (fs_mkdir s w))"
  by (auto simp: fs_mkdir_def keeps_nodes_def split: sum.splits option.splits)

lemma keeps_nodes_create_dir_all: "keeps_nodes w (snd (fs_create_dir_all s w))"
  by (rule create_dir_all_keeps [where P = "keeps_nodes w"])
    (auto intro: keeps_nodes_trans keeps_nodes_mkdir)

text \<open>
  What an atomic replacement did: \<open>data\<close> is the whole content of the directory entry the path
  names, and every other existing node is untouched.  \<open>v\<close> is the world in which the path was
  resolved, after missing parent directories were made.
\<close>

definition replaced :: "string \<Rightarrow> bytes \<Rightarrow> world \<Rightarrow> world \<Rightarrow> string list \<Rightarrow> bool" where
  "replaced path data w w' q \<longleftrightarrow>
     (\<exists>v m. keeps_nodes w v \<and> same_machine w v \<and> lookup_entry v path = Inr q
        \<and> node_at w' q = Some (FileN data m)
        \<and> (\<forall>p nd. p \<noteq> q \<longrightarrow> node_at w p = Some nd \<longrightarrow> node_at w' p = Some nd))"

lemma tmp_new_in_cases:
  assumes "tempfile_ok x" and "dep_tmp_new_in x d w = (r, w1)"
  shows "(\<exists>e. r = Inl e \<and> w1 = w) \<or>
    (\<exists>t q n. r = Inr t \<and> os_create_new q n w = (Inr t, w1))"
proof -
  have "new_in_ok x d w" using assms(1) unfolding tempfile_ok_def by blast
  with assms(2) show ?thesis by (cases r) (auto simp: new_in_ok_def)
qed

lemma tmp_persist_cases:
  assumes "tempfile_ok x" and "dep_tmp_persist x t s w = (r, w1)" and "\<not> is_dir_node (node_at w t)"
  shows "(\<exists>e. r = Inl e \<and> w1 = w) \<or> (r = Inr () \<and> os_rename t s w = (Inr (), w1))"
proof -
  have "persist_ok x t s w" using assms(1) unfolding tempfile_ok_def by blast
  with assms(2,3) show ?thesis by (cases r) (auto simp: persist_ok_def)
qed

lemma tmp_drop_cases:
  "tempfile_ok x \<Longrightarrow> dep_tmp_drop x t w = w \<or> (\<not> is_dir_node (node_at w t) \<and> dep_tmp_drop x t w = del_node t w)"
  unfolding tempfile_ok_def drop_ok_def by blast

lemma os_create_new_ok:
  "os_create_new q n w = (Inr t, w1) \<Longrightarrow>
    t = q @ [n] \<and> node_at w t = None \<and> is_dir_node (node_at w q) \<and> valid_name n
    \<and> w1 = put_node t (FileN [] (Some (now w))) (tick w)"
  by (auto simp: os_create_new_def Let_def split: if_splits option.splits)

lemma os_rename_ok:
  "os_rename t s w = (Inr u, w1) \<Longrightarrow>
    \<exists>p nd. lookup_entry w s = Inr p \<and> \<not> is_dir_node (node_at w p) \<and> node_at w t = Some nd
      \<and> w1 = put_node p nd (del_node t w)"
  by (auto simp: os_rename_def split: if_splits option.splits sum.splits)

text \<open>
  The stages of a replacement: the temporary file exists and is empty, then holds the data, or
  the part of it that was written, and the rest of the file system is as it was.
\<close>

definition staged :: "world \<Rightarrow> string list \<Rightarrow> bytes \<Rightarrow> world \<Rightarrow> bool" where
  "staged w t d v \<longleftrightarrow>
     node_at w t = None \<and> same_machine w v \<and> (\<exists>m. node_at v t = Some (FileN d m))
     \<and> (\<forall>p. p \<noteq> t \<longrightarrow> node_at v p = node_at w p) \<and> (wf_world w \<longrightarrow> wf_world v)"

lemma staged_keeps: "staged w t d v \<Longrightarrow> keeps_nodes w v"
  unfolding staged_def keeps_nodes_def by (metis option.distinct(1))

lemma staged_keeps_del: "staged w t d v \<Longrightarrow> keeps_nodes w (del_node t v)"
  unfolding staged_def keeps_nodes_def by auto

lemma staged_new:
  assumes "os_create_new q n w = (Inr t, w1)"
  shows "staged w t [] w1"
  using os_create_new_ok [OF assms] wf_create_new [of w q n] assms
  by (auto simp: staged_def)

lemma staged_write:
  assumes st: "staged w t [] v" and "file_write_all t d v = (r, v')"
  shows "(\<exists>e c. r = Inl e \<and> staged w t c v') \<or> (r = Inr () \<and> staged w t d v')"
proof -
  from st obtain m where t: "node_at v t = Some (FileN [] m)" by (auto simp: staged_def)
  have "wf_world w \<longrightarrow> wf_world v'"
    using st wf_write_all [of v t d] assms(2) by (auto simp: staged_def)
  with assms t show ?thesis
    by (cases r) (auto simp: file_write_all_def Let_def staged_def write_result_cases)
qed

lemma staged_drop:
  assumes st: "staged w t d v" and ok: "tempfile_ok x"
  shows "keeps_nodes w (dep_tmp_drop x t v) \<and> same_machine w (dep_tmp_drop x t v)
    \<and> (wf_world w \<longrightarrow> wf_world (dep_tmp_drop x t v))"
proof -
  from st obtain m where t: "node_at v t = Some (FileN d m)" by (auto simp: staged_def)
  have "wf_world w \<longrightarrow> wf_world (del_node t v)"
    using st t wf_del [of v t] by (auto simp: staged_def)
  moreover have "same_machine w v" "wf_world w \<longrightarrow> wf_world v" using st by (auto simp: staged_def)
  ultimately show ?thesis
    using tmp_drop_cases [OF ok, of t v] staged_keeps [OF st] staged_keeps_del [OF st] by auto
qed

lemma staged_rename:
  assumes st: "staged w t d v" and rn: "os_rename t s v = (Inr u, v')"
  shows "(\<exists>q. replaced s d w v' q) \<and> same_machine w v' \<and> (wf_world w \<longrightarrow> wf_world v')"
proof -
  from st obtain m where t: "node_at v t = Some (FileN d m)" by (auto simp: staged_def)
  from os_rename_ok [OF rn] t obtain q where q: "lookup_entry v s = Inr q"
    and v': "v' = put_node q (FileN d m) (del_node t v)" by auto
  have others: "node_at v' p = Some nd" if "p \<noteq> q" "node_at w p = Some nd" for p nd
    using staged_keeps_del [OF st] that v' by (simp add: keeps_nodes_def)
  have "replaced s d w v' q"
    unfolding replaced_def using staged_keeps [OF st] st q v' others
    by (intro exI [of _ v] exI [of _ m]) (auto simp: staged_def)
  moreover have "wf_world w \<longrightarrow> wf_world v'"
    using st wf_rename [of v t s] rn t by (auto simp: staged_def)
  moreover have "same_machine w v'" using st v' by (simp add: staged_def)
  ultimately show ?thesis by blast
qed

lemma replace_via_temp_cases:
  assumes ok: "tempfile_ok x" and run: "replace_via_temp x dir path data w = (r, w')"
  shows "((\<exists>e. r = Inl e \<and> keeps_nodes w w') \<or> (r = Inr () \<and> (\<exists>q. replaced path data w w' q)))
    \<and> same_machine w w' \<and> (wf_world w \<longrightarrow> wf_world w')"
proof -
  obtain r1 w1 where n: "dep_tmp_new_in x dir w = (r1, w1)" by fastforce
  from tmp_new_in_cases [OF ok n] consider (fail) e where "r1 = Inl e" "w1 = w"
    | (made) t q nm where "r1 = Inr t" "os_create_new q nm w = (Inr t, w1)" by blast
  then show ?thesis
  proof cases
    case fail
    with run n show ?thesis by (auto simp: replace_via_temp_def)
  next
    case made
    note st1 = staged_new [OF made(2)]
    obtain r2 w2 where wr: "file_write_all t data w1 = (r2, w2)" by fastforce
    from staged_write [OF st1 wr] show ?thesis
    proof
      assume "\<exists>e c. r2 = Inl e \<and> staged w t c w2"
      then obtain e c where r2: "r2 = Inl e" and st2: "staged w t c w2" by blast
      show ?thesis
        using run n made(1) wr r2 staged_drop [OF st2 ok] by (auto simp: replace_via_temp_def)
    next
      assume "r2 = Inr () \<and> staged w t data w2"
      then have r2: "r2 = Inr ()" and st2: "staged w t data w2" by auto
      obtain r3 w3 where pe: "dep_tmp_persist x t path w2 = (r3, w3)" by fastforce
      show ?thesis
      proof (cases "file_sync_all t w2")
        case (Inl e)
        with run n made(1) wr r2 have "r = Inl e" and "w' = dep_tmp_drop x t w2"
          by (simp_all add: replace_via_temp_def)
        with staged_drop [OF st2 ok] show ?thesis by blast
      next
        case (Inr u)
        have "\<not> is_dir_node (node_at w2 t)" using st2 by (auto simp: staged_def)
        from tmp_persist_cases [OF ok pe this] show ?thesis
        proof
          assume "\<exists>e. r3 = Inl e \<and> w3 = w2"
          then show ?thesis
            using run n made(1) wr r2 Inr pe staged_drop [OF st2 ok]
            by (auto simp: replace_via_temp_def)
        next
          assume p: "r3 = Inr () \<and> os_rename t path w2 = (Inr (), w3)"
          then have "os_rename t path w2 = (Inr (), w3)" ..
          from staged_rename [OF st2 this] show ?thesis
            using p run n made(1) wr r2 Inr pe by (auto simp: replace_via_temp_def)
        qed
      qed
    qed
  qed
qed

section \<open>The contract of an atomic replacement\<close>

locale atomic_replace =
  fixes legal :: bool
    and op :: "string \<Rightarrow> bytes \<Rightarrow> world \<Rightarrow> (io_error + unit) \<times> world"
  assumes fail_keeps: "legal \<Longrightarrow> op s d w = (Inl e, w') \<Longrightarrow> keeps_nodes w w'"
    and ok_replaces: "legal \<Longrightarrow> op s d w = (Inr u, w') \<Longrightarrow> \<exists>q. replaced s d w w' q"
    and op_machine: "legal \<Longrightarrow> same_machine w (snd (op s d w))"
    and op_wf: "legal \<Longrightarrow> wf_world w \<Longrightarrow> wf_world (snd (op s d w))"
begin

text \<open>Whatever happens, an existing file is left whole: the old content or all of the new.\<close>

lemma untorn:
  assumes "legal" and "op s d w = (r, w')" and "node_at w p = Some (FileN old m)"
  shows "\<exists>m'. node_at w' p = Some (FileN old m) \<or> (is_ok r \<and> node_at w' p = Some (FileN d m'))"
proof (cases r)
  case (Inl e)
  with fail_keeps [OF assms(1)] assms(2,3) show ?thesis by (auto simp: keeps_nodes_def)
next
  case (Inr u)
  with ok_replaces [OF assms(1)] assms(2) obtain q where "replaced s d w w' q" by blast
  with assms(3) Inr show ?thesis by (cases "p = q") (auto simp: replaced_def)
qed

lemma nothing_vanishes:
  assumes "legal" and "op s d w = (r, w')" and "node_at w p = Some nd"
  shows "node_at w' p \<noteq> None"
proof (cases r)
  case (Inl e)
  with fail_keeps [OF assms(1)] assms(2,3) show ?thesis by (auto simp: keeps_nodes_def)
next
  case (Inr u)
  with ok_replaces [OF assms(1)] assms(2) obtain q where "replaced s d w w' q" by blast
  with assms(3) show ?thesis by (cases "p = q") (auto simp: replaced_def)
qed

end

end
