(* ===== verification/Samples.thy ===== *)
theory Samples
  imports TempFile
begin

text \<open>
  A small machine and a set of library functions that behave as documented, on which the
  theorems with hypotheses are applied.
\<close>

definition sample_nodes :: "(string list \<times> node) list" where
  "sample_nodes =
     [([], DirN 4096 None),
      ([''ws''], DirN 4096 None),
      ([''ws'', ''a''], FileN [104, 105] (Some 7)),
      ([''ws'', ''.hid''], FileN [] (Some 7)),
      ([''ws'', ''ln''], LinkN ''/etc'' (Some 7)),
      ([''ws'', ''sub''], DirN 4096 None),
      ([''etc''], DirN 4096 None),
      ([''etc'', ''pw''], FileN [1, 2, 3] (Some 7)),
      ([''etc'', ''back''], LinkN ''/ws/a'' (Some 7)),
      ([''ws'', ''proc''], PseudoN [9, 9, 9, 9] None)]"

definition sample_world :: world where
  "sample_world =
     \<lparr>fs_nodes = sample_nodes, fs_cwd = [], fs_faults = (\<lambda>op p. None), fs_partial = (\<lambda>p. 0),
      env_vars = (\<lambda>v. if v = ''HOME'' then Some ''/ws'' else if v = ''PATH'' then Some ''/bin''
                     else if v = ''SECRET'' then Some ''s'' else None),
      wall_clock = (\<lambda>n. 1000 + int n), ticks = 0\<rparr>"

definition sample_deps :: tmp_deps where
  "sample_deps =
     \<lparr>dep_platform = Linux, dep_config_dir = (\<lambda>env. Some ''/cfg''),
      dep_toml_parse = (\<lambda>t. Inr default_config), dep_toml_print = (\<lambda>c. Inr ''c''),
      dep_json_entry = (\<lambda>e. Inr ''e''), dep_day = (\<lambda>t. ''d''),
      dep_tmp_new_in = simple_new_in, dep_tmp_persist = simple_persist, dep_tmp_drop = simple_drop\<rparr>"

definition sample_config :: Config where
  "sample_config = default_config\<lparr>policy := Workspace [''/ws'']\<rparr>"

definition sample_audit :: Audit where
  "sample_audit = audit_new ''Workspace''"

lemma wf_sample [simp]: "wf_world sample_world"
  by (simp add: wf_world_def sample_nodes_def sample_world_def valid_name_def)

lemma reliable_sample [simp]: "realpath_reliable sample_world"
  by (simp add: realpath_reliable_def sample_world_def)

lemma tempfile_ok_sample [simp]: "tempfile_ok sample_deps"
  by (rule tempfile_ok_simple) (simp_all add: sample_deps_def)

section \<open>Evaluation on the sample machine\<close>

lemma sample_sel [simp]:
  "fs_cwd sample_world = []" "fs_faults sample_world = (\<lambda>op p. None)"
  "fs_partial sample_world = (\<lambda>p. 0)"
  "ticks sample_world = 0" "wall_clock sample_world = (\<lambda>n. 1000 + int n)"
  "fs_nodes sample_world = sample_nodes"
  "env_vars sample_world ''HOME'' = Some ''/ws''" "env_vars sample_world ''PATH'' = Some ''/bin''"
  by (simp_all add: sample_world_def)

lemma sample_deps_sel [simp]:
  "dep_config_dir sample_deps = (\<lambda>env. Some ''/cfg'')" "dep_platform sample_deps = Linux"
  "dep_json_entry sample_deps = (\<lambda>e. Inr ''e'')" "dep_day sample_deps = (\<lambda>t. ''d'')"
  "dep_tmp_new_in sample_deps = simple_new_in" "dep_tmp_persist sample_deps = simple_persist"
  "dep_tmp_drop sample_deps = simple_drop"
  "dep_toml_parse sample_deps = (\<lambda>t. Inr default_config)"
  by (simp_all add: sample_deps_def)

lemma sample_config_sel [simp]:
  "policy sample_config = Workspace [''/ws'']" "max_read_bytes sample_config = DEFAULT_MAX_READ"
  "max_exec_timeout_ms sample_config = DEFAULT_EXEC_TIMEOUT_MS"
  "max_output_bytes sample_config = DEFAULT_MAX_OUTPUT"
  by (simp_all add: sample_config_def default_config_def)

lemmas path_eval = os_names_def path_segments_def is_absolute_def valid_name_def Let_def
  components_def component_of_def render_abs_def join_names_def path_starts_with_def
  suffix_def

lemmas world_eval = path_eval walk.simps lookup_def lookup_create_def lookup_entry_def
  start_dir_def max_symlinks_def canonicalize_def fs_metadata_def path_exists_def path_is_dir_def
  sample_nodes_def now_def fs_read_def fs_read_dir_def children_def dir_entry_def
  entry_metadata_def path_allowed_def root_text_def under_roots_def roots.simps
  write_node_def os_rename_def os_create_new_def file_write_all_def file_sync_all_def
  simple_new_in_def simple_persist_def simple_drop_def path_parent_def

end
