(* ===== verification/Wire.thy ===== *)
theory Wire
  imports Prelude
begin

unbundle bit_operations_syntax

text \<open>
  \<^verbatim>\<open>membrane-wire/src/lib.rs\<close>: the request and response types and the length-prefixed
  framing.  \<^verbatim>\<open>bincode\<close> is a parameter: \<open>ser\<close> and \<open>de\<close> serialise and deserialise one message
  and may fail with an error text.
\<close>

section \<open>Messages\<close>

record ReadFileReq =
  rf_path :: string
  rf_max_bytes :: u64

record ReadFileResp =
  rf_data :: bytes
  rf_mtime_unix_ns :: i64
  rf_size_bytes :: u64

record WriteFileReq =
  wf_path :: string
  wf_data :: bytes
  wf_if_mtime_matches :: "i64 option"

record WriteFileResp =
  wf_mtime_unix_ns :: i64

record ListDirReq =
  ld_path :: string

record DirEntry =
  de_name :: string
  de_is_dir :: bool
  de_size_bytes :: u64

record ListDirResp =
  ld_entries :: "DirEntry list"

record ExecReq =
  ex_command :: string
  ex_timeout_ms :: u32
  ex_max_output_bytes :: u64

record ExecResp =
  ex_stdout :: bytes
  ex_stderr :: bytes
  ex_exit_code :: "i32 option"
  ex_duration_ms :: u32
  ex_timed_out :: bool
  ex_output_truncated :: bool

datatype DaemonError =
    PathNotAllowed string
  | NotFound string
  | PermissionDenied string
  | Io string
  | SizeLimitExceeded (requested: u64) (max_allowed: u64)
  | Timeout
  | MtimeMismatch (expected: i64) (actual: i64)
  | Other string

datatype Request =
    ReqReadFile ReadFileReq
  | ReqWriteFile WriteFileReq
  | ReqListDir ListDirReq
  | ReqExec ExecReq
  | ReqPing

datatype Response =
    RespReadFile "DaemonError + ReadFileResp"
  | RespWriteFile "DaemonError + WriteFileResp"
  | RespListDir "DaemonError + ListDirResp"
  | RespExec "DaemonError + ExecResp"
  | RespPong

section \<open>Framing\<close>

definition to_le_bytes :: "u32 \<Rightarrow> bytes" where
  "to_le_bytes w =
     [ucast w, ucast (drop_bit 8 w), ucast (drop_bit 16 w), ucast (drop_bit 24 w)]"

definition from_le_bytes :: "bytes \<Rightarrow> u32" where
  "from_le_bytes bs =
     (case bs of
        [a, b, c, d] \<Rightarrow>
          ucast a OR push_bit 8 (ucast b) OR push_bit 16 (ucast c) OR push_bit 24 (ucast d)
      | _ \<Rightarrow> 0)"

definition encode :: "('m \<Rightarrow> string + bytes) \<Rightarrow> 'm \<Rightarrow> string + bytes" where
  "encode ser msg =
     (case ser msg of
        Inl e \<Rightarrow> Inl e
      | Inr body \<Rightarrow>
          (let len = (word_of_nat (length body) :: u32) in Inr (to_le_bytes len @ body)))"

datatype DecodeError = NeedMore nat | Bincode string

definition decode :: "(bytes \<Rightarrow> string + 'm) \<Rightarrow> bytes \<Rightarrow> DecodeError + 'm \<times> nat" where
  "decode de buf =
     (if length buf < 4 then Inl (NeedMore (4 - length buf))
      else (let len = unat (from_le_bytes (take 4 buf)) in
        if length buf < 4 + len then Inl (NeedMore (4 + len - length buf))
        else (case de (take len (drop 4 buf)) of
                Inl e \<Rightarrow> Inl (Bincode e)
              | Inr msg \<Rightarrow> Inr (msg, 4 + len))))"

fun decode_error_to_string :: "DecodeError \<Rightarrow> string" where
  "decode_error_to_string (NeedMore n) = ''need '' @ show_nat n @ '' more bytes''"
| "decode_error_to_string (Bincode e) = ''decode error: '' @ e"

lemma length_to_le_bytes [simp]: "length (to_le_bytes w) = 4"
  by (simp add: to_le_bytes_def)

lemma from_to_le_bytes [simp]: "from_le_bytes (to_le_bytes w) = w"
proof (rule bit_word_eqI)
  fix n assume "n < LENGTH(32)"
  then consider "n < 8" | "8 \<le> n" "n < 16" | "16 \<le> n" "n < 24" | "24 \<le> n" "n < 32"
    by fastforce
  then show "bit (from_le_bytes (to_le_bytes w)) n = bit w n"
    by cases (auto simp: to_le_bytes_def from_le_bytes_def bit_simps)
qed

lemma no_high_bit:
  "\<not> bit (x :: u8) (8 + n)" "\<not> bit (x :: u8) (16 + n)" "\<not> bit (x :: u8) (24 + n)"
  using bit_imp_le_length [of x "8 + n"] bit_imp_le_length [of x "16 + n"]
    bit_imp_le_length [of x "24 + n"] by auto

lemma to_from_le_bytes: "to_le_bytes (from_le_bytes [a, b, c, d]) = [a, b, c, d]"
  unfolding to_le_bytes_def from_le_bytes_def
  by (auto intro!: bit_word_eqI simp: bit_simps no_high_bit)

section \<open>A length-prefixed byte stream\<close>

text \<open>The frame of a body, and the reading of one frame off a buffer.\<close>

definition frame_of :: "bytes \<Rightarrow> bytes" where
  "frame_of body = to_le_bytes (word_of_nat (length body)) @ body"

definition split_frame :: "bytes \<Rightarrow> nat + bytes \<times> nat" where
  "split_frame buf =
     (if length buf < 4 then Inl (4 - length buf)
      else (let len = unat (from_le_bytes (take 4 buf)) in
        if length buf < 4 + len then Inl (4 + len - length buf)
        else Inr (take len (drop 4 buf), 4 + len)))"

definition frameable :: "bytes \<Rightarrow> bool" where
  "frameable body \<longleftrightarrow> length body < 2 ^ 32"

lemma encode_frame: "encode ser msg = map_sum id frame_of (ser msg)"
  by (simp add: encode_def frame_of_def split: sum.splits)

lemma decode_split_frame:
  "decode de buf =
     (case split_frame buf of
        Inl n \<Rightarrow> Inl (NeedMore n)
      | Inr (body, n) \<Rightarrow>
          (case de body of Inl e \<Rightarrow> Inl (Bincode e) | Inr msg \<Rightarrow> Inr (msg, n)))"
  by (simp add: decode_def split_frame_def Let_def)

lemma length_frame_of [simp]: "length (frame_of b) = 4 + length b"
  by (simp add: frame_of_def)

lemma unat_frame_len: "frameable b \<Longrightarrow> unat (word_of_nat (length b) :: u32) = length b"
  by (simp add: frameable_def unat_of_nat)

lemma split_frame_complete: "frameable b \<Longrightarrow> split_frame (frame_of b @ rest) = Inr (b, length (frame_of b))"
  by (simp add: split_frame_def frame_of_def unat_frame_len)

lemma split_frame_partial:
  assumes ok: "frameable b" and p: "strict_prefix p (frame_of b)"
  shows "\<exists>n. split_frame p = Inl n \<and> 0 < n \<and> length p + n \<le> length (frame_of b)"
proof -
  from p have len: "length p < 4 + length b"
    using prefix_length_less by fastforce
  show ?thesis
  proof (cases "length p < 4")
    case True
    then show ?thesis by (simp add: split_frame_def)
  next
    case False
    from p have "take 4 p = take 4 (frame_of b)"
      using False by (auto simp: strict_prefix_def prefix_def)
    then have "take 4 p = to_le_bytes (word_of_nat (length b))"
      by (simp add: frame_of_def)
    with ok have "unat (from_le_bytes (take 4 p)) = length b"
      by (simp add: unat_frame_len)
    with False len show ?thesis by (simp add: split_frame_def Let_def)
  qed
qed

lemma split_frame_sound:
  "split_frame buf = Inr (b, n) \<Longrightarrow> 0 < n \<and> n \<le> length buf \<and> frameable b \<and> take n buf = frame_of b"
proof -
  assume a: "split_frame buf = Inr (b, n)"
  let ?len = "unat (from_le_bytes (take 4 buf))"
  from a have l4: "4 \<le> length buf" and le: "4 + ?len \<le> length buf"
    and b: "b = take ?len (drop 4 buf)" and n: "n = 4 + ?len"
    by (auto simp: split_frame_def Let_def split: if_splits)
  have lenb: "length b = ?len" using b le by simp
  have "?len < 2 ^ 32" using unsigned_less [of "from_le_bytes (take 4 buf)"] by simp
  with lenb have ok: "frameable b" by (simp add: frameable_def)
  obtain x0 x1 x2 x3 r where buf: "buf = x0 # x1 # x2 # x3 # r"
    using l4 by (auto simp: Suc_le_length_iff numeral_eq_Suc)
  have hdr: "to_le_bytes (from_le_bytes [x0, x1, x2, x3]) = [x0, x1, x2, x3]"
    by (rule to_from_le_bytes)
  have "word_of_nat (length b) = from_le_bytes (take 4 buf)" using lenb by simp
  then have "frame_of b = take 4 buf @ take ?len (drop 4 buf)"
    using hdr by (simp add: frame_of_def buf b)
  also have "\<dots> = take n buf" unfolding n by (simp add: take_add)
  finally show ?thesis using ok le n by simp
qed

section \<open>The interface of a framing\<close>

text \<open>
  What a stream reader relies on: a complete frame is read off whatever follows it, a proper
  prefix of a frame asks for more and never for more than is missing, and what is read off
  was there.  The stream server (\<open>Rpc\<close>) is the client.
\<close>

locale framing =
  fixes enc :: "'b list \<Rightarrow> 'c list"
    and dec :: "'c list \<Rightarrow> nat + 'b list \<times> nat"
    and ok :: "'b list \<Rightarrow> bool"
  assumes complete: "ok b \<Longrightarrow> dec (enc b @ rest) = Inr (b, length (enc b))"
    and partial: "ok b \<Longrightarrow> strict_prefix p (enc b) \<Longrightarrow>
      \<exists>n. dec p = Inl n \<and> 0 < n \<and> length p + n \<le> length (enc b)"
    and sound: "dec buf = Inr (b, n) \<Longrightarrow> 0 < n \<and> n \<le> length buf \<and> ok b \<and> take n buf = enc b"
begin

lemma enc_nonempty: "ok b \<Longrightarrow> enc b \<noteq> []"
  using complete [of b "[]"] sound [of "enc b" b] by force

lemma unique_frame:
  assumes "ok a" and "ok b" and "enc a @ r = enc b @ s"
  shows "a = b \<and> r = s"
proof -
  have "Inr (a, length (enc a)) = (Inr (b, length (enc b)) :: nat + 'b list \<times> nat)"
    using complete [OF assms(1), of r] complete [OF assms(2), of s] assms(3) by simp
  with assms(3) show ?thesis by simp
qed

text \<open>A stream of frames, and the last, incomplete one.\<close>

definition stream :: "'b list list \<Rightarrow> 'c list \<Rightarrow> 'c list" where
  "stream bs rest = concat (map enc bs) @ rest"

definition cut :: "'c list \<Rightarrow> bool" where
  "cut rest \<longleftrightarrow> rest = [] \<or> (\<exists>b. ok b \<and> strict_prefix rest (enc b))"

text \<open>
  Reading one frame off the front part of a stream whose rest has not arrived yet: either the
  first frame is complete in the buffer, or more is needed.
\<close>

lemma read_first:
  assumes oks: "\<forall>b \<in> set bs. ok b" and rest: "cut rest"
    and buf: "buf @ later = stream bs rest" and dec: "dec buf = Inr (b, n)"
  shows "\<exists>bs'. bs = b # bs' \<and> drop n buf @ later = stream bs' rest"
proof -
  from sound [OF dec] have n: "n \<le> length buf" and ok: "ok b" and t: "take n buf = enc b"
    by auto
  have split: "buf = enc b @ drop n buf" by (metis append_take_drop_id t)
  show ?thesis
  proof (cases bs)
    case Nil
    then have all: "buf @ later = rest" using buf by (simp add: stream_def)
    with split have "rest = enc b @ (drop n buf @ later)" by (metis append.assoc)
    moreover from this enc_nonempty [OF ok] have "rest \<noteq> []" by simp
    ultimately obtain a where a: "ok a" "strict_prefix rest (enc a)" and d: "dec rest = Inr (b, length (enc b))"
      using rest complete [OF ok] by (auto simp: cut_def)
    from partial [OF a] d show ?thesis by auto
  next
    case (Cons a bs')
    then have "enc b @ (drop n buf @ later) = enc a @ stream bs' rest"
      using buf split by (metis append.assoc concat.simps(2) list.simps(9) stream_def)
    from unique_frame [OF ok _ this] oks Cons show ?thesis by simp
  qed
qed

lemma stream_done:
  assumes oks: "\<forall>b \<in> set bs. ok b" and dec: "dec (stream bs rest) = Inl n"
  shows "bs = []"
proof (rule ccontr)
  assume "bs \<noteq> []"
  then obtain b bs' where "bs = b # bs'" by (cases bs) auto
  with oks dec complete [of b "stream bs' rest"] show False by (simp add: stream_def)
qed

end

interpretation wire_frames: framing frame_of split_frame frameable
  by unfold_locales (rule split_frame_complete split_frame_partial split_frame_sound; assumption)+

section \<open>Properties\<close>

text \<open>C22. Round trip of the framing: a message whose serialisation is shorter than \<open>2^32\<close> bytes
  and deserialises to itself is decoded from its frame, whatever bytes follow, and exactly the
  frame is consumed.\<close>

theorem encode_decode_roundtrip:
  assumes "ser msg = Inr body" and "de body = Inr msg" and "length body < 2 ^ 32"
  shows "\<exists>frame. encode ser msg = Inr frame \<and> length frame = 4 + length body
    \<and> decode de (frame @ rest) = Inr (msg, length frame)"
  using assms split_frame_complete [of body rest]
  by (simp add: encode_frame decode_split_frame frameable_def)

theorem encode_decode_roundtrip_witness:
  "\<exists>frame. encode (\<lambda>m. Inr [1, 2, m]) (3 :: u8) = Inr frame \<and> length frame = 7
    \<and> decode (\<lambda>b. Inr (last b)) (frame @ [9]) = Inr (3, length frame)"
  using encode_decode_roundtrip [of "\<lambda>m. Inr [1, 2, m]" 3 "[1, 2, 3]" "\<lambda>b. Inr (last b)" "[9]"]
  by simp

text \<open>A frame cut short at any point is never mistaken for a message or an error: the decoder
  asks for the bytes missing from the length prefix, or, once it has the prefix, for exactly the
  bytes missing from the frame.\<close>

theorem decode_cut_frame:
  assumes "ser msg = Inr body" and "length body < 2 ^ 32"
    and "encode ser msg = Inr frame" and "n < length frame"
  shows "decode de (take n frame)
    = Inl (NeedMore (if n < 4 then 4 - n else length frame - n))"
proof (cases "n < 4")
  case True
  with assms show ?thesis by (auto simp: decode_def)
next
  case False
  from assms have f: "frame = frame_of body" and ok: "frameable body"
    by (simp_all add: encode_frame frameable_def)
  have "take 4 (take n frame) = to_le_bytes (word_of_nat (length body))"
    using False by (simp add: f frame_of_def min_def)
  with False assms(4) f show ?thesis
    by (simp add: decode_def Let_def unat_frame_len [OF ok] min_def)
qed

theorem decode_cut_frame_witness:
  "decode (\<lambda>b. Inr (last b)) (take 5 (frame_of [1, 2, 3 :: u8])) = Inl (NeedMore 2)"
  using decode_cut_frame [of "\<lambda>m. Inr [1, 2, m]" 3 "[1, 2, 3]" "frame_of [1, 2, 3]" 5 "\<lambda>b. Inr (last b)"]
  by (simp add: encode_frame)

text \<open>The length prefix wraps: of a message that serialises to \<open>2^32 + k\<close> bytes, the frame is
  built without error but announces \<open>k\<close>, so that the reader is handed the first \<open>k\<close> bytes as the
  whole message and takes the others for further frames.\<close>

theorem encode_length_wraps:
  assumes "ser msg = Inr body" and "length body = 2 ^ 32 + k" and "k < 2 ^ 32"
  shows "\<exists>frame. encode ser msg = Inr frame \<and> split_frame frame = Inr (take k body, 4 + k)"
proof -
  have "(word_of_nat (length body) :: u32) = word_of_nat k"
    using assms(2) by (simp add: word_of_nat_eq_iff take_bit_eq_mod)
  then have "unat (word_of_nat (length body) :: u32) = k"
    using assms(3) by (simp add: unat_of_nat)
  with assms show ?thesis
    by (simp add: encode_frame frame_of_def split_frame_def Let_def)
qed

theorem encode_length_wraps_witness:
  "\<exists>body frame. length body = 2 ^ 32 + 1 \<and> encode (\<lambda>m. Inr body) () = Inr frame
    \<and> split_frame frame = Inr (take 1 body, 5)"
proof -
  obtain body :: bytes where "length body = 2 ^ 32 + 1" using Ex_list_of_length by blast
  with encode_length_wraps [of "\<lambda>m. Inr body" "()" body 1] show ?thesis by auto
qed

end
