(* ===== verification/ListDir.thy ===== *)
theory ListDir
  imports Samples Wire "HOL-Library.Char_ord" "HOL-Library.List_Lexorder"
begin

text \<open>
  \<^verbatim>\<open>membrane-daemon/src/handlers/list_dir.rs\<close>.  Rust compares strings byte by byte, which is
  the lexicographic order of HOL strings.
\<close>

definition list_entry :: "world \<Rightarrow> io_error + string list \<Rightarrow> DirEntry option" where
  "list_entry w entry =
     (case entry of
        Inl _ \<Rightarrow> None
      | Inr q \<Rightarrow>
          (case entry_metadata w q of
             Inl _ \<Rightarrow> None
           | Inr meta \<Rightarrow>
               (let name = last q in
                if \<not> valid_utf8_str name then None
                else if prefix ''.'' name then None
                else Some \<lparr>de_name = name, de_is_dir = md_is_dir meta,
                           de_size_bytes = (if md_is_dir meta then 0 else md_len meta)\<rparr>)))"

definition list_dir_handle ::
    "'z audit_deps_scheme \<Rightarrow> ListDirReq \<Rightarrow> Config \<Rightarrow> Audit \<Rightarrow> world
      \<Rightarrow> (DaemonError + ListDirResp) \<times> world" where
  "list_dir_handle x req cfg a w =
     (let path = ld_path req;
          log = (\<lambda>n r. audit_log x a (EvList path n r) w)
      in
      if \<not> path_allowed w (policy cfg) path then
        (Inl (PathNotAllowed path), log 0 (OpDenied ''path not in workspace''))
      else
       (case fs_read_dir w path of
          Inl e \<Rightarrow>
            if io_kind_of e = EkNotFound then
              (Inl (NotFound path), log 0 (OpError ''not found''))
            else if io_kind_of e = EkPermissionDenied then
              (Inl (PermissionDenied path), log 0 (OpError ''permission denied''))
            else
              (Inl (Io (io_to_string e)), log 0 (OpError (io_to_string e)))
        | Inr read_dir \<Rightarrow>
            (let entries = sort_key de_name (List.map_filter (list_entry w) read_dir) in
             (Inr \<lparr>ld_entries = entries\<rparr>, log (word_of_nat (length entries)) OpOk))))"

lemma list_dir_log:
  "\<exists>n r. snd (list_dir_handle x req cfg a w) = audit_log x a (EvList (ld_path req) n r) w
    \<and> (r = OpOk) = is_ok (fst (list_dir_handle x req cfg a w))"
  by (auto simp: list_dir_handle_def Let_def split: sum.splits)

section \<open>What a listing holds\<close>

text \<open>The entries a listing shows: readable, with a valid UTF-8 name that is not hidden.\<close>

definition visible :: "world \<Rightarrow> string list \<Rightarrow> string \<Rightarrow> bool" where
  "visible w p n \<longleftrightarrow>
     fs_faults w OpDirEntry (p @ [n]) = None \<and> fs_faults w OpLstat (p @ [n]) = None
     \<and> valid_utf8_str n \<and> \<not> prefix ''.'' n"

fun entry_for :: "string \<Rightarrow> node \<Rightarrow> DirEntry" where
  "entry_for n (DirN k m) = \<lparr>de_name = n, de_is_dir = True, de_size_bytes = 0\<rparr>"
| "entry_for n (FileN d m) =
     \<lparr>de_name = n, de_is_dir = False, de_size_bytes = word_of_nat (length d)\<rparr>"
| "entry_for n (PseudoN d m) = \<lparr>de_name = n, de_is_dir = False, de_size_bytes = 0\<rparr>"
| "entry_for n (LinkN t m) =
     \<lparr>de_name = n, de_is_dir = False, de_size_bytes = word_of_nat (length t)\<rparr>"

lemma entry_for_name [simp]: "de_name (entry_for n nd) = n"
  by (cases nd) simp_all

lemma entry_for_meta:
  "\<lparr>de_name = n, de_is_dir = md_is_dir (meta_of nd),
    de_size_bytes = (if md_is_dir (meta_of nd) then 0 else md_len (meta_of nd))\<rparr> = entry_for n nd"
  by (cases nd) simp_all

lemma list_entry_child:
  assumes "q \<noteq> []" and "butlast q = p"
  shows "list_entry w (dir_entry w q) =
    (case node_at w q of
       Some nd \<Rightarrow> if visible w p (last q) then Some (entry_for (last q) nd) else None
     | None \<Rightarrow> None)"
proof -
  have q: "q = p @ [last q]" using assms by auto
  show ?thesis
    using q unfolding list_entry_def dir_entry_def entry_metadata_def visible_def
    by (auto simp: Let_def entry_for_meta split: option.splits)
qed

lemma map_filter_set: "set (List.map_filter f xs) = {y. \<exists>x \<in> set xs. f x = Some y}"
  by (induction xs) (auto simp: List.map_filter_simps split: option.splits)

definition listing :: "world \<Rightarrow> string list \<Rightarrow> DirEntry list" where
  "listing w p = List.map_filter (list_entry w) (List.map (dir_entry w) (children w p))"

lemma entry_of_child:
  assumes "\<forall>q \<in> set qs. q \<noteq> [] \<and> butlast q = p"
  shows "e \<in> set (List.map_filter (list_entry w) (List.map (dir_entry w) qs)) \<longleftrightarrow>
    (\<exists>q nd. q \<in> set qs \<and> node_at w q = Some nd \<and> visible w p (last q) \<and> e = entry_for (last q) nd)"
  using assms by (fastforce simp: map_filter_set list_entry_child split: option.splits if_splits)

lemma distinct_entries:
  assumes "distinct qs" and "\<forall>q \<in> set qs. q \<noteq> [] \<and> butlast q = p"
  shows "distinct (List.map de_name (List.map_filter (list_entry w) (List.map (dir_entry w) qs)))"
  using assms
proof (induction qs)
  case Nil
  then show ?case by (simp add: List.map_filter_simps)
next
  case (Cons q qs)
  let ?rest = "List.map_filter (list_entry w) (List.map (dir_entry w) qs)"
  have qs: "\<forall>q \<in> set qs. q \<noteq> [] \<and> butlast q = p" using Cons.prems(2) by simp
  have "last q \<notin> set (List.map de_name ?rest)"
  proof
    assume "last q \<in> set (List.map de_name ?rest)"
    then obtain e where e: "e \<in> set ?rest" "de_name e = last q" by auto
    from e(1) obtain r nd where "r \<in> set qs" "e = entry_for (last r) nd"
      unfolding entry_of_child [OF qs] by blast
    with e(2) have r: "r \<in> set qs" "last r = last q" by simp_all
    with Cons.prems(2) have "r = q"
      by (metis append_butlast_last_id list.set_intros)
    with r(1) Cons.prems(1) show False by simp
  qed
  moreover have "distinct (List.map de_name ?rest)" using Cons by simp
  ultimately show ?case
    using Cons.prems(2) by (auto simp: List.map_filter_simps list_entry_child split: option.splits)
qed

lemma children_props: "q \<in> set (children w p) \<longleftrightarrow> q \<noteq> [] \<and> butlast q = p \<and> node_at w q \<noteq> None"
  by (auto simp: children_def dom_map_of_conv_image_fst [symmetric] dest: map_of_SomeD)

lemma listing_entries:
  "e \<in> set (listing w p) \<longleftrightarrow>
    (\<exists>n nd. node_at w (p @ [n]) = Some nd \<and> visible w p n \<and> e = entry_for n nd)"
proof -
  have "e \<in> set (listing w p) \<longleftrightarrow>
    (\<exists>q nd. q \<in> set (children w p) \<and> node_at w q = Some nd \<and> visible w p (last q)
      \<and> e = entry_for (last q) nd)"
    unfolding listing_def by (rule entry_of_child) (simp add: children_props)
  also have "\<dots> \<longleftrightarrow> (\<exists>n nd. node_at w (p @ [n]) = Some nd \<and> visible w p n \<and> e = entry_for n nd)"
    (is "?A \<longleftrightarrow> ?B")
  proof
    assume ?A
    then obtain q nd where q: "q \<noteq> []" "butlast q = p" "node_at w q = Some nd"
      "visible w p (last q)" "e = entry_for (last q) nd" by (auto simp: children_props)
    then have "q = p @ [last q]" by auto
    with q show ?B by metis
  next
    assume ?B
    then obtain n nd where "node_at w (p @ [n]) = Some nd" "visible w p n" "e = entry_for n nd"
      by blast
    then show ?A by (intro exI [of _ "p @ [n]"] exI [of _ nd]) (simp add: children_props)
  qed
  finally show ?thesis .
qed

lemma listing_distinct:
  assumes "wf_world w"
  shows "distinct (List.map de_name (listing w p))"
  unfolding listing_def
  by (rule distinct_entries [where p = p])
    (use assms in \<open>auto simp: children_def wf_world_def\<close>)

lemma list_dir_ok:
  assumes "list_dir_handle x req cfg a w = (Inr resp, w')"
  obtains p where "path_allowed w (policy cfg) (ld_path req)" and "lookup w (ld_path req) = Inr p"
    and "is_dir_node (node_at w p)" and "ld_entries resp = sort_key de_name (listing w p)"
    and "w' = audit_log x a (EvList (ld_path req) (word_of_nat (length (ld_entries resp))) OpOk) w"
  using assms
  by (auto simp: list_dir_handle_def fs_read_dir_def listing_def Let_def
      split: if_splits sum.splits option.splits)

section \<open>Properties\<close>

text \<open>C18. A successful listing is of a directory inside the policy's roots, sorted by name
  without duplicates, and shows exactly the directory's readable entries whose names are valid
  UTF-8 and not hidden, each with its kind and size (0 for directories, symbolic links not
  followed).\<close>

theorem list_dir_complete:
  assumes "wf_world w" and "realpath_reliable w"
    and "list_dir_handle x req cfg a w = (Inr resp, w')"
  shows "\<exists>p. lookup w (ld_path req) = Inr p \<and> under_roots w (policy cfg) p
    \<and> is_dir_node (node_at w p)
    \<and> sorted (List.map de_name (ld_entries resp)) \<and> distinct (List.map de_name (ld_entries resp))
    \<and> set (ld_entries resp) =
        {e. \<exists>n nd. node_at w (p @ [n]) = Some nd \<and> visible w p n \<and> e = entry_for n nd}"
  using assms(3)
proof (rule list_dir_ok)
  fix p
  assume al: "path_allowed w (policy cfg) (ld_path req)" and p: "lookup w (ld_path req) = Inr p"
    and d: "is_dir_node (node_at w p)" and es: "ld_entries resp = sort_key de_name (listing w p)"
  have "under_roots w (policy cfg) p"
    using path_allowed_under_roots [OF assms(1,2) p] al by simp
  moreover have "distinct (List.map de_name (ld_entries resp))"
    using listing_distinct [OF assms(1), of p] es by (simp add: distinct_map)
  moreover have "sorted (List.map de_name (ld_entries resp))" using es by simp
  moreover have "set (ld_entries resp) =
      {e. \<exists>n nd. node_at w (p @ [n]) = Some nd \<and> visible w p n \<and> e = entry_for n nd}"
    using es by (simp add: listing_entries [symmetric])
  ultimately show ?thesis using p d by blast
qed

theorem list_dir_complete_witness:
  "\<exists>resp w'. list_dir_handle sample_deps \<lparr>ld_path = ''/ws/sub/..''\<rparr> sample_config sample_audit
      sample_world = (Inr resp, w')
    \<and> List.map de_name (ld_entries resp) = [''a'', ''ln'', ''proc'', ''sub'']
    \<and> (\<exists>p. lookup sample_world ''/ws/sub/..'' = Inr p
        \<and> set (ld_entries resp) =
          {e. \<exists>n nd. node_at sample_world (p @ [n]) = Some nd \<and> visible sample_world p n
             \<and> e = entry_for n nd})"
proof -
  let ?req = "\<lparr>ld_path = ''/ws/sub/..''\<rparr>"
  obtain resp w' where run:
    "list_dir_handle sample_deps ?req sample_config sample_audit sample_world = (Inr resp, w')"
    and names: "List.map de_name (ld_entries resp) = [''a'', ''ln'', ''proc'', ''sub'']"
    by (simp add: world_eval list_dir_handle_def list_entry_def List.map_filter_simps
        valid_utf8_str_def)
  from list_dir_complete [OF wf_sample reliable_sample run] run names show ?thesis by auto
qed

end
