(* ===== verification/ReadFile.thy ===== *)
theory ReadFile
  imports Samples Wire
begin

text \<open>
  \<^verbatim>\<open>membrane-daemon/src/handlers/read_file.rs\<close>.
\<close>

definition mtime_unix_ns :: "metadata \<Rightarrow> i64" where
  "mtime_unix_ns meta =
     (case md_modified meta of
        None \<Rightarrow> 0
      | Some ns \<Rightarrow> if ns < 0 then 0 else word_of_int ns)"

definition read_file_handle ::
    "'z audit_deps_scheme \<Rightarrow> ReadFileReq \<Rightarrow> Config \<Rightarrow> Audit \<Rightarrow> world
      \<Rightarrow> (DaemonError + ReadFileResp) \<times> world" where
  "read_file_handle x req cfg a w =
     (let path = rf_path req;
          log = (\<lambda>n r. audit_log x a (EvRead path n r) w)
      in
      if \<not> path_allowed w (policy cfg) path then
        (Inl (PathNotAllowed path), log 0 (OpDenied ''path not in workspace''))
      else
       (let cap = min (rf_max_bytes req) (max_read_bytes cfg) in
        case fs_metadata w path of
          Inl e \<Rightarrow>
            if io_kind_of e = EkNotFound then
              (Inl (NotFound path), log 0 (OpError ''not found''))
            else if io_kind_of e = EkPermissionDenied then
              (Inl (PermissionDenied path), log 0 (OpError ''permission denied''))
            else
              (Inl (Io (io_to_string e)), log 0 (OpError (io_to_string e)))
        | Inr meta \<Rightarrow>
            (let size = md_len meta in
             if size > cap then
               (Inl (SizeLimitExceeded size cap),
                log 0 (OpDenied (''size '' @ show_nat (unat size) @ '' > cap '' @ show_nat (unat cap))))
             else
              (case fs_read w path of
                 Inl e \<Rightarrow> (Inl (Io (io_to_string e)), log 0 (OpError (io_to_string e)))
               | Inr data \<Rightarrow>
                   (let mtime_ns = mtime_unix_ns meta; n = (word_of_nat (length data) :: u64) in
                    (Inr \<lparr>rf_data = data, rf_mtime_unix_ns = mtime_ns, rf_size_bytes = n\<rparr>,
                     log n OpOk))))))"

section \<open>What a successful read went through\<close>

lemma read_file_ok:
  assumes "read_file_handle x req cfg a w = (Inr resp, w')"
  obtains p meta where "path_allowed w (policy cfg) (rf_path req)"
    and "lookup w (rf_path req) = Inr p"
    and "fs_metadata w (rf_path req) = Inr meta"
    and "md_len meta \<le> min (rf_max_bytes req) (max_read_bytes cfg)"
    and "fs_read w (rf_path req) = Inr (rf_data resp)"
    and "rf_size_bytes resp = word_of_nat (length (rf_data resp))"
    and "rf_mtime_unix_ns resp = mtime_unix_ns meta"
    and "w' = audit_log x a (EvRead (rf_path req) (rf_size_bytes resp) OpOk) w"
proof -
  obtain p where "lookup w (rf_path req) = Inr p"
    using assms
    by (cases "lookup w (rf_path req)")
      (auto simp: read_file_handle_def Let_def fs_metadata_def split: if_splits)
  with assms that show thesis
    by (auto simp: read_file_handle_def Let_def not_less split: if_splits sum.splits)
qed

lemma fs_read_node:
  "lookup w s = Inr p \<Longrightarrow> fs_read w s = Inr d \<Longrightarrow>
    \<exists>m. node_at w p = Some (FileN d m) \<or> node_at w p = Some (PseudoN d m)"
  by (auto simp: fs_read_def split: option.splits node.splits)

lemma fs_metadata_node:
  "lookup w s = Inr p \<Longrightarrow> fs_metadata w s = Inr meta \<Longrightarrow>
    \<exists>nd. node_at w p = Some nd \<and> meta = meta_of nd"
  by (auto simp: fs_metadata_def split: option.splits)

lemma read_file_log:
  "\<exists>n r. snd (read_file_handle x req cfg a w) = audit_log x a (EvRead (rf_path req) n r) w
    \<and> (r = OpOk) = is_ok (fst (read_file_handle x req cfg a w))"
  by (auto simp: read_file_handle_def Let_def split: sum.splits)

section \<open>A read on the sample machine\<close>

definition sample_read :: ReadFileReq where
  "sample_read = \<lparr>rf_path = ''/ws/a'', rf_max_bytes = 100\<rparr>"

definition sample_read_resp :: ReadFileResp where
  "sample_read_resp = \<lparr>rf_data = [104, 105], rf_mtime_unix_ns = 7, rf_size_bytes = 2\<rparr>"

lemma sample_read_run:
  "read_file_handle sample_deps sample_read sample_config sample_audit sample_world
    = (Inr sample_read_resp,
       snd (read_file_handle sample_deps sample_read sample_config sample_audit sample_world))"
  by (intro prod_eqI)
    (simp_all add: sample_read_def sample_read_resp_def world_eval read_file_handle_def
      DEFAULT_MAX_READ_def mtime_unix_ns_def)

section \<open>Properties\<close>

text \<open>C1. Workspace isolation of reads: the bytes of a successful read are the content of a
  file whose canonical path, with every symbolic link and every \<open>..\<close> resolved, lies under a
  root of the policy.\<close>

theorem read_file_confined:
  assumes "wf_world w" and "realpath_reliable w"
    and "read_file_handle x req cfg a w = (Inr resp, w')"
  shows "\<exists>p m. lookup w (rf_path req) = Inr p \<and> under_roots w (policy cfg) p
    \<and> (node_at w p = Some (FileN (rf_data resp) m) \<or> node_at w p = Some (PseudoN (rf_data resp) m))"
  using assms(3)
proof (rule read_file_ok)
  fix p meta
  assume al: "path_allowed w (policy cfg) (rf_path req)" and p: "lookup w (rf_path req) = Inr p"
    and rd: "fs_read w (rf_path req) = Inr (rf_data resp)"
  from path_allowed_under_roots [OF assms(1,2) p] al have "under_roots w (policy cfg) p" by simp
  with p fs_read_node [OF p rd] show ?thesis by blast
qed

theorem read_file_confined_witness:
  "\<exists>p m. lookup sample_world ''/ws/a'' = Inr p \<and> under_roots sample_world (Workspace [''/ws'']) p
    \<and> (node_at sample_world p = Some (FileN [104, 105] m)
        \<or> node_at sample_world p = Some (PseudoN [104, 105] m))"
  using read_file_confined [OF wf_sample reliable_sample sample_read_run]
  by (simp add: sample_read_def sample_read_resp_def)

text \<open>Size limit of reads: a successful read of a regular file returns the whole file, and
  its length is at most both the request's and the configuration's limit.\<close>

theorem read_file_bounded:
  assumes "read_file_handle x req cfg a w = (Inr resp, w')"
    and "lookup w (rf_path req) = Inr p" and "node_at w p = Some (FileN d m)"
    and "length d < 2 ^ 64"
  shows "rf_data resp = d \<and> unat (rf_size_bytes resp) = length d
    \<and> length d \<le> unat (rf_max_bytes req) \<and> length d \<le> unat (max_read_bytes cfg)"
  using assms(1)
proof (rule read_file_ok)
  fix q meta
  assume md: "fs_metadata w (rf_path req) = Inr meta"
    and le: "md_len meta \<le> min (rf_max_bytes req) (max_read_bytes cfg)"
    and rd: "fs_read w (rf_path req) = Inr (rf_data resp)"
    and sz: "rf_size_bytes resp = word_of_nat (length (rf_data resp))"
  have d: "rf_data resp = d" using fs_read_node [OF assms(2) rd] assms(3) by auto
  have len: "unat (word_of_nat (length d) :: u64) = length d"
    using assms(4) by (simp add: unat_of_nat)
  have "md_len meta = word_of_nat (length d)"
    using fs_metadata_node [OF assms(2) md] assms(3) by auto
  with le len d sz show ?thesis by (auto simp: word_le_nat_alt unat_min)
qed

theorem read_file_bounded_witness:
  "rf_data sample_read_resp = [104, 105] \<and> unat (rf_size_bytes sample_read_resp) = 2
    \<and> (2 :: nat) \<le> unat (rf_max_bytes sample_read)
    \<and> (2 :: nat) \<le> unat (max_read_bytes sample_config)"
proof -
  have "lookup sample_world (rf_path sample_read) = Inr [''ws'', ''a'']"
    and "node_at sample_world [''ws'', ''a''] = Some (FileN [104, 105] (Some 7))"
    by (simp_all add: sample_read_def world_eval)
  from read_file_bounded [OF sample_read_run this] show ?thesis by simp
qed

text \<open>The size limit is checked on the size \<^verbatim>\<open>stat\<close> reports, not on what is read: a kernel
  pseudo-file, whose reported size is 0, is returned in full whatever the two limits are.\<close>

theorem read_file_pseudo_unbounded:
  assumes "path_allowed w (policy cfg) (rf_path req)" and "lookup w (rf_path req) = Inr p"
    and "node_at w p = Some (PseudoN d m)"
    and "fs_faults w OpStat p = None" and "fs_faults w OpRead p = None"
  shows "\<exists>resp. fst (read_file_handle x req cfg a w) = Inr resp \<and> rf_data resp = d"
  using assms by (simp add: read_file_handle_def fs_metadata_def fs_read_def Let_def)

theorem read_file_pseudo_unbounded_witness:
  "\<exists>resp. fst (read_file_handle sample_deps \<lparr>rf_path = ''/ws/proc'', rf_max_bytes = 1\<rparr>
      (sample_config\<lparr>max_read_bytes := 2\<rparr>) sample_audit sample_world) = Inr resp
    \<and> rf_data resp = [9, 9, 9, 9]"
proof (rule read_file_pseudo_unbounded)
  let ?req = "\<lparr>rf_path = ''/ws/proc'', rf_max_bytes = 1\<rparr>"
  show "path_allowed sample_world (policy (sample_config\<lparr>max_read_bytes := 2\<rparr>)) (rf_path ?req)"
    and "lookup sample_world (rf_path ?req) = Inr [''ws'', ''proc'']"
    and "node_at sample_world [''ws'', ''proc''] = Some (PseudoN [9, 9, 9, 9] None)"
    by (simp_all add: world_eval)
qed simp_all

text \<open>Every way a read can fail, with its error: a path outside the policy, a missing file,
  a refused one, another I/O error, and a file over the limit; and nothing is read when the
  policy or the limit refuses.\<close>

theorem read_file_errors:
  "fst (read_file_handle x req cfg a w) = Inl err \<Longrightarrow>
     (\<not> path_allowed w (policy cfg) (rf_path req) \<and> err = PathNotAllowed (rf_path req))
   \<or> (path_allowed w (policy cfg) (rf_path req) \<and>
       ((\<exists>e. fs_metadata w (rf_path req) = Inl e \<and>
           err = (if io_kind_of e = EkNotFound then NotFound (rf_path req)
                  else if io_kind_of e = EkPermissionDenied then PermissionDenied (rf_path req)
                  else Io (io_to_string e)))
        \<or> (\<exists>meta. fs_metadata w (rf_path req) = Inr meta \<and>
             ((min (rf_max_bytes req) (max_read_bytes cfg) < md_len meta \<and>
               err = SizeLimitExceeded (md_len meta) (min (rf_max_bytes req) (max_read_bytes cfg)))
              \<or> (\<exists>e. fs_read w (rf_path req) = Inl e \<and> err = Io (io_to_string e))))))"
  by (auto simp: read_file_handle_def Let_def split: if_splits sum.splits)

theorem read_file_errors_witness:
  "fst (read_file_handle sample_deps \<lparr>rf_path = ''/etc/pw'', rf_max_bytes = 1\<rparr> sample_config
     sample_audit sample_world) = Inl (PathNotAllowed ''/etc/pw'')
   \<and> \<not> path_allowed sample_world (Workspace [''/ws'']) ''/etc/pw''"
proof -
  let ?req = "\<lparr>rf_path = ''/etc/pw'', rf_max_bytes = 1\<rparr>"
  have run: "fst (read_file_handle sample_deps ?req sample_config sample_audit sample_world)
      = Inl (PathNotAllowed ''/etc/pw'')"
    by (simp add: read_file_handle_def world_eval)
  with read_file_errors [OF run] show ?thesis by (auto split: if_splits)
qed

end
