(* ===== verification/WriteFile.thy ===== *)
theory WriteFile
  imports TempFile ReadFile
begin

text \<open>
  \<^verbatim>\<open>membrane-daemon/src/handlers/write_file.rs\<close>: the atomic write and the handler with its
  policy and compare-and-swap checks.
\<close>

definition atomic_write ::
    "'z tmp_deps_scheme \<Rightarrow> string \<Rightarrow> bytes \<Rightarrow> world \<Rightarrow> (io_error + unit) \<times> world" where
  "atomic_write x path data w =
     (case path_parent path of
        None \<Rightarrow> (Inl (IoErr EkInvalidInput ''no parent directory''), w)
      | Some parent \<Rightarrow>
          (let (made, w1) = (if path_exists w parent then (Inr (), w)
                             else fs_create_dir_all parent w)
           in case made of
                Inl e \<Rightarrow> (Inl e, w1)
              | Inr _ \<Rightarrow> replace_via_temp x parent path data w1))"

definition daemon_error_from_io :: "io_error \<Rightarrow> string \<Rightarrow> DaemonError" where
  "daemon_error_from_io e path =
     (case io_kind_of e of
        EkNotFound \<Rightarrow> NotFound path
      | EkPermissionDenied \<Rightarrow> PermissionDenied path
      | _ \<Rightarrow> Io (io_to_string e))"

text \<open>The compare-and-swap check: the reason logged and the error answered, when it fails.\<close>

definition cas_check :: "world \<Rightarrow> WriteFileReq \<Rightarrow> (string \<times> DaemonError) option" where
  "cas_check w req =
     (case wf_if_mtime_matches req of
        None \<Rightarrow> None
      | Some exp \<Rightarrow>
          (case fs_metadata w (wf_path req) of
             Inr meta \<Rightarrow>
               (let act = mtime_unix_ns meta in
                if act \<noteq> exp then
                  Some (''mtime mismatch: '' @ show_int (sint exp) @ '' vs '' @ show_int (sint act),
                        MtimeMismatch exp act)
                else None)
           | Inl _ \<Rightarrow>
               Some (''expected mtime '' @ show_int (sint exp) @ '' but file doesn't exist'',
                     MtimeMismatch exp 0)))"

definition write_event :: "WriteFileReq \<Rightarrow> OpResult \<Rightarrow> Event" where
  "write_event req r =
     EvWrite (wf_path req) (word_of_nat (length (wf_data req)))
       (wf_if_mtime_matches req \<noteq> None) r"

definition write_file_handle ::
    "'z tmp_deps_scheme \<Rightarrow> WriteFileReq \<Rightarrow> Config \<Rightarrow> Audit \<Rightarrow> world
      \<Rightarrow> (DaemonError + WriteFileResp) \<times> world" where
  "write_file_handle x req cfg a w =
     (let path = wf_path req in
      if \<not> writes_allowed (policy cfg) then
        (Inl (PermissionDenied ''read-only mode''),
         audit_log x a (write_event req (OpDenied ''read-only mode'')) w)
      else if \<not> path_allowed w (policy cfg) path then
        (Inl (PathNotAllowed path),
         audit_log x a (write_event req (OpDenied ''path not in workspace'')) w)
      else
       (case cas_check w req of
          Some (why, err) \<Rightarrow> (Inl err, audit_log x a (write_event req (OpDenied why)) w)
        | None \<Rightarrow>
           (case atomic_write x path (wf_data req) w of
              (Inl e, w1) \<Rightarrow>
                (Inl (daemon_error_from_io e path),
                 audit_log x a (write_event req (OpError (io_to_string e))) w1)
            | (Inr _, w1) \<Rightarrow>
                (let new_mtime = (case fs_metadata w1 path of
                                    Inl _ \<Rightarrow> 0 | Inr m \<Rightarrow> mtime_unix_ns m)
                 in (Inr \<lparr>wf_mtime_unix_ns = new_mtime\<rparr>,
                     audit_log x a (write_event req OpOk) w1)))))"

section \<open>The write is an atomic replacement\<close>

lemma replaced_after:
  assumes "keeps_nodes w w1" and "same_machine w w1" and "replaced path d w1 w' q"
  shows "replaced path d w w' q"
  using assms unfolding replaced_def
  by (meson keeps_nodes_trans same_machine_trans keeps_nodes_def)

lemma atomic_write_cases:
  assumes ok: "tempfile_ok x" and run: "atomic_write x path d w = (r, w')"
  shows "((\<exists>e. r = Inl e \<and> keeps_nodes w w') \<or> (r = Inr () \<and> (\<exists>q. replaced path d w w' q)))
    \<and> same_machine w w' \<and> (wf_world w \<longrightarrow> wf_world w')"
proof (cases "path_parent path")
  case None
  with run show ?thesis by (auto simp: atomic_write_def)
next
  case (Some parent)
  obtain made w1 where mk: "(if path_exists w parent then (Inr (), w)
      else fs_create_dir_all parent w) = (made, w1)" by fastforce
  have k: "keeps_nodes w w1" and s: "same_machine w w1" and f: "wf_world w \<longrightarrow> wf_world w1"
    using mk keeps_nodes_create_dir_all [of w parent] same_machine_create_dir_all [of w parent]
      wf_create_dir_all [of w parent] by (auto split: if_splits)
  show ?thesis
  proof (cases made)
    case (Inl e)
    with run Some mk have "r = Inl e" "w' = w1" by (simp_all add: atomic_write_def)
    with k s f show ?thesis by blast
  next
    case (Inr u)
    with run Some mk have "replace_via_temp x parent path d w1 = (r, w')"
      by (simp add: atomic_write_def)
    from replace_via_temp_cases [OF ok this] show ?thesis
      using keeps_nodes_trans [OF k, of w'] same_machine_trans [OF s, of w'] f
        replaced_after [OF k s] by blast
  qed
qed

interpretation aw: atomic_replace "tempfile_ok x" "atomic_write x" for x
proof unfold_locales
  fix s d w e w' assume "tempfile_ok x" "atomic_write x s d w = (Inl e, w')"
  from atomic_write_cases [OF this] show "keeps_nodes w w'" by blast
next
  fix s d w u w' assume "tempfile_ok x" "atomic_write x s d w = (Inr u, w')"
  from atomic_write_cases [OF this] show "\<exists>q. replaced s d w w' q" by blast
next
  fix s d w assume "tempfile_ok x"
  from atomic_write_cases [OF this, of s d w "fst (atomic_write x s d w)"]
  show "same_machine w (snd (atomic_write x s d w))" by simp
next
  fix s d w assume "tempfile_ok x" "wf_world w"
  with atomic_write_cases [OF this(1), of s d w "fst (atomic_write x s d w)"]
  show "wf_world (snd (atomic_write x s d w))" by simp
qed

section \<open>What the handler went through\<close>

text \<open>Every run ends with exactly one event, logged after the file was touched, if it was.\<close>

lemma write_file_log:
  "\<exists>r v. snd (write_file_handle x req cfg a w) = audit_log x a (write_event req r) v
    \<and> (r = OpOk) = is_ok (fst (write_file_handle x req cfg a w))
    \<and> (v = w \<or> v = snd (atomic_write x (wf_path req) (wf_data req) w))"
  unfolding write_file_handle_def Let_def
  by (force split: option.splits prod.splits sum.splits)

lemma write_file_ok:
  assumes "write_file_handle x req cfg a w = (Inr resp, w')"
  obtains w1 where "writes_allowed (policy cfg)" and "path_allowed w (policy cfg) (wf_path req)"
    and "cas_check w req = None"
    and "atomic_write x (wf_path req) (wf_data req) w = (Inr (), w1)"
    and "w' = audit_log x a (write_event req OpOk) w1"
    and "wf_mtime_unix_ns resp
           = (case fs_metadata w1 (wf_path req) of Inl _ \<Rightarrow> 0 | Inr m \<Rightarrow> mtime_unix_ns m)"
  using assms
  by (auto simp: write_file_handle_def Let_def split: if_splits option.splits prod.splits sum.splits)

lemma write_file_fail:
  assumes "write_file_handle x req cfg a w = (Inl err, w')"
  obtains res v where "w' = audit_log x a (write_event req res) v" and "res \<noteq> OpOk"
    and "v = w \<or> (\<exists>e. atomic_write x (wf_path req) (wf_data req) w = (Inl e, v))"
  using assms
  by (auto simp: write_file_handle_def Let_def split: if_splits option.splits prod.splits sum.splits)

lemma cas_check_None:
  "cas_check w req = None \<longleftrightarrow>
    (\<forall>t. wf_if_mtime_matches req = Some t \<longrightarrow>
      (\<exists>meta. fs_metadata w (wf_path req) = Inr meta \<and> mtime_unix_ns meta = t))"
  by (auto simp: cas_check_def Let_def split: option.splits sum.splits)

text \<open>A path that resolves without its last link resolves the same after files were added.\<close>

lemma walk_keeps:
  "keeps_nodes w v \<Longrightarrow> same_machine w v \<Longrightarrow> walk w False n cur ns = Inr p \<Longrightarrow>
    walk v False n cur ns = Inr p"
proof (induction w False n cur ns rule: walk.induct)
  case (1 w n cur)
  then show ?case by simp
next
  case (2 w n cur c cs)
  have faults: "fs_faults v = fs_faults w" using "2.prems"(2) by (simp add: same_machine_def)
  have dir: "is_dir_node (node_at w cur)" using "2.prems"(3) by (auto split: if_splits)
  then have ex: "node_at w cur \<noteq> None" by (auto elim: is_dir_nodeE)
  have nf: "fs_faults w OpLookup cur = None"
    using "2.prems"(3) dir ex by (auto split: option.splits)
  have same: "node_at v cur = node_at w cur"
    using ex "2.prems"(1) by (auto simp: keeps_nodes_def)
  obtain nc where nc: "node_at w cur = Some nc" using ex by blast
  have d: "node_at w cur \<noteq> None" "\<not> \<not> is_dir_node (node_at w cur)" using dir ex by simp_all
  note here = d nc nf same faults
  consider (dot) "c = ''.''" | (up) "c \<noteq> ''.''" "c = ''..''"
    | (name) "c \<noteq> ''.''" "c \<noteq> ''..''" by blast
  then show ?case
  proof cases
    case dot
    from "2.hyps"(1) [OF d nf dot "2.prems"(1,2)] here dot "2.prems"(3) show ?thesis by simp
  next
    case up
    from "2.hyps"(2) [OF d nf up "2.prems"(1,2)] here up "2.prems"(3) show ?thesis by simp
  next
    case name
    then obtain nd where nd: "node_at w (cur @ [c]) = Some nd"
      using "2.prems"(3) here by (auto split: option.splits)
    then have nd': "node_at v (cur @ [c]) = Some nd"
      using "2.prems"(1) by (auto simp: keeps_nodes_def)
    show ?thesis
    proof (cases nd)
      case (LinkN t m)
      obtain k where k: "n = Suc k"
        using "2.prems"(3) here name nd LinkN by (cases n) simp_all
      from "2.hyps"(6) [OF d nf name nd LinkN k "2.prems"(1,2)] here name nd nd' LinkN k "2.prems"(3)
      show ?thesis by simp
    qed (use here name nd nd' "2.prems"(3) "2.hyps"(3,4,5) [OF d nf name nd _ "2.prems"(1,2)]
         in simp_all)
  qed
qed

lemma lookup_entry_keeps:
  assumes k: "keeps_nodes w v" and s: "same_machine w v" and l: "lookup_entry w path = Inr q"
  shows "lookup_entry v path = Inr q"
proof -
  have st: "start_dir v path = start_dir w path" "fs_faults v = fs_faults w"
    using s by (simp_all add: start_dir_def same_machine_def)
  obtain d where d: "walk w False max_symlinks (start_dir w path) (butlast (os_names path)) = Inr d"
    and dir: "is_dir_node (node_at w d)"
    using l by (auto simp: lookup_entry_def Let_def split: if_splits sum.splits)
  from dir k have "node_at v d = node_at w d"
    by (auto simp: keeps_nodes_def elim!: is_dir_nodeE)
  with l d dir st walk_keeps [OF k s d] show ?thesis
    by (auto simp: lookup_entry_def Let_def split: if_splits option.splits)
qed

lemma replaced_entry:
  "replaced path d w w' q \<Longrightarrow> lookup_entry w path = Inr p \<Longrightarrow> q = p"
  using lookup_entry_keeps unfolding replaced_def by fastforce

text \<open>A path whose last name is missing does not resolve.\<close>

lemma walk_absent:
  "walk w False k cur ns = Inr d \<Longrightarrow> valid_name n \<Longrightarrow> node_at w (d @ [n]) = None \<Longrightarrow>
    \<exists>e. walk w False k cur (ns @ [n]) = Inl e"
proof (induction w False k cur ns rule: walk.induct)
  case (1 w k cur)
  then show ?case by (auto simp: valid_name_def split: option.splits)
next
  case (2 w k cur c cs)
  obtain nc where nc: "node_at w cur = Some nc" "is_dir_node (Some nc)"
    using "2.prems"(1) by (cases "node_at w cur") (auto split: if_splits)
  then have d: "node_at w cur \<noteq> None" "\<not> \<not> is_dir_node (node_at w cur)" by simp_all
  have nf: "fs_faults w OpLookup cur = None" using "2.prems"(1) nc by (auto split: option.splits)
  note here = nc nf "2.prems"(1) and goal = "2.prems"(2,3)
  consider (dot) "c = ''.''" | (up) "c \<noteq> ''.''" "c = ''..''"
    | (name) "c \<noteq> ''.''" "c \<noteq> ''..''" by blast
  then show ?case
  proof cases
    case dot
    from "2.hyps"(1) [OF d nf dot _ goal] here dot show ?thesis by simp
  next
    case up
    from "2.hyps"(2) [OF d nf up _ goal] here up show ?thesis by simp
  next
    case name
    then obtain nd where nd: "node_at w (cur @ [c]) = Some nd"
      using here by (auto split: option.splits)
    show ?thesis
    proof (cases nd)
      case (LinkN t m)
      obtain j where j: "k = Suc j" using here name nd LinkN by (cases k) auto
      from "2.hyps"(6) [OF d nf name nd LinkN j _ goal] here name nd LinkN j show ?thesis by simp
    qed (use here name nd "2.hyps"(3,4,5) [OF d nf name nd _ _ goal] in simp_all)
  qed
qed

lemma lookup_absent:
  assumes "lookup_entry w s = Inr q" and "node_at w q = None"
  obtains e where "lookup w s = Inl e"
proof -
  from assms(1) obtain d where "walk w False max_symlinks (start_dir w s) (butlast (os_names s)) = Inr d"
    and q: "q = d @ [last (os_names s)]" "valid_name (last (os_names s))" and ns: "os_names s \<noteq> []" "s \<noteq> []"
    by (auto simp: lookup_entry_def Let_def split: if_splits sum.splits option.splits)
  from walk_absent [OF this(1) q(2)] assms(2) q(1) ns that show thesis
    by (auto simp: lookup_def)
qed

lemma components_under:
  assumes "\<forall>n \<in> set p. valid_name n"
  shows "components (render_abs p @ CHR ''/'' # t)
    = RootDir # List.map Normal p @ List.map component_of (filter (\<lambda>s. s \<noteq> ''.'') (path_segments t))"
proof -
  have "is_absolute (render_abs p @ CHR ''/'' # t)"
    using is_absolute_render_abs [of p] by (cases "render_abs p") (simp_all add: is_absolute_def)
  moreover have "filter (\<lambda>s. s \<noteq> ''.'') p = p" "List.map component_of p = List.map Normal p"
    using assms by (auto simp: filter_id_conv valid_name_def component_of_def)
  ultimately show ?thesis
    using assms by (simp add: components_def path_segments_append path_segments_render_abs)
qed

section \<open>Writes on the sample machine\<close>

definition sample_write :: WriteFileReq where
  "sample_write = \<lparr>wf_path = ''/ws/a'', wf_data = [5], wf_if_mtime_matches = Some 7\<rparr>"

definition sample_write_out :: "(DaemonError + WriteFileResp) \<times> world" where
  "sample_write_out =
     write_file_handle sample_deps sample_write sample_config sample_audit sample_world"

lemmas write_eval = world_eval write_file_handle_def cas_check_def mtime_unix_ns_def
  atomic_write_def replace_via_temp_def write_event_def

lemma sample_write_run:
  "write_file_handle sample_deps sample_write sample_config sample_audit sample_world
    = (Inr \<lparr>wf_mtime_unix_ns = 1001\<rparr>, snd sample_write_out)"
  unfolding sample_write_out_def
  by (intro prod_eqI) (simp_all add: write_eval sample_write_def)

text \<open>Unconditional writes of one byte, at other paths.\<close>

definition sample_write_at :: "string \<Rightarrow> (DaemonError + WriteFileResp) \<times> world" where
  "sample_write_at s =
     write_file_handle sample_deps \<lparr>wf_path = s, wf_data = [5], wf_if_mtime_matches = None\<rparr>
       sample_config sample_audit sample_world"

definition sample_logged :: "string \<Rightarrow> world \<Rightarrow> world" where
  "sample_logged s v =
     audit_log sample_deps sample_audit
       (write_event \<lparr>wf_path = s, wf_data = [5], wf_if_mtime_matches = None\<rparr> OpOk) v"

lemmas write_at_eval = write_eval sample_write_at_def sample_logged_def

lemma sample_write_back:
  "\<exists>v. snd (sample_write_at ''/etc/back'') = sample_logged ''/etc/back'' v
    \<and> node_at v [''etc'', ''back''] = Some (FileN [5] (Some 1001))"
  by (simp add: write_at_eval, rule exI, rule conjI, rule refl, simp)

section \<open>Properties\<close>

text \<open>C9. A successful write was allowed by the policy's mode and by the path check, met its
  compare-and-swap condition (the file existed with exactly the expected modification time),
  and replaced the directory entry the path names by a file holding exactly the request's
  bytes, leaving every other existing node alone, before its one event was logged.\<close>

theorem write_file_success:
  assumes "tempfile_ok x" and "write_file_handle x req cfg a w = (Inr resp, w')"
  shows "writes_allowed (policy cfg) \<and> path_allowed w (policy cfg) (wf_path req)
    \<and> (\<forall>t. wf_if_mtime_matches req = Some t \<longrightarrow>
         (\<exists>meta. fs_metadata w (wf_path req) = Inr meta \<and> mtime_unix_ns meta = t))
    \<and> (\<exists>v q. replaced (wf_path req) (wf_data req) w v q
          \<and> w' = audit_log x a (write_event req OpOk) v)"
  using assms(2)
proof (rule write_file_ok)
  fix w1
  assume "writes_allowed (policy cfg)" "path_allowed w (policy cfg) (wf_path req)"
    and cas: "cas_check w req = None"
    and run: "atomic_write x (wf_path req) (wf_data req) w = (Inr (), w1)"
    and w': "w' = audit_log x a (write_event req OpOk) w1"
  moreover from aw.ok_replaces [OF assms(1) run] obtain q
    where "replaced (wf_path req) (wf_data req) w w1 q" by blast
  ultimately show ?thesis using cas_check_None [of w req] by blast
qed

theorem write_file_success_witness:
  "(\<exists>meta. fs_metadata sample_world ''/ws/a'' = Inr meta \<and> mtime_unix_ns meta = 7)
   \<and> (\<exists>v q. replaced ''/ws/a'' [5] sample_world v q)"
  using write_file_success [OF tempfile_ok_sample sample_write_run] by (auto simp: sample_write_def)

text \<open>C2. Writes are atomic: whatever the outcome and wherever a system call failed, each file
  that existed is left with its old content, or with the whole of the new content when the
  write succeeded; only then is the outcome logged, by an append.\<close>

theorem write_file_untorn:
  assumes ok: "tempfile_ok x" and run: "write_file_handle x req cfg a w = (r, w')"
    and old: "node_at w p = Some (FileN old m)"
  shows "\<exists>v res. w' = audit_log x a (write_event req res) v \<and> grows v w'
    \<and> (node_at v p = Some (FileN old m)
        \<or> (is_ok r \<and> (\<exists>m'. node_at v p = Some (FileN (wf_data req) m'))))"
proof (cases r)
  case (Inl err)
  with run obtain res v where w': "w' = audit_log x a (write_event req res) v"
    and "v = w \<or> (\<exists>e. atomic_write x (wf_path req) (wf_data req) w = (Inl e, v))"
    by (auto elim!: write_file_fail)
  then have "node_at v p = Some (FileN old m)"
    using old aw.fail_keeps [OF ok] by (auto simp: keeps_nodes_def)
  with w' show ?thesis using grows_audit_log by blast
next
  case (Inr resp)
  with run obtain w1 where at: "atomic_write x (wf_path req) (wf_data req) w = (Inr (), w1)"
    and w': "w' = audit_log x a (write_event req OpOk) w1"
    by (auto elim!: write_file_ok)
  from aw.untorn [OF ok at old] w' Inr show ?thesis using grows_audit_log by fastforce
qed

theorem write_file_untorn_witness:
  "\<exists>r w' v res. write_file_handle sample_deps sample_write sample_config sample_audit sample_world = (r, w')
     \<and> w' = audit_log sample_deps sample_audit (write_event sample_write res) v
     \<and> (node_at v [''ws'', ''a''] = Some (FileN [104, 105] (Some 7))
        \<or> (is_ok r \<and> (\<exists>m'. node_at v [''ws'', ''a''] = Some (FileN [5] m'))))"
proof -
  have "node_at sample_world [''ws'', ''a''] = Some (FileN [104, 105] (Some 7))"
    by (simp add: sample_nodes_def)
  from write_file_untorn [OF tempfile_ok_sample sample_write_run this] obtain v res where
    "snd sample_write_out = audit_log sample_deps sample_audit (write_event sample_write res) v"
    "node_at v [''ws'', ''a''] = Some (FileN [104, 105] (Some 7))
      \<or> (\<exists>m'. node_at v [''ws'', ''a''] = Some (FileN (wf_data sample_write) m'))" by blast
  with sample_write_run show ?thesis by (fastforce simp: sample_write_def is_ok_def)
qed

text \<open>C16. Confinement of a write to an existing file named without a final symbolic link: the
  one directory entry that changes is the canonical path of the request, and it lies under a
  root of the policy.\<close>

theorem write_file_confined:
  assumes ok: "tempfile_ok x" and wf: "wf_world w" and rp: "realpath_reliable w"
    and run: "write_file_handle x req cfg a w = (Inr resp, w')"
    and p: "lookup w (wf_path req) = Inr p" and entry: "lookup_entry w (wf_path req) = Inr p"
  shows "under_roots w (policy cfg) p
    \<and> (\<exists>v m. w' = audit_log x a (write_event req OpOk) v
        \<and> node_at v p = Some (FileN (wf_data req) m)
        \<and> (\<forall>q nd. q \<noteq> p \<longrightarrow> node_at w q = Some nd \<longrightarrow> node_at v q = Some nd))"
  using run
proof (rule write_file_ok)
  fix w1
  assume al: "path_allowed w (policy cfg) (wf_path req)"
    and at: "atomic_write x (wf_path req) (wf_data req) w = (Inr (), w1)"
    and w': "w' = audit_log x a (write_event req OpOk) w1"
  from path_allowed_under_roots [OF wf rp p] al have "under_roots w (policy cfg) p" by simp
  moreover from aw.ok_replaces [OF ok at] replaced_entry entry
  have "replaced (wf_path req) (wf_data req) w w1 p" by blast
  ultimately show ?thesis using w' by (auto simp: replaced_def)
qed

theorem write_file_confined_witness:
  "under_roots sample_world (Workspace [''/ws'']) [''ws'', ''a'']
    \<and> (\<exists>v m. node_at v [''ws'', ''a''] = Some (FileN [5] m)
        \<and> node_at v [''etc'', ''pw''] = Some (FileN [1, 2, 3] (Some 7)))"
proof -
  have "lookup sample_world (wf_path sample_write) = Inr [''ws'', ''a'']"
    and "lookup_entry sample_world (wf_path sample_write) = Inr [''ws'', ''a'']"
    by (simp_all add: sample_write_def world_eval)
  from write_file_confined [OF tempfile_ok_sample wf_sample reliable_sample sample_write_run this]
  show ?thesis by (auto simp: sample_write_def sample_nodes_def)
qed

text \<open>A refused write touches nothing but the log: in read-only mode, for a path the check
  refuses, and when the expected modification time does not match (or the file is missing), the
  error names the reason and the resulting world is the old one with one more audit entry.\<close>

theorem write_file_refused:
  "(\<not> writes_allowed (policy cfg) \<longrightarrow>
      write_file_handle x req cfg a w =
        (Inl (PermissionDenied ''read-only mode''),
         audit_log x a (write_event req (OpDenied ''read-only mode'')) w))
   \<and> (writes_allowed (policy cfg) \<and> \<not> path_allowed w (policy cfg) (wf_path req) \<longrightarrow>
      write_file_handle x req cfg a w =
        (Inl (PathNotAllowed (wf_path req)),
         audit_log x a (write_event req (OpDenied ''path not in workspace'')) w))
   \<and> (writes_allowed (policy cfg) \<and> path_allowed w (policy cfg) (wf_path req)
        \<and> wf_if_mtime_matches req = Some t
        \<and> (\<forall>meta. fs_metadata w (wf_path req) = Inr meta \<longrightarrow> mtime_unix_ns meta \<noteq> t) \<longrightarrow>
      (\<exists>act why. write_file_handle x req cfg a w =
        (Inl (MtimeMismatch t act), audit_log x a (write_event req (OpDenied why)) w)
        \<and> (is_ok (fs_metadata w (wf_path req)) \<or> act = 0)))"
  by (auto simp: write_file_handle_def cas_check_def Let_def split: sum.splits option.splits)

theorem write_file_refused_witness:
  "write_file_handle sample_deps sample_write (sample_config\<lparr>policy := ReadOnly [''/ws'']\<rparr>)
     sample_audit sample_world =
     (Inl (PermissionDenied ''read-only mode''),
      audit_log sample_deps sample_audit (write_event sample_write (OpDenied ''read-only mode''))
        sample_world)"
  using write_file_refused
    [of "sample_config\<lparr>policy := ReadOnly [''/ws'']\<rparr>" sample_deps sample_write sample_audit
      sample_world 7]
  by simp

text \<open>C17. What confinement does not cover: the check falls back to the path as written when it
  does not resolve, as the path of a new file does not.  So a path made of the text of a canonical
  root, a slash and anything, \<open>..\<close> and links included, that leads to an entry that does not exist
  yet, passes the check; and a write there that succeeds creates its file at that entry, wherever
  it is: \<open>/ws/../etc/new\<close> and \<open>/ws/ln/new\<close>, where \<open>ln\<close> is a link to \<open>/etc\<close>, lead to \<open>/etc/new\<close>,
  under no root of a policy for \<open>/ws\<close>.\<close>

theorem write_file_escapes:
  assumes ok: "tempfile_ok x" and wf: "wf_world w"
    and root: "roots (policy cfg) = Some rs" "render_abs p \<in> set rs" "lookup w (render_abs p) = Inr p"
    and path: "wf_path req = render_abs p @ CHR ''/'' # t"
    and entry: "lookup_entry w (wf_path req) = Inr q" "node_at w q = None"
    and run: "write_file_handle x req cfg a w = (res, w')"
  shows "path_allowed w (policy cfg) (wf_path req)
    \<and> (writes_allowed (policy cfg) \<and> wf_if_mtime_matches req = None \<longrightarrow>
        (\<forall>e. res = Inl e \<longrightarrow> (\<exists>ioe. fst (atomic_write x (wf_path req) (wf_data req) w) = Inl ioe)))
    \<and> (is_ok res \<longrightarrow> (\<exists>v m. w' = audit_log x a (write_event req OpOk) v
        \<and> node_at v q = Some (FileN (wf_data req) m)))"
proof (intro conjI)
  have names: "\<forall>n \<in> set p. valid_name n" using lookup_names [OF wf root(3)] .
  have "path_starts_with (wf_path req) (render_abs p)"
    using components_render_abs [OF names] path
    by (simp add: path_starts_with_def components_under [OF names])
  moreover have "unwrap_or (canonicalize w (render_abs p)) (render_abs p) = render_abs p"
    using root(3) by (simp add: canonicalize_def unwrap_or_def split: option.split)
  moreover from entry obtain e where "lookup w (wf_path req) = Inl e" by (rule lookup_absent)
  from canonicalize_fail [OF this] have "unwrap_or (canonicalize w (wf_path req)) (wf_path req) = wf_path req"
    by simp
  ultimately have "\<exists>r \<in> set rs. path_starts_with (unwrap_or (canonicalize w (wf_path req)) (wf_path req))
      (unwrap_or (canonicalize w r) r)" using root(2) by (intro bexI [of _ "render_abs p"]) simp_all
  then show al: "path_allowed w (policy cfg) (wf_path req)"
    using root(1) by (simp add: path_allowed_def Let_def list_ex_iff)
  show "writes_allowed (policy cfg) \<and> wf_if_mtime_matches req = None \<longrightarrow>
      (\<forall>e. res = Inl e \<longrightarrow> (\<exists>ioe. fst (atomic_write x (wf_path req) (wf_data req) w) = Inl ioe))"
    using run al by (auto simp: write_file_handle_def cas_check_def Let_def split: prod.splits sum.splits)
  show "is_ok res \<longrightarrow> (\<exists>v m. w' = audit_log x a (write_event req OpOk) v
      \<and> node_at v q = Some (FileN (wf_data req) m))"
  proof
    assume "is_ok res"
    with run obtain resp where "write_file_handle x req cfg a w = (Inr resp, w')" by (cases res) auto
    then show "\<exists>v m. w' = audit_log x a (write_event req OpOk) v \<and> node_at v q = Some (FileN (wf_data req) m)"
    proof (rule write_file_ok)
      fix w1
      assume "atomic_write x (wf_path req) (wf_data req) w = (Inr (), w1)"
        and w': "w' = audit_log x a (write_event req OpOk) w1"
      with aw.ok_replaces [OF ok] replaced_entry entry(1)
      have "replaced (wf_path req) (wf_data req) w w1 q" by blast
      with w' show ?thesis by (auto simp: replaced_def)
    qed
  qed
qed

theorem write_file_escapes_witness:
  "\<not> under_roots sample_world (policy sample_config) [''etc'', ''new'']
    \<and> (\<exists>u v. snd (sample_write_at ''/ws/../etc/new'') = sample_logged ''/ws/../etc/new'' u
    \<and> (\<exists>m. node_at u [''etc'', ''new''] = Some (FileN [5] m))
    \<and> snd (sample_write_at ''/ws/ln/new'') = sample_logged ''/ws/ln/new'' v
    \<and> (\<exists>m. node_at v [''etc'', ''new''] = Some (FileN [5] m)))"
proof -
  let ?req = "\<lambda>s. \<lparr>wf_path = s, wf_data = [5], wf_if_mtime_matches = None\<rparr>"
  have root: "roots (policy sample_config) = Some [''/ws'']" "render_abs [''ws''] \<in> set [''/ws'']"
    "lookup sample_world (render_abs [''ws'']) = Inr [''ws'']"
    by (simp_all add: world_eval)
  have out: "\<not> under_roots sample_world (policy sample_config) [''etc'', ''new'']"
    by (simp add: world_eval)
  have new: "node_at sample_world [''etc'', ''new''] = None" by (simp add: sample_nodes_def)
  have made: "\<exists>v. snd (sample_write_at s) = sample_logged s v \<and> (\<exists>m. node_at v [''etc'', ''new''] = Some (FileN [5] m))"
    if "wf_path (?req s) = render_abs [''ws''] @ CHR ''/'' # t" "is_ok (fst (sample_write_at s))"
      "lookup_entry sample_world (wf_path (?req s)) = Inr [''etc'', ''new'']" for s t
    using write_file_escapes [OF tempfile_ok_sample wf_sample root that(1,3) new, of sample_audit] that(2)
    by (simp add: sample_write_at_def sample_logged_def) (metis prod.collapse)
  have "is_ok (fst (sample_write_at ''/ws/../etc/new''))" "is_ok (fst (sample_write_at ''/ws/ln/new''))"
    by (simp_all add: write_at_eval)
  moreover have "lookup_entry sample_world ''/ws/../etc/new'' = Inr [''etc'', ''new'']"
    "lookup_entry sample_world ''/ws/ln/new'' = Inr [''etc'', ''new'']"
    by (simp_all add: world_eval)
  ultimately show ?thesis
    using out made [of "''/ws/../etc/new''" "''../etc/new''"] made [of "''/ws/ln/new''" "''ln/new''"]
    by (simp add: render_abs_def)
qed

text \<open>Nor is a link that is replaced rather than followed: a path outside the roots whose link
  points into one resolves to an allowed path, and the link itself becomes a regular file.\<close>

theorem write_file_replaces_link:
  "\<exists>v. snd (sample_write_at ''/etc/back'') = sample_logged ''/etc/back'' v
    \<and> node_at v [''etc'', ''back''] = Some (FileN [5] (Some 1001))"
  by (rule sample_write_back)

end
