(* ===== verification/Exec.thy ===== *)
theory Exec
  imports Samples Wire
begin

text \<open>
  \<^verbatim>\<open>membrane-daemon/src/handlers/exec.rs\<close>: the command that is run, the polling loop with its
  timeout, the capped readers of its output, and the handler.  What a started command does is
  the machine's affair: \<open>dep_spawn\<close> starts a command and yields a \<open>Child\<close>, which says what the
  handler observes of it (the answers of \<^verbatim>\<open>try_wait\<close>, the reads of its two pipes, the passage
  of time), together with the world the command leaves behind.  Times are nanoseconds since
  \<^verbatim>\<open>started\<close>.  A call that never returns is \<open>None\<close>.
\<close>

section \<open>The command\<close>

record Command =
  cmd_program :: string
  cmd_args :: "string list"
  cmd_current_dir :: string
  cmd_envs :: "(string \<times> string) list"

definition shell_command :: "string \<Rightarrow> Command" where
  "shell_command s =
     \<lparr>cmd_program = ''bash'', cmd_args = [''-c'', s], cmd_current_dir = [], cmd_envs = []\<rparr>"

definition exec_cwd :: "world \<Rightarrow> PolicyMode \<Rightarrow> string" where
  "exec_cwd w pol =
     (case Option.bind (roots pol) (\<lambda>rs. case rs of [] \<Rightarrow> None | r # _ \<Rightarrow> Some r) of
        Some r \<Rightarrow> r
      | None \<Rightarrow> (case env_vars w ''HOME'' of
                   None \<Rightarrow> ''.''
                 | Some h \<Rightarrow> if path_is_dir w h then h else ''.''))"

definition forwarded :: "world \<Rightarrow> string \<Rightarrow> (string \<times> string) list" where
  "forwarded w v = (case env_vars w v of Some s \<Rightarrow> [(v, s)] | None \<Rightarrow> [])"

definition exec_command :: "world \<Rightarrow> PolicyMode \<Rightarrow> string \<Rightarrow> Command" where
  "exec_command w pol s =
     (shell_command s)
       \<lparr>cmd_current_dir := exec_cwd w pol,
        cmd_envs := forwarded w ''PATH'' @ forwarded w ''HOME''\<rparr>"

text \<open>A mode with an empty list of roots confines no command: it runs where an unrestricted one does.\<close>

lemma rootless_cwd: "roots pol = Some [] \<Longrightarrow> exec_cwd w pol = exec_cwd w Unrestricted"
  by (simp add: exec_cwd_def)

section \<open>The running command\<close>

datatype try_wait = Running | Exited "i32 option" | WaitFailed io_error

text \<open>A pipe: what successive reads return, and whether it is closed after them.\<close>

record pipe =
  pipe_reads :: "(io_error + bytes) list"
  pipe_closes :: bool

text \<open>
  \<open>ch_delay n\<close> is the time that passes before the \<open>n\<close>-th poll beyond the 25 ms slept,
  \<open>ch_reap\<close> the time \<^verbatim>\<open>wait\<close> takes after \<^verbatim>\<open>kill\<close> (\<open>None\<close> if it never returns), and
  \<open>ch_join\<close> the time the readers take to finish.
\<close>

record Child =
  ch_try_wait :: "nat \<Rightarrow> try_wait"
  ch_delay :: "nat \<Rightarrow> nat"
  ch_reap :: "nat option"
  ch_join :: nat
  ch_stdout :: pipe
  ch_stderr :: pipe

record exec_deps = tmp_deps +
  dep_spawn :: "Command \<Rightarrow> world \<Rightarrow> (io_error + Child) \<times> world"

section \<open>Waiting with a timeout\<close>

definition ms :: "nat \<Rightarrow> nat" where
  "ms n = n * 1000000"

datatype waited = WExited "i32 option" | WTimedOut | WFailed io_error

function poll_loop :: "Child \<Rightarrow> nat \<Rightarrow> nat \<Rightarrow> nat \<Rightarrow> waited \<times> nat" where
  "poll_loop ch timeout n t =
     (case ch_try_wait ch n of
        Exited code \<Rightarrow> (WExited code, t)
      | WaitFailed e \<Rightarrow> (WFailed e, t)
      | Running \<Rightarrow>
          if timeout \<le> t then (WTimedOut, t)
          else poll_loop ch timeout (Suc n) (t + ms 25 + ch_delay ch (Suc n)))"
  by pat_completeness auto
termination
  by (relation "measure (\<lambda>(ch, timeout, n, t). timeout - t)") (auto simp: ms_def)

declare poll_loop.simps [simp del]

text \<open>After a timeout the command is killed and waited for.\<close>

definition wait_with_timeout :: "Child \<Rightarrow> nat \<Rightarrow> (waited \<times> nat) option" where
  "wait_with_timeout ch timeout =
     (case poll_loop ch timeout 0 (ch_delay ch 0) of
        (WTimedOut, t) \<Rightarrow> map_option (\<lambda>d. (WTimedOut, t + d)) (ch_reap ch)
      | r \<Rightarrow> Some r)"

section \<open>Reading the output\<close>

text \<open>Does reading to the end of the pipe come to an end?\<close>

fun drains :: "bool \<Rightarrow> (io_error + bytes) list \<Rightarrow> bool" where
  "drains closes [] = closes"
| "drains closes (Inl _ # rs) = True"
| "drains closes (Inr chunk # rs) = (if chunk = [] then True else drains closes rs)"

fun read_loop :: "nat \<Rightarrow> bool \<Rightarrow> bytes \<Rightarrow> (io_error + bytes) list \<Rightarrow> (bytes \<times> bool) option" where
  "read_loop max_n closes buf [] = (if closes then Some (buf, False) else None)"
| "read_loop max_n closes buf (Inl _ # rs) = Some (buf, False)"
| "read_loop max_n closes buf (Inr chunk # rs) =
     (if chunk = [] then Some (buf, False)
      else (let room = max_n - length buf in
        if room = 0 then (if drains closes rs then Some (buf, True) else None)
        else (let n = min (length chunk) room;
                  buf' = buf @ take n chunk
              in if n < length chunk then (if drains closes rs then Some (buf', True) else None)
                 else read_loop max_n closes buf' rs)))"

definition read_capped :: "pipe \<Rightarrow> nat \<Rightarrow> (bytes \<times> bool) option" where
  "read_capped p max_n = read_loop max_n (pipe_closes p) [] (pipe_reads p)"

section \<open>The handler\<close>

definition exec_denied_reason :: "PolicyMode \<Rightarrow> string" where
  "exec_denied_reason pol =
     (case pol of
        ReadOnly _ \<Rightarrow> ''read-only mode''
      | WorkspaceAllowlistExec _ _ \<Rightarrow> ''command not in allowlist''
      | _ \<Rightarrow> ''exec denied by policy'')"

definition exec_handle ::
    "'z exec_deps_scheme \<Rightarrow> ExecReq \<Rightarrow> Config \<Rightarrow> Audit \<Rightarrow> world
      \<Rightarrow> ((DaemonError + ExecResp) \<times> world) option" where
  "exec_handle x req cfg a w =
     (let cmd = ex_command req in
      if \<not> exec_allowed (policy cfg) cmd then
        (let why = exec_denied_reason (policy cfg) in
         Some (Inl (PermissionDenied why),
               audit_log x a (EvExec cmd None 0 False False (OpDenied why)) w))
      else
       (let timeout = ms (unat (effective_exec_timeout_ms cfg (ex_timeout_ms req)));
            max_output = min (ex_max_output_bytes req) (max_output_bytes cfg)
        in case dep_spawn x (exec_command w (policy cfg) cmd) w of
          (Inl e, w1) \<Rightarrow>
            (let msg = io_to_string e in
             Some (Inl (Io msg), audit_log x a (EvExec cmd None 0 False False (OpError msg)) w1))
        | (Inr ch, w1) \<Rightarrow>
            (case wait_with_timeout ch timeout of
               None \<Rightarrow> None
             | Some (WFailed e, t) \<Rightarrow>
                 (let msg = io_to_string e in
                  Some (Inl (Io msg),
                        audit_log x a (EvExec cmd None (word_of_nat (t div ms 1)) False False
                          (OpError msg)) w1))
             | Some (outcome, t) \<Rightarrow>
                 (case (read_capped (ch_stdout ch) (unat max_output),
                        read_capped (ch_stderr ch) (unat max_output)) of
                    (Some (out, out_trunc), Some (err, err_trunc)) \<Rightarrow>
                      (let exit_code = (case outcome of WExited c \<Rightarrow> c | _ \<Rightarrow> None);
                           timed_out = (outcome = WTimedOut);
                           output_truncated = (out_trunc \<or> err_trunc);
                           duration_ms = (word_of_nat (min ((t + ch_join ch) div ms 1) (2 ^ 32 - 1))
                                            :: u32);
                           w2 = audit_log x a (EvExec cmd exit_code duration_ms timed_out
                                  output_truncated
                                  (if timed_out then OpError ''timed out'' else OpOk)) w1
                       in if timed_out then Some (Inl Timeout, w2)
                          else Some (Inr \<lparr>ex_stdout = out, ex_stderr = err, ex_exit_code = exit_code,
                                          ex_duration_ms = duration_ms, ex_timed_out = timed_out,
                                          ex_output_truncated = output_truncated\<rparr>, w2))
                  | _ \<Rightarrow> None))))"

section \<open>What the readers return\<close>

text \<open>The bytes a pipe delivers before its end or its first error.\<close>

fun delivered :: "(io_error + bytes) list \<Rightarrow> bytes" where
  "delivered [] = []"
| "delivered (Inl _ # rs) = []"
| "delivered (Inr chunk # rs) = (if chunk = [] then [] else chunk @ delivered rs)"

lemma read_loop_spec:
  "length buf \<le> max_n \<Longrightarrow>
    read_loop max_n closes buf rs =
      (if drains closes rs
       then Some (take max_n (buf @ delivered rs), max_n < length buf + length (delivered rs))
       else None)"
proof (induction max_n closes buf rs rule: read_loop.induct)
  case (3 max_n closes buf chunk rs)
  show ?case
  proof (cases "chunk = [] \<or> max_n = length buf \<or> max_n - length buf < length chunk")
    case True
    with "3.prems" show ?thesis by (auto simp: Let_def min_def)
  next
    case False
    with "3.prems" "3.IH" [OF _ refl _ refl refl] show ?thesis by (auto simp: Let_def min_def)
  qed
qed simp_all

text \<open>
  The abstract reader: everything the pipe delivers, cut at the cap, with the flag that says
  whether something was cut; it returns exactly if the pipe ends.
\<close>

definition capped :: "pipe \<Rightarrow> nat \<Rightarrow> (bytes \<times> bool) option" where
  "capped p max_n =
     (let out = delivered (pipe_reads p) in
      if drains (pipe_closes p) (pipe_reads p) then Some (take max_n out, max_n < length out)
      else None)"

lemma read_capped_capped: "read_capped p max_n = capped p max_n"
  by (simp add: read_capped_def capped_def read_loop_spec Let_def)

section \<open>What the polling loop returns\<close>

lemma poll_loop_time:
  "\<forall>n. ch_delay ch n \<le> d \<Longrightarrow>
    t \<le> snd (poll_loop ch timeout n t)
    \<and> snd (poll_loop ch timeout n t) \<le> max t (timeout + ms 25 + d)"
proof (induction ch timeout n t rule: poll_loop.induct)
  case (1 ch timeout n t)
  show ?case
  proof (cases "ch_try_wait ch n = Running \<and> \<not> timeout \<le> t")
    case True
    moreover have "max (t + ms 25 + ch_delay ch (Suc n)) (timeout + ms 25 + d) = timeout + ms 25 + d"
      using True "1.prems" by (intro max_absorb2 add_mono) auto
    ultimately show ?thesis
      using "1.IH" "1.prems" by (auto simp: poll_loop.simps [of ch timeout n t])
  next
    case False
    then show ?thesis by (auto simp: poll_loop.simps [of ch timeout n t] split: try_wait.splits)
  qed
qed

text \<open>The answer of the loop is the first answer other than \<open>Running\<close>, if it comes in time.\<close>

fun waited_of :: "try_wait \<Rightarrow> waited" where
  "waited_of Running = WTimedOut"
| "waited_of (Exited code) = WExited code"
| "waited_of (WaitFailed e) = WFailed e"

lemma waited_of_timeout: "waited_of r = WTimedOut \<longleftrightarrow> r = Running"
  by (cases r) simp_all

lemma poll_loop_first:
  "\<exists>k\<ge>n. (\<forall>i. n \<le> i \<and> i < k \<longrightarrow> ch_try_wait ch i = Running)
     \<and> fst (poll_loop ch timeout n t) = waited_of (ch_try_wait ch k)
     \<and> (ch_try_wait ch k = Running \<longrightarrow> timeout \<le> snd (poll_loop ch timeout n t))
     \<and> t + (k - n) * ms 25 \<le> snd (poll_loop ch timeout n t)
     \<and> (k = n \<or> t + (k - n - 1) * ms 25 < timeout)"
proof (induction ch timeout n t rule: poll_loop.induct)
  case (1 ch timeout n t)
  show ?case
  proof (cases "ch_try_wait ch n = Running \<and> \<not> timeout \<le> t")
    case True
    let ?t = "t + ms 25 + ch_delay ch (Suc n)"
    from True have step: "poll_loop ch timeout n t = poll_loop ch timeout (Suc n) ?t"
      by (simp add: poll_loop.simps [of ch timeout n t])
    from True "1.IH" obtain k where k: "Suc n \<le> k"
      and run: "\<forall>i. Suc n \<le> i \<and> i < k \<longrightarrow> ch_try_wait ch i = Running"
      and res: "fst (poll_loop ch timeout (Suc n) ?t) = waited_of (ch_try_wait ch k)"
        "ch_try_wait ch k = Running \<longrightarrow> timeout \<le> snd (poll_loop ch timeout (Suc n) ?t)"
      and low: "?t + (k - Suc n) * ms 25 \<le> snd (poll_loop ch timeout (Suc n) ?t)"
      and up: "k = Suc n \<or> ?t + (k - Suc n - 1) * ms 25 < timeout" by auto
    from k obtain j where j: "k = Suc n + j" using le_Suc_ex by blast
    have "\<forall>i. n \<le> i \<and> i < k \<longrightarrow> ch_try_wait ch i = Running"
      using run True by (metis le_antisym not_less_eq_eq)
    moreover have "t + (k - n) * ms 25 \<le> snd (poll_loop ch timeout n t)"
      using low step j by (simp add: algebra_simps)
    moreover have "t + (k - n - 1) * ms 25 < timeout"
      using up True j by (cases j) (auto simp: algebra_simps)
    ultimately show ?thesis using k res step by (intro exI [of _ k]) auto
  next
    case False
    then show ?thesis
      by (intro exI [of _ n])
        (auto simp: poll_loop.simps [of ch timeout n t] split: try_wait.splits)
  qed
qed

lemma wait_exited:
  assumes "wait_with_timeout ch timeout = Some (WExited c, t)"
  shows "\<exists>k. (\<forall>i<k. ch_try_wait ch i = Running) \<and> ch_try_wait ch k = Exited c
    \<and> (k = 0 \<or> ch_delay ch 0 + (k - 1) * ms 25 < timeout)"
proof -
  have run: "fst (poll_loop ch timeout 0 (ch_delay ch 0)) = WExited c"
    using assms by (auto simp: wait_with_timeout_def split: prod.splits waited.splits)
  obtain k where "\<forall>i<k. ch_try_wait ch i = Running"
    and k: "fst (poll_loop ch timeout 0 (ch_delay ch 0)) = waited_of (ch_try_wait ch k)"
    and "k = 0 \<or> ch_delay ch 0 + (k - 1) * ms 25 < timeout"
    using poll_loop_first [of 0 ch timeout "ch_delay ch 0"] by auto
  moreover from k run have "ch_try_wait ch k = Exited c" by (cases "ch_try_wait ch k") auto
  ultimately show ?thesis by blast
qed

lemma wait_running:
  assumes "\<forall>n. ch_try_wait ch n = Running"
  shows "\<exists>t. timeout \<le> t
    \<and> wait_with_timeout ch timeout = map_option (\<lambda>d. (WTimedOut, t + d)) (ch_reap ch)"
proof -
  obtain r t where rt: "poll_loop ch timeout 0 (ch_delay ch 0) = (r, t)" by fastforce
  with assms poll_loop_first [of 0 ch timeout "ch_delay ch 0"]
  have "r = WTimedOut" and "timeout \<le> t" by auto
  with rt show ?thesis by (auto simp: wait_with_timeout_def)
qed

section \<open>What a successful command went through\<close>

definition output_cap :: "ExecReq \<Rightarrow> Config \<Rightarrow> nat" where
  "output_cap req cfg = unat (min (ex_max_output_bytes req) (max_output_bytes cfg))"

definition exec_timeout :: "ExecReq \<Rightarrow> Config \<Rightarrow> nat" where
  "exec_timeout req cfg = ms (unat (effective_exec_timeout_ms cfg (ex_timeout_ms req)))"

lemma exec_handle_ok:
  assumes "exec_handle x req cfg a w = Some (Inr resp, w')"
  obtains ch w1 c t where "exec_allowed (policy cfg) (ex_command req)"
    and "dep_spawn x (exec_command w (policy cfg) (ex_command req)) w = (Inr ch, w1)"
    and "wait_with_timeout ch (exec_timeout req cfg) = Some (WExited c, t)"
    and "capped (ch_stdout ch) (output_cap req cfg)
           = Some (ex_stdout resp, output_cap req cfg < length (delivered (pipe_reads (ch_stdout ch))))"
    and "capped (ch_stderr ch) (output_cap req cfg)
           = Some (ex_stderr resp, output_cap req cfg < length (delivered (pipe_reads (ch_stderr ch))))"
    and "ex_exit_code resp = c" and "\<not> ex_timed_out resp"
    and "ex_output_truncated resp \<longleftrightarrow>
           output_cap req cfg < length (delivered (pipe_reads (ch_stdout ch)))
           \<or> output_cap req cfg < length (delivered (pipe_reads (ch_stderr ch)))"
    and "w' = audit_log x a (EvExec (ex_command req) c (ex_duration_ms resp) False
           (ex_output_truncated resp) OpOk) w1"
  using assms
  by (auto simp: exec_handle_def Let_def read_capped_capped capped_def output_cap_def
      exec_timeout_def split: if_splits sum.splits option.splits prod.splits waited.splits)

fun exec_event :: "string \<Rightarrow> Event \<Rightarrow> bool" where
  "exec_event s (EvExec c _ _ _ _ _) = (c = s)"
| "exec_event s _ = False"

lemma exec_handle_log:
  assumes "exec_handle x req cfg a w = Some (r, w')"
  shows "\<exists>ev v. w' = audit_log x a ev v \<and> exec_event (ex_command req) ev
    \<and> (v = w \<or> v = snd (dep_spawn x (exec_command w (policy cfg) (ex_command req)) w))
    \<and> (ev_result ev = OpOk) = is_ok r"
  using assms unfolding exec_handle_def Let_def
  by (auto split: if_splits sum.splits option.splits prod.splits waited.splits)
    ((rule exI)+, rule conjI, rule refl, simp)+

text \<open>A command that can be reaped and whose pipes come to an end.\<close>

definition child_ends :: "Child \<Rightarrow> bool" where
  "child_ends ch \<longleftrightarrow> ch_reap ch \<noteq> None
     \<and> drains (pipe_closes (ch_stdout ch)) (pipe_reads (ch_stdout ch))
     \<and> drains (pipe_closes (ch_stderr ch)) (pipe_reads (ch_stderr ch))"

lemma child_ends_returns:
  assumes "child_ends ch"
  shows "wait_with_timeout ch timeout \<noteq> None" "read_capped (ch_stdout ch) n \<noteq> None"
    "read_capped (ch_stderr ch) n \<noteq> None"
  using assms
  by (auto simp: child_ends_def wait_with_timeout_def read_capped_def read_loop_spec split: prod.splits waited.splits)

lemma exec_handle_returns:
  assumes "exec_allowed (policy cfg) (ex_command req) \<Longrightarrow>
    \<forall>ch v. dep_spawn x (exec_command w (policy cfg) (ex_command req)) w = (Inr ch, v) \<longrightarrow> child_ends ch"
  shows "exec_handle x req cfg a w \<noteq> None"
proof (cases "\<exists>ch v. exec_allowed (policy cfg) (ex_command req)
    \<and> dep_spawn x (exec_command w (policy cfg) (ex_command req)) w = (Inr ch, v)")
  case True
  then obtain ch v where sp: "exec_allowed (policy cfg) (ex_command req)"
    "dep_spawn x (exec_command w (policy cfg) (ex_command req)) w = (Inr ch, v)" by blast
  with assms have "child_ends ch" by blast
  note returns = child_ends_returns [OF this]
  obtain res t where "wait_with_timeout ch (ms (unat (effective_exec_timeout_ms cfg (ex_timeout_ms req)))) = Some (res, t)"
    using returns(1) by fastforce
  moreover obtain out cut where "read_capped (ch_stdout ch)
      (unat (min (ex_max_output_bytes req) (max_output_bytes cfg))) = Some (out, cut)"
    using returns(2) by fastforce
  moreover obtain err cut' where "read_capped (ch_stderr ch)
      (unat (min (ex_max_output_bytes req) (max_output_bytes cfg))) = Some (err, cut')"
    using returns(3) by fastforce
  ultimately show ?thesis using sp by (cases res) (simp_all add: exec_handle_def Let_def)
next
  case False
  then show ?thesis by (auto simp: exec_handle_def Let_def split: prod.splits sum.splits)
qed

section \<open>Commands on the sample machine\<close>

definition sample_pipe :: pipe where
  "sample_pipe = \<lparr>pipe_reads = [Inr [1, 2, 3], Inr [4, 5]], pipe_closes = True\<rparr>"

text \<open>A command that exits with code 0 at the second poll, and one that never does.\<close>

definition sample_child :: Child where
  "sample_child =
     \<lparr>ch_try_wait = (\<lambda>n. if n = 0 then Running else Exited (Some 0)), ch_delay = (\<lambda>n. 0),
      ch_reap = Some 0, ch_join = 0, ch_stdout = sample_pipe,
      ch_stderr = \<lparr>pipe_reads = [], pipe_closes = True\<rparr>\<rparr>"

definition stuck_child :: Child where
  "stuck_child = sample_child
     \<lparr>ch_try_wait := (\<lambda>n. Running), ch_stdout := \<lparr>pipe_reads = [Inr [1]], pipe_closes = False\<rparr>\<rparr>"

definition exec_sample_deps :: "Child \<Rightarrow> exec_deps" where
  "exec_sample_deps ch =
     tmp_deps.extend sample_deps \<lparr>dep_spawn = (\<lambda>c w. (Inr ch, w))\<rparr>"

definition sample_exec :: ExecReq where
  "sample_exec = \<lparr>ex_command = ''ls'', ex_timeout_ms = 1000, ex_max_output_bytes = 4\<rparr>"

lemma spawn_sample [simp]: "dep_spawn (exec_sample_deps ch) c w = (Inr ch, w)"
  by (simp add: exec_sample_deps_def tmp_deps.defs)

lemma tempfile_ok_exec_sample [simp]: "tempfile_ok (exec_sample_deps ch)"
  by (rule tempfile_ok_simple) (simp_all add: exec_sample_deps_def tmp_deps.defs sample_deps_def)

definition sample_exec_out :: "((DaemonError + ExecResp) \<times> world) option" where
  "sample_exec_out =
     exec_handle (exec_sample_deps sample_child) sample_exec sample_config sample_audit sample_world"

lemma sample_exec_run:
  "exec_handle (exec_sample_deps sample_child) sample_exec sample_config sample_audit sample_world
     = Some (Inr \<lparr>ex_stdout = [1, 2, 3, 4], ex_stderr = [], ex_exit_code = Some 0,
          ex_duration_ms = 25, ex_timed_out = False, ex_output_truncated = True\<rparr>,
        snd (the sample_exec_out))"
proof -
  have "min (4 :: u64) DEFAULT_MAX_OUTPUT = 4" by (simp add: DEFAULT_MAX_OUTPUT_def)
  then have "map_option fst sample_exec_out
      = Some (Inr \<lparr>ex_stdout = [1, 2, 3, 4], ex_stderr = [], ex_exit_code = Some 0,
          ex_duration_ms = 25, ex_timed_out = False, ex_output_truncated = True\<rparr>)"
    by (simp add: sample_exec_out_def exec_handle_def sample_exec_def sample_child_def
        sample_pipe_def wait_with_timeout_def poll_loop.simps effective_exec_timeout_ms_def
        DEFAULT_EXEC_TIMEOUT_MS_def ms_def read_capped_capped capped_def Let_def)
  then show ?thesis by (auto simp: sample_exec_out_def)
qed

section \<open>Properties\<close>

text \<open>C15. A successful command was allowed by the policy, ran as the command the handler built,
  and exited by itself: the answer carries the exit code that the first poll not to find it
  running saw; the poll before that one, if any, came before the timeout, counting the pauses of
  25 ms alone, so that an exit is accepted up to one poll after the timeout.  Each output is everything the command wrote cut at the smaller of
  the two caps, the truncation flag says exactly whether either was cut, and the one event
  logged says the same.\<close>

theorem exec_success:
  assumes "exec_handle x req cfg a w = Some (Inr resp, w')"
  shows "\<exists>ch w1 k. exec_allowed (policy cfg) (ex_command req)
    \<and> dep_spawn x (exec_command w (policy cfg) (ex_command req)) w = (Inr ch, w1)
    \<and> (\<forall>i<k. ch_try_wait ch i = Running) \<and> ch_try_wait ch k = Exited (ex_exit_code resp)
    \<and> (k = 0 \<or> (k - 1) * ms 25 < exec_timeout req cfg)
    \<and> ex_stdout resp = take (output_cap req cfg) (delivered (pipe_reads (ch_stdout ch)))
    \<and> ex_stderr resp = take (output_cap req cfg) (delivered (pipe_reads (ch_stderr ch)))
    \<and> (ex_output_truncated resp \<longleftrightarrow>
         output_cap req cfg < length (delivered (pipe_reads (ch_stdout ch)))
         \<or> output_cap req cfg < length (delivered (pipe_reads (ch_stderr ch))))
    \<and> w' = audit_log x a (EvExec (ex_command req) (ex_exit_code resp) (ex_duration_ms resp) False
        (ex_output_truncated resp) OpOk) w1"
  using assms
proof (rule exec_handle_ok)
  fix ch w1 c t
  assume wt: "wait_with_timeout ch (exec_timeout req cfg) = Some (WExited c, t)"
    and out: "capped (ch_stdout ch) (output_cap req cfg) = Some (ex_stdout resp,
        output_cap req cfg < length (delivered (pipe_reads (ch_stdout ch))))"
    and err: "capped (ch_stderr ch) (output_cap req cfg) = Some (ex_stderr resp,
        output_cap req cfg < length (delivered (pipe_reads (ch_stderr ch))))"
    and rest: "exec_allowed (policy cfg) (ex_command req)"
      "dep_spawn x (exec_command w (policy cfg) (ex_command req)) w = (Inr ch, w1)"
      "ex_exit_code resp = c"
      "ex_output_truncated resp \<longleftrightarrow>
         output_cap req cfg < length (delivered (pipe_reads (ch_stdout ch)))
         \<or> output_cap req cfg < length (delivered (pipe_reads (ch_stderr ch)))"
      "w' = audit_log x a (EvExec (ex_command req) c (ex_duration_ms resp) False
         (ex_output_truncated resp) OpOk) w1"
  from wait_exited [OF wt] obtain k where "\<forall>i<k. ch_try_wait ch i = Running"
    and "ch_try_wait ch k = Exited c" and "k = 0 \<or> (k - 1) * ms 25 < exec_timeout req cfg"
    by fastforce
  with out err rest show ?thesis
    by (intro exI [of _ ch] exI [of _ w1] exI [of _ k])
      (simp add: capped_def Let_def split: if_splits)
qed

theorem exec_success_witness:
  "\<exists>ch. dep_spawn (exec_sample_deps sample_child)
      (exec_command sample_world (Workspace [''/ws'']) ''ls'') sample_world = (Inr ch, sample_world)
    \<and> [1, 2, 3, 4] = take (output_cap sample_exec sample_config)
        (delivered (pipe_reads (ch_stdout ch)))"
  using exec_success [OF sample_exec_run] by (auto simp: sample_exec_def)

text \<open>C21. The capped reader returns, for every sequence of reads, what its specification says:
  everything the pipe delivers before its end or first error, cut at the cap, flagged exactly
  when something was cut; and it returns at all exactly when the pipe ends.\<close>

theorem read_capped_spec: "read_capped p max_n = capped p max_n"
  by (rule read_capped_capped)

text \<open>C20. The timeout bounds the wait for the command: if no scheduling delay exceeds \<open>d\<close>, the
  polling loop ends at most 25 ms and \<open>d\<close> after the timeout, however the command behaves; and it
  gives up only when the timeout has passed and every poll so far said \<open>Running\<close>.\<close>

theorem exec_wait_bounded:
  assumes "\<forall>n. ch_delay ch n \<le> d"
  shows "snd (poll_loop ch timeout 0 (ch_delay ch 0)) \<le> timeout + ms 25 + d
    \<and> (fst (poll_loop ch timeout 0 (ch_delay ch 0)) = WTimedOut \<longrightarrow>
        timeout \<le> snd (poll_loop ch timeout 0 (ch_delay ch 0))
        \<and> (\<exists>k. \<forall>i\<le>k. ch_try_wait ch i = Running))"
proof -
  let ?r = "poll_loop ch timeout 0 (ch_delay ch 0)"
  have "ch_delay ch 0 \<le> timeout + ms 25 + d" using assms by (simp add: trans_le_add2)
  then have "snd ?r \<le> timeout + ms 25 + d"
    using poll_loop_time [OF assms, of "ch_delay ch 0" timeout 0] by simp
  moreover obtain k where "\<forall>i<k. ch_try_wait ch i = Running"
    and "fst ?r = waited_of (ch_try_wait ch k)" and "ch_try_wait ch k = Running \<longrightarrow> timeout \<le> snd ?r"
    using poll_loop_first [of 0 ch timeout "ch_delay ch 0"] by auto
  then have "fst ?r = WTimedOut \<longrightarrow> timeout \<le> snd ?r \<and> (\<exists>k. \<forall>i\<le>k. ch_try_wait ch i = Running)"
    by (metis order_le_less waited_of_timeout)
  ultimately show ?thesis by blast
qed

theorem exec_wait_bounded_witness:
  "snd (poll_loop stuck_child (ms 100) 0 (ch_delay stuck_child 0)) \<le> ms 125"
  using exec_wait_bounded [of stuck_child 0 "ms 100"]
  by (simp add: stuck_child_def sample_child_def ms_def)

text \<open>C19. A command that never exits by itself is killed and answered with a timeout only if it
  can be reaped and both of its output pipes come to an end; if some descendant keeps a pipe
  open, the handler never answers, whatever the timeout.\<close>

theorem exec_never_exits:
  assumes "exec_allowed (policy cfg) (ex_command req)"
    and "dep_spawn x (exec_command w (policy cfg) (ex_command req)) w = (Inr ch, w1)"
    and "\<forall>n. ch_try_wait ch n = Running"
  shows "(exec_handle x req cfg a w = None \<longleftrightarrow>
      ch_reap ch = None
      \<or> \<not> drains (pipe_closes (ch_stdout ch)) (pipe_reads (ch_stdout ch))
      \<or> \<not> drains (pipe_closes (ch_stderr ch)) (pipe_reads (ch_stderr ch)))
    \<and> (\<forall>r w'. exec_handle x req cfg a w = Some (r, w') \<longrightarrow> r = Inl Timeout)"
proof -
  let ?T = "ms (unat (effective_exec_timeout_ms cfg (ex_timeout_ms req)))"
  from wait_running [OF assms(3), of ?T] obtain t where
    "wait_with_timeout ch ?T = map_option (\<lambda>d. (WTimedOut, t + d)) (ch_reap ch)" by blast
  with assms(1,2) show ?thesis
    by (cases "ch_reap ch") (auto simp: exec_handle_def Let_def read_capped_capped capped_def)
qed

theorem exec_never_exits_witness:
  "exec_handle (exec_sample_deps stuck_child) sample_exec sample_config sample_audit sample_world
     = None"
proof -
  have "exec_allowed (policy sample_config) (ex_command sample_exec)"
    and "\<forall>n. ch_try_wait stuck_child n = Running"
    by (simp_all add: sample_exec_def stuck_child_def)
  from exec_never_exits [OF this(1) spawn_sample this(2)] show ?thesis
    by (simp add: stuck_child_def)
qed

text \<open>Clean environment: the command the handler builds depends on the daemon's environment
  only through \<open>PATH\<close> and \<open>HOME\<close>, and every variable it passes on is one of these two with
  the daemon's own value; the whole command string is one argument of \<^verbatim>\<open>bash -c\<close>.\<close>

theorem exec_clean_env:
  assumes "e ''PATH'' = e' ''PATH''" and "e ''HOME'' = e' ''HOME''"
  shows "exec_command (w\<lparr>env_vars := e\<rparr>) pol s = exec_command (w\<lparr>env_vars := e'\<rparr>) pol s
    \<and> (\<forall>(k, v) \<in> set (cmd_envs (exec_command w pol s)).
         (k = ''PATH'' \<or> k = ''HOME'') \<and> env_vars w k = Some v)
    \<and> cmd_program (exec_command w pol s) = ''bash'' \<and> cmd_args (exec_command w pol s) = [''-c'', s]"
  using assms
  by (auto simp: exec_command_def exec_cwd_def forwarded_def shell_command_def split: option.splits)

theorem exec_clean_env_witness:
  "exec_command (sample_world\<lparr>env_vars := [''SECRET'' \<mapsto> ''s'', ''PATH'' \<mapsto> ''/bin'']\<rparr>) Unrestricted ''env''
    = exec_command (sample_world\<lparr>env_vars := [''PATH'' \<mapsto> ''/bin'']\<rparr>) Unrestricted ''env''"
  using exec_clean_env [of "[''SECRET'' \<mapsto> ''s'', ''PATH'' \<mapsto> ''/bin'']" "[''PATH'' \<mapsto> ''/bin'']"]
  by simp

text \<open>C40. The allowlist looks at the first token alone, and of it at the last path component
  alone: for every allowed name \<open>n\<close> and every directory \<open>d\<close>, both of ASCII characters above the
  space, and every further text \<open>s\<close>, the command
  \<open>d/n s\<close> is allowed, although the shell is handed the whole string with whatever \<open>s\<close> chains,
  substitutes or redirects.\<close>

theorem exec_allowlist_first_token:
  assumes "n \<in> set allow" and "valid_name n" and "list_all printable n" and "list_all printable d"
  shows "exec_allowed (WorkspaceAllowlistExec rs allow) (d @ ''/'' @ n @ '' '' @ s)
    \<and> cmd_args (exec_command w (WorkspaceAllowlistExec rs allow) (d @ ''/'' @ n @ '' '' @ s))
        = [''-c'', d @ ''/'' @ n @ '' '' @ s]"
proof -
  let ?b = "d @ ''/'' @ n"
  have "list_all printable ?b" using assms(3,4) by (simp add: printable_def)
  from split_whitespace_first [OF this, of s] obtain ts
    where "split_whitespace (d @ ''/'' @ n @ '' '' @ s) = ?b # ts" by auto
  moreover have "file_name ?b = Some n" using file_name_snoc [OF assms(2), of d] by simp
  ultimately show ?thesis
    using assms(1) by (auto simp: exec_bin_def list_ex_iff Let_def exec_command_def shell_command_def)
qed

theorem exec_allowlist_first_token_witness:
  "exec_allowed (WorkspaceAllowlistExec [''/ws''] [''git'']) (''/tmp'' @ ''/'' @ ''git'' @ '' '' @ ''; rm -rf ~'')"
  using exec_allowlist_first_token [of "''git''" "[''git'']" "''/tmp''" "[''/ws'']" "''; rm -rf ~''"]
  by (simp add: valid_name_def printable_def)

text \<open>A command the policy refuses is not started: whatever starting commands would do, the
  result is the refusal with the reason of the policy's mode and the old world with one more
  audit entry; read-only mode refuses every command.\<close>

theorem exec_refused:
  assumes "\<not> exec_allowed (policy cfg) (ex_command req) \<or> (\<exists>rs. policy cfg = ReadOnly rs)"
  shows "exec_handle x req cfg a w =
       Some (Inl (PermissionDenied (exec_denied_reason (policy cfg))),
         audit_log x a (EvExec (ex_command req) None 0 False False
           (OpDenied (exec_denied_reason (policy cfg)))) w)"
  using assms by (auto simp: exec_handle_def Let_def)

theorem exec_refused_witness:
  "exec_handle (exec_sample_deps stuck_child) sample_exec
      (sample_config\<lparr>policy := WorkspaceAllowlistExec [''/ws''] [''git'']\<rparr>) sample_audit sample_world
    = Some (Inl (PermissionDenied ''command not in allowlist''),
        audit_log (exec_sample_deps stuck_child) sample_audit
          (EvExec ''ls'' None 0 False False (OpDenied ''command not in allowlist'')) sample_world)"
proof -
  have "split_whitespace ''ls'' = [''ls'']" by code_simp
  then have "\<not> exec_allowed (WorkspaceAllowlistExec [''/ws''] [''git'']) ''ls''"
    by (simp add: exec_bin_def file_name_def path_eval)
  then show ?thesis
    using exec_refused [of "sample_config\<lparr>policy := WorkspaceAllowlistExec [''/ws''] [''git'']\<rparr>" sample_exec]
    by (simp add: sample_exec_def exec_denied_reason_def)
qed

end
