(* ===== verification/Handlers.thy ===== *)
theory Handlers
  imports ListDir WriteFile Exec
begin

text \<open>
  \<^verbatim>\<open>membrane-daemon/src/handlers/mod.rs\<close> and \<^verbatim>\<open>ping.rs\<close>: the dispatch of a request to its
  handler, and what all handlers have in common.
\<close>

definition ping_handle :: "world \<Rightarrow> world" where
  "ping_handle w = w"

definition dispatch ::
    "'z exec_deps_scheme \<Rightarrow> Request \<Rightarrow> Config \<Rightarrow> Audit \<Rightarrow> world \<Rightarrow> (Response \<times> world) option" where
  "dispatch x req cfg a w =
     (case req of
        ReqReadFile r \<Rightarrow> Some (apfst RespReadFile (read_file_handle x r cfg a w))
      | ReqWriteFile r \<Rightarrow> Some (apfst RespWriteFile (write_file_handle x r cfg a w))
      | ReqListDir r \<Rightarrow> Some (apfst RespListDir (list_dir_handle x r cfg a w))
      | ReqExec r \<Rightarrow> map_option (apfst RespExec) (exec_handle x r cfg a w)
      | ReqPing \<Rightarrow> Some (RespPong, ping_handle w))"

section \<open>The shape of answers and events\<close>

fun answers :: "Request \<Rightarrow> Response \<Rightarrow> bool" where
  "answers (ReqReadFile _) (RespReadFile _) = True"
| "answers (ReqWriteFile _) (RespWriteFile _) = True"
| "answers (ReqListDir _) (RespListDir _) = True"
| "answers (ReqExec _) (RespExec _) = True"
| "answers ReqPing RespPong = True"
| "answers _ _ = False"

fun resp_ok :: "Response \<Rightarrow> bool" where
  "resp_ok (RespReadFile r) = is_ok r"
| "resp_ok (RespWriteFile r) = is_ok r"
| "resp_ok (RespListDir r) = is_ok r"
| "resp_ok (RespExec r) = is_ok r"
| "resp_ok RespPong = True"

text \<open>The event that records a request names its path or command.\<close>

fun records :: "Request \<Rightarrow> Event \<Rightarrow> bool" where
  "records (ReqReadFile r) (EvRead p _ _) = (p = rf_path r)"
| "records (ReqWriteFile r) (EvWrite p n c _) =
     (p = wf_path r \<and> n = word_of_nat (length (wf_data r)) \<and> c = (wf_if_mtime_matches r \<noteq> None))"
| "records (ReqListDir r) (EvList p _ _) = (p = ld_path r)"
| "records (ReqExec r) ev = exec_event (ex_command r) ev"
| "records _ _ = False"

fun_cases answers_ReadE: "answers (ReqReadFile r) resp"
fun_cases answers_PingE: "answers ReqPing resp"

text \<open>The world the request left before its event was logged.\<close>

fun acted :: "'z exec_deps_scheme \<Rightarrow> Config \<Rightarrow> Request \<Rightarrow> world \<Rightarrow> world \<Rightarrow> bool" where
  "acted x cfg (ReqWriteFile r) w v =
     (v = w \<or> v = snd (atomic_write x (wf_path r) (wf_data r) w))"
| "acted x cfg (ReqExec r) w v =
     (v = w \<or> v = snd (dep_spawn x (exec_command w (policy cfg) (ex_command r)) w))"
| "acted x cfg _ w v = (v = w)"

text \<open>
  Assumed of commands where well-formedness over a run is stated: a command may do anything
  to the files, but leaves a file system, with its root and the daemon's working directory.
\<close>

definition spawn_ok :: "'z exec_deps_scheme \<Rightarrow> bool" where
  "spawn_ok x \<longleftrightarrow> (\<forall>c w. wf_world w \<longrightarrow> wf_world (snd (dep_spawn x c w)))"

lemma acted_wf:
  "tempfile_ok x \<Longrightarrow> spawn_ok x \<Longrightarrow> wf_world w \<Longrightarrow> acted x cfg req w v \<Longrightarrow> wf_world v"
  using aw.op_wf [of x w] by (cases req) (auto simp: spawn_ok_def)

lemma dispatch_total: "\<not> (\<exists>r. req = ReqExec r) \<Longrightarrow> dispatch x req cfg a w \<noteq> None"
  by (cases req) (auto simp: dispatch_def)

lemma dispatch_logs:
  assumes "dispatch x req cfg a w = Some (resp, w')"
  shows "answers req resp \<and>
    (if req = ReqPing then w' = w
     else \<exists>ev v. w' = audit_log x a ev v \<and> records req ev \<and> acted x cfg req w v
       \<and> (ev_result ev = OpOk) = resp_ok resp)"
proof (cases req)
  case (ReqReadFile r)
  with assms read_file_log [of x r cfg a w] show ?thesis
    by (cases "read_file_handle x r cfg a w") (force simp: dispatch_def)
next
  case (ReqWriteFile r)
  with assms write_file_log [of x r cfg a w] show ?thesis
    by (cases "write_file_handle x r cfg a w") (force simp: dispatch_def write_event_def)
next
  case (ReqListDir r)
  with assms list_dir_log [of x r cfg a w] show ?thesis
    by (cases "list_dir_handle x r cfg a w") (force simp: dispatch_def)
next
  case (ReqExec r)
  with assms obtain er where "exec_handle x r cfg a w = Some (er, w')" and "resp = RespExec er"
    by (auto simp: dispatch_def)
  with exec_handle_log [of x r cfg a w er w'] ReqExec show ?thesis by auto
next
  case ReqPing
  with assms show ?thesis by (auto simp: dispatch_def ping_handle_def)
qed

lemma dispatch_wf [keeps_wf]:
  assumes "tempfile_ok x" and "spawn_ok x" and "wf_world w"
    and "dispatch x req cfg a w = Some (resp, w')"
  shows "wf_world w'"
  using dispatch_logs [OF assms(4)] acted_wf [OF assms(1,2,3), of cfg req] wf_audit_log [of _ x a] assms(3)
  by (cases "req = ReqPing") auto

section \<open>Answers do not depend on the logger\<close>

lemma read_file_fst: "fst (read_file_handle y r cfg a w) = fst (read_file_handle x r cfg a w)"
  by (simp add: read_file_handle_def Let_def split: sum.splits)

lemma list_dir_fst: "fst (list_dir_handle y r cfg a w) = fst (list_dir_handle x r cfg a w)"
  by (simp add: list_dir_handle_def Let_def split: sum.splits)

lemma atomic_write_cong:
  assumes "dep_tmp_new_in y = dep_tmp_new_in x" and "dep_tmp_persist y = dep_tmp_persist x"
    and "dep_tmp_drop y = dep_tmp_drop x"
  shows "atomic_write y = atomic_write x"
proof -
  have "replace_via_temp y = replace_via_temp x"
    unfolding replace_via_temp_def [abs_def] assms by (rule refl)
  then show ?thesis unfolding atomic_write_def [abs_def] by (rule arg_cong)
qed

lemma write_file_fst:
  assumes "atomic_write y = atomic_write x"
  shows "fst (write_file_handle y r cfg a w) = fst (write_file_handle x r cfg a w)"
  using assms by (simp add: write_file_handle_def Let_def split: sum.splits option.splits prod.splits)

lemma exec_fst:
  assumes "dep_spawn y = dep_spawn x"
  shows "map_option fst (exec_handle y r cfg a w) = map_option fst (exec_handle x r cfg a w)"
  using assms unfolding exec_handle_def Let_def
  by (simp split: sum.splits option.splits prod.splits waited.splits)

lemma audit_log_fails:
  assumes "\<forall>e. \<not> is_ok (dep_json_entry y e)"
  shows "fs_nodes (audit_log y a ev v) = fs_nodes v"
proof (cases "dep_json_entry y \<lparr>ts = now v, mode = mode_name a, event = ev\<rparr>")
  case (Inl e)
  then show ?thesis by (simp add: audit_log_def audit_write_def utc_now_def)
next
  case (Inr s)
  with assms have False by (metis is_ok_simps(1))
  then show ?thesis ..
qed

section \<open>Properties\<close>

text \<open>C8. Every request is answered by a response of its own kind and, a ping apart, is audited
  exactly once: the last thing done is to log one event that names the request's path or
  command and says \<open>Ok\<close> exactly when the answer is a success; before it, only the handler's own
  action touched the world.  The one exception: an allowed command that was started and either
  cannot be reaped or leaves one of its output pipes open for ever; it is neither answered nor
  audited.\<close>

theorem dispatch_audits_once:
  "case dispatch x req cfg a w of
     Some (resp, w') \<Rightarrow> answers req resp \<and>
       (if req = ReqPing then w' = w
        else \<exists>ev v. w' = audit_log x a ev v \<and> grows v w' \<and> records req ev \<and> acted x cfg req w v
          \<and> (ev_result ev = OpOk) = resp_ok resp)
   | None \<Rightarrow> \<exists>r ch v. req = ReqExec r \<and> exec_allowed (policy cfg) (ex_command r)
       \<and> dep_spawn x (exec_command w (policy cfg) (ex_command r)) w = (Inr ch, v) \<and> \<not> child_ends ch"
proof (cases "dispatch x req cfg a w")
  case None
  then obtain r where r: "req = ReqExec r" and n: "exec_handle x r cfg a w = None"
    by (cases req) (auto simp: dispatch_def split: prod.splits option.splits)
  from exec_handle_returns [of cfg r x w a] n None r show ?thesis by auto
next
  case (Some out)
  obtain resp w' where out: "out = (resp, w')" by fastforce
  with Some have run: "dispatch x req cfg a w = Some (resp, w')" by simp
  have "answers req resp \<and>
    (if req = ReqPing then w' = w
     else \<exists>ev v. w' = audit_log x a ev v \<and> grows v w' \<and> records req ev \<and> acted x cfg req w v
       \<and> (ev_result ev = OpOk) = resp_ok resp)"
    using dispatch_logs [OF run] grows_audit_log by metis
  with Some out show ?thesis by simp
qed

theorem dispatch_audits_once_witness:
  "(\<exists>resp w' ev. dispatch (exec_sample_deps sample_child) (ReqExec sample_exec) sample_config
      sample_audit sample_world = Some (resp, w')
    \<and> records (ReqExec sample_exec) ev \<and> ev_result ev = OpOk)
   \<and> \<not> child_ends stuck_child"
proof -
  obtain r w' where run: "dispatch (exec_sample_deps sample_child) (ReqExec sample_exec) sample_config
      sample_audit sample_world = Some (RespExec (Inr r), w')"
    using sample_exec_run by (auto simp: dispatch_def)
  have "\<not> child_ends stuck_child" by (simp add: child_ends_def stuck_child_def)
  with dispatch_audits_once [where x = "exec_sample_deps sample_child" and req = "ReqExec sample_exec"
      and cfg = sample_config and a = sample_audit and w = sample_world] run show ?thesis by auto
qed

text \<open>Read-only requests leave every file as it is: after a read or a listing, whatever its
  outcome, each node that existed is still there, unchanged or (the log) extended at its end.\<close>

theorem reads_change_nothing:
  assumes "req = ReqReadFile rr \<or> req = ReqListDir lr"
    and "dispatch x req cfg a w = Some (resp, w')"
  shows "grows w w' \<and> same_machine w w'"
  using dispatch_logs [OF assms(2)] assms(1) grows_audit_log same_machine_audit_log by auto

theorem reads_change_nothing_witness:
  "\<exists>resp w'. dispatch (exec_sample_deps sample_child) (ReqReadFile sample_read) sample_config
      sample_audit sample_world = Some (resp, w') \<and> grows sample_world w'"
proof -
  let ?req = "ReqReadFile sample_read"
  obtain resp w' where run: "dispatch (exec_sample_deps sample_child) ?req sample_config
      sample_audit sample_world = Some (resp, w')"
    using dispatch_total [of ?req] by fastforce
  from reads_change_nothing [OF _ this, of sample_read] run show ?thesis by blast
qed

text \<open>In read-only mode no request changes a file: whatever the request, each node that
  existed is still there, unchanged or extended at its end, and no command is started.\<close>

theorem readonly_changes_nothing:
  assumes "policy cfg = ReadOnly rs" and "dispatch x req cfg a w = Some (resp, w')"
  shows "grows w w' \<and> same_machine w w'
    \<and> (\<forall>r. req = ReqWriteFile r \<or> req = ReqExec e \<longrightarrow> \<not> resp_ok resp)"
proof (cases req)
  case (ReqReadFile r)
  with dispatch_logs [OF assms(2)] show ?thesis
    using grows_audit_log same_machine_audit_log by auto
next
  case (ReqWriteFile r)
  with assms show ?thesis
    using grows_audit_log same_machine_audit_log by (auto simp: dispatch_def write_file_handle_def)
next
  case (ReqListDir r)
  with dispatch_logs [OF assms(2)] show ?thesis
    using grows_audit_log same_machine_audit_log by auto
next
  case (ReqExec r)
  with assms show ?thesis
    using grows_audit_log same_machine_audit_log by (auto simp: dispatch_def exec_handle_def Let_def)
next
  case ReqPing
  with dispatch_logs [OF assms(2)] show ?thesis by auto
qed

theorem readonly_changes_nothing_witness:
  "\<exists>resp w'. dispatch (exec_sample_deps sample_child) (ReqWriteFile sample_write)
      (sample_config\<lparr>policy := ReadOnly [''/ws'']\<rparr>) sample_audit sample_world = Some (resp, w')
    \<and> grows sample_world w' \<and> \<not> resp_ok resp"
proof -
  let ?req = "ReqWriteFile sample_write"
  let ?cfg = "sample_config\<lparr>policy := ReadOnly [''/ws'']\<rparr>"
  obtain resp w' where run: "dispatch (exec_sample_deps sample_child) ?req ?cfg
      sample_audit sample_world = Some (resp, w')"
    using dispatch_total [of ?req] by fastforce
  have "policy ?cfg = ReadOnly [''/ws'']" by simp
  from readonly_changes_nothing [OF this run] run show ?thesis by blast
qed

text \<open>The audit log is not guaranteed: the answer to a request does not depend on whether its
  event could be recorded.  With a logger that always fails, every request is answered as with
  one that works, and a read, listing or refused request leaves every file, the log included,
  exactly as it was.\<close>

theorem audit_loss_is_silent:
  assumes fails: "\<forall>e. \<not> is_ok (dep_json_entry y e)"
    and same: "dep_tmp_new_in y = dep_tmp_new_in x" "dep_tmp_persist y = dep_tmp_persist x"
      "dep_tmp_drop y = dep_tmp_drop x" "dep_spawn y = dep_spawn x"
  shows "map_option fst (dispatch y req cfg a w) = map_option fst (dispatch x req cfg a w)
    \<and> (\<forall>resp w'. dispatch y req cfg a w = Some (resp, w') \<longrightarrow>
        (\<exists>v. acted y cfg req w v \<and> fs_nodes w' = fs_nodes v))"
proof (intro conjI allI impI)
  show "map_option fst (dispatch y req cfg a w) = map_option fst (dispatch x req cfg a w)"
  proof (cases req)
    case (ReqReadFile r)
    then show ?thesis using read_file_fst [of y r cfg a w x] by (simp add: dispatch_def)
  next
    case (ReqWriteFile r)
    then show ?thesis
      using write_file_fst [OF atomic_write_cong [OF same(1,2,3)], of r cfg a w]
      by (simp add: dispatch_def)
  next
    case (ReqListDir r)
    then show ?thesis using list_dir_fst [of y r cfg a w x] by (simp add: dispatch_def)
  next
    case (ReqExec r)
    have "map_option fst (map_option (apfst RespExec) q) = map_option RespExec (map_option fst q)"
      for q :: "((DaemonError + ExecResp) \<times> world) option" by (cases q) simp_all
    with ReqExec exec_fst [OF same(4), of r cfg a w] show ?thesis by (simp add: dispatch_def)
  next
    case ReqPing
    then show ?thesis by (simp add: dispatch_def)
  qed
  fix resp w' assume "dispatch y req cfg a w = Some (resp, w')"
  from dispatch_logs [OF this] show "\<exists>v. acted y cfg req w v \<and> fs_nodes w' = fs_nodes v"
    using audit_log_fails [OF fails] by (cases "req = ReqPing") auto
qed

theorem audit_loss_is_silent_witness:
  "\<exists>resp w'. dispatch ((exec_sample_deps sample_child)\<lparr>dep_json_entry := (\<lambda>e. Inl ''full'')\<rparr>)
      (ReqReadFile sample_read) sample_config sample_audit sample_world = Some (resp, w')
    \<and> resp = RespReadFile (Inr sample_read_resp) \<and> fs_nodes w' = sample_nodes"
proof -
  let ?x = "exec_sample_deps sample_child" and ?req = "ReqReadFile sample_read"
  let ?y = "?x\<lparr>dep_json_entry := (\<lambda>e. Inl ''full'')\<rparr>"
  obtain resp w' where run: "dispatch ?y ?req sample_config sample_audit sample_world = Some (resp, w')"
    using dispatch_total [of ?req] by fastforce
  have "resp = RespReadFile (Inr sample_read_resp)"
    using run sample_read_run read_file_fst [of ?y sample_read sample_config sample_audit sample_world sample_deps]
    by (auto simp: dispatch_def prod_eq_iff)
  moreover have "fs_nodes w' = sample_nodes"
    using audit_loss_is_silent [of ?y ?x ?req sample_config sample_audit sample_world] run by simp
  ultimately show ?thesis using run by blast
qed

end
