(* ===== verification/Rpc.thy ===== *)
theory Rpc
  imports Handlers
begin

text \<open>
  \<^verbatim>\<open>membrane-daemon/src/rpc.rs\<close>: the loop that reads request frames off a byte stream, in
  whatever pieces \<^verbatim>\<open>read\<close> returns, and answers each.  \<open>de\<close> and \<open>ser\<close> stand for
  \<^verbatim>\<open>bincode\<close>.  The input is the list of results of successive reads, after which the stream
  is at its end.  The output is what was written so far; a write may fail after some bytes,
  and a flush may fail.
\<close>

record sink =
  snk_write :: "bytes \<Rightarrow> bytes \<Rightarrow> (io_error \<times> nat) option"
  snk_flush :: "bytes \<Rightarrow> io_error option"

record codec =
  cd_de :: "bytes \<Rightarrow> string + Request"
  cd_ser :: "Response \<Rightarrow> string + bytes"

type_synonym served = "((io_error + unit) \<times> bytes \<times> world) option"

definition io_err :: "string \<Rightarrow> io_error" where
  "io_err e = IoErr EkOther e"

text \<open>Writing one answer: the frame, then a flush.\<close>

definition send_frame :: "sink \<Rightarrow> bytes \<Rightarrow> bytes \<Rightarrow> (io_error + unit) \<times> bytes" where
  "send_frame snk frame out =
     (case snk_write snk out frame of
        Some (e, n) \<Rightarrow> (Inl e, out @ take n frame)
      | None \<Rightarrow> (case snk_flush snk (out @ frame) of
                   Some e \<Rightarrow> (Inl e, out @ frame)
                 | None \<Rightarrow> (Inr (), out @ frame)))"

definition stream_ended :: "bytes \<Rightarrow> io_error + unit" where
  "stream_ended buf =
     (if buf = [] then Inr () else Inl (IoErr EkUnexpectedEof ''stream ended mid-frame''))"

lemma decode_consumes:
  "decode de buf = Inr (req, consumed) \<Longrightarrow> 0 < consumed \<and> consumed \<le> length buf"
  by (auto simp: decode_split_frame split: sum.splits dest!: split_frame_sound)

function serve ::
    "'z exec_deps_scheme \<Rightarrow> codec \<Rightarrow> sink \<Rightarrow> Config \<Rightarrow> Audit
      \<Rightarrow> (io_error + bytes) list \<Rightarrow> bytes \<Rightarrow> bytes \<Rightarrow> world \<Rightarrow> served" where
  "serve x cd snk cfg a inp buf out w =
     (case decode (cd_de cd) buf of
        Inr (req, consumed) \<Rightarrow>
          (case dispatch x req cfg a w of
             None \<Rightarrow> None
           | Some (resp, w1) \<Rightarrow>
               (case encode (cd_ser cd) resp of
                  Inl e \<Rightarrow> Some (Inl (io_err e), out, w1)
                | Inr frame \<Rightarrow>
                    (case send_frame snk frame out of
                       (Inl e, out1) \<Rightarrow> Some (Inl e, out1, w1)
                     | (Inr _, out1) \<Rightarrow> serve x cd snk cfg a inp (drop consumed buf) out1 w1)))
      | Inl (NeedMore _) \<Rightarrow>
          (case inp of
             [] \<Rightarrow> Some (stream_ended buf, out, w)
           | Inl e # _ \<Rightarrow> Some (Inl e, out, w)
           | Inr chunk # rest \<Rightarrow>
               if chunk = [] then Some (stream_ended buf, out, w)
               else serve x cd snk cfg a rest (buf @ chunk) out w)
      | Inl (Bincode msg) \<Rightarrow>
          Some (Inl (IoErr EkInvalidData (''frame decode error: '' @ msg)), out, w))"
  by pat_completeness auto
termination
  by (relation "measures [\<lambda>(x, cd, snk, cfg, a, inp, buf, out, w). length inp,
        \<lambda>(x, cd, snk, cfg, a, inp, buf, out, w). length buf]")
    (auto dest: decode_consumes)

declare serve.simps [simp del]

section \<open>The specification: answer a list of requests\<close>

fun answer_all ::
    "'z exec_deps_scheme \<Rightarrow> codec \<Rightarrow> sink \<Rightarrow> Config \<Rightarrow> Audit
      \<Rightarrow> Request list \<Rightarrow> (io_error + unit) \<Rightarrow> bytes \<Rightarrow> world \<Rightarrow> served" where
  "answer_all x cd snk cfg a [] final out w = Some (final, out, w)"
| "answer_all x cd snk cfg a (req # reqs) final out w =
     (case dispatch x req cfg a w of
        None \<Rightarrow> None
      | Some (resp, w1) \<Rightarrow>
          (case encode (cd_ser cd) resp of
             Inl e \<Rightarrow> Some (Inl (io_err e), out, w1)
           | Inr frame \<Rightarrow>
               (case send_frame snk frame out of
                  (Inl e, out1) \<Rightarrow> Some (Inl e, out1, w1)
                | (Inr _, out1) \<Rightarrow> answer_all x cd snk cfg a reqs final out1 w1)))"

section \<open>How the stream is cut into reads does not matter\<close>

lemma split_frame_more:
  assumes "split_frame buf = Inr (b, n)"
  shows "split_frame (buf @ later) = Inr (b, n)"
proof -
  from split_frame_sound [OF assms] have "frameable b" and t: "take n buf = frame_of b" by auto
  have "buf @ later = frame_of b @ (drop n buf @ later)" using t by (metis append.assoc append_take_drop_id)
  moreover have "n = length (frame_of b)" using split_frame_sound [OF assms] t by (metis length_take min.absorb2)
  ultimately show ?thesis using split_frame_complete [OF \<open>frameable b\<close>] by metis
qed

lemma decode_more:
  "decode de buf = Inr r \<Longrightarrow> decode de (buf @ later) = Inr r"
  "decode de buf = Inl (Bincode m) \<Longrightarrow> decode de (buf @ later) = Inl (Bincode m)"
  by (auto simp: decode_split_frame split_frame_more split: sum.splits)

lemma serve_chunking:
  "\<forall>c \<in> set chunks. c \<noteq> [] \<Longrightarrow> inp = List.map Inr chunks \<Longrightarrow>
    serve x cd snk cfg a inp buf out w = serve x cd snk cfg a [] (buf @ concat chunks) out w"
proof (induction x cd snk cfg a inp buf out w arbitrary: chunks rule: serve.induct)
  case (1 x cd snk cfg a inp buf out w)
  let ?all = "buf @ concat chunks"
  show ?case
  proof (cases "decode (cd_de cd) buf")
    case (Inl e)
    show ?thesis
    proof (cases e)
      case (NeedMore n)
      show ?thesis
      proof (cases chunks)
        case Nil
        with "1.prems" show ?thesis by simp
      next
        case (Cons c cs)
        with "1.prems" have inp: "inp = Inr c # List.map Inr cs" and c: "c \<noteq> []" by simp_all
        from Inl NeedMore c have "serve x cd snk cfg a inp buf out w
            = serve x cd snk cfg a (List.map Inr cs) (buf @ c) out w"
          unfolding inp by (subst serve.simps) simp
        also have "\<dots> = serve x cd snk cfg a [] ((buf @ c) @ concat cs) out w"
          using "1.IH"(1) [OF Inl NeedMore inp refl c, of cs] "1.prems"(1) Cons by simp
        finally show ?thesis using Cons by simp
      qed
    next
      case (Bincode m)
      with Inl decode_more(2) [of "cd_de cd" buf m "concat chunks"] show ?thesis
        by (simp add: serve.simps [of x cd snk cfg a _ buf] serve.simps [of x cd snk cfg a _ ?all])
    qed
  next
    case (Inr r)
    obtain req n where r: "r = (req, n)" by fastforce
    have drop: "drop n ?all = drop n buf @ concat chunks"
      using decode_consumes [of "cd_de cd" buf req n] Inr r by simp
    note dec = Inr [unfolded r]
    have dec': "decode (cd_de cd) ?all = Inr (req, n)" using dec by (rule decode_more(1))
    note step = serve.simps [of x cd snk cfg a _ buf] serve.simps [of x cd snk cfg a _ ?all]
    show ?thesis
    proof (cases "dispatch x req cfg a w")
      case None
      with dec dec' show ?thesis by (simp add: step)
    next
      case (Some rw)
      obtain resp w1 where rw: "rw = (resp, w1)" by fastforce
      show ?thesis
      proof (cases "encode (cd_ser cd) resp")
        case (Inl e)
        with dec dec' Some rw show ?thesis by (simp add: step)
      next
        case (Inr frame)
        obtain sent out1 where sent: "send_frame snk frame out = (sent, out1)" by fastforce
        show ?thesis
        proof (cases sent)
          case (Inl e)
          with dec dec' Some rw Inr sent show ?thesis by (simp add: step)
        next
          case (Inr u)
          from "1.IH"(2) [OF dec refl Some _ \<open>encode (cd_ser cd) resp = Inr frame\<close> sent [symmetric] Inr
              "1.prems"] rw
          have "serve x cd snk cfg a inp (drop n buf) out1 w1
            = serve x cd snk cfg a [] (drop n buf @ concat chunks) out1 w1" by simp
          with dec dec' Some rw \<open>encode (cd_ser cd) resp = Inr frame\<close> sent Inr drop
          show ?thesis by (simp add: step)
        qed
      qed
    qed
  qed
qed

section \<open>Serving a stream of frames\<close>

definition decodes :: "codec \<Rightarrow> bytes \<Rightarrow> Request \<Rightarrow> bool" where
  "decodes cd b r \<longleftrightarrow> frameable b \<and> cd_de cd b = Inr r"

lemma serve_frames:
  assumes fin: "\<And>out w. serve x cd snk cfg a [] rest out w = Some (final, out, w)"
  shows "list_all2 (decodes cd) bodies reqs \<Longrightarrow>
    serve x cd snk cfg a [] (wire_frames.stream bodies rest) out w
      = answer_all x cd snk cfg a reqs final out w"
proof (induction bodies reqs arbitrary: out w rule: list_all2_induct)
  case Nil
  then show ?case using fin by (simp add: wire_frames.stream_def)
next
  case (Cons b bs r rs)
  let ?s = "wire_frames.stream (b # bs) rest"
  have s: "?s = frame_of b @ wire_frames.stream bs rest" by (simp add: wire_frames.stream_def)
  have "decode (cd_de cd) ?s = Inr (r, length (frame_of b))"
    unfolding s using Cons.hyps(1) wire_frames.complete
    by (simp add: decodes_def decode_split_frame del: length_frame_of)
  moreover have "drop (length (frame_of b)) ?s = wire_frames.stream bs rest" unfolding s by simp
  ultimately show ?case
    using Cons.IH
    by (subst serve.simps) (simp split: option.splits prod.splits sum.splits del: length_frame_of)
qed

lemma serve_cut:
  assumes "wire_frames.cut rest"
  shows "serve x cd snk cfg a [] rest out w = Some (stream_ended rest, out, w)"
proof -
  have "\<exists>n. split_frame rest = Inl n"
  proof (cases "rest = []")
    case True
    then show ?thesis by (simp add: split_frame_def)
  next
    case False
    with assms show ?thesis using wire_frames.partial by (auto simp: wire_frames.cut_def)
  qed
  then show ?thesis by (subst serve.simps) (auto simp: decode_split_frame)
qed

lemma serve_bad_frame:
  assumes "frameable b" and "cd_de cd b = Inl e"
  shows "serve x cd snk cfg a [] (frame_of b @ junk) out w
    = Some (Inl (IoErr EkInvalidData (''frame decode error: '' @ e)), out, w)"
  by (subst serve.simps) (simp add: decode_split_frame wire_frames.complete assms)

text \<open>What was sent when everything was answered.\<close>

lemma send_frame_ok: "send_frame snk frame out = (Inr u, out') \<Longrightarrow> out' = out @ frame"
  by (auto simp: send_frame_def split: option.splits prod.splits)

lemma answer_all_ok:
  "answer_all x cd snk cfg a reqs (Inr ()) out w = Some (Inr (), out', w') \<Longrightarrow>
    \<exists>resps frames. list_all2 answers reqs resps
      \<and> list_all2 (\<lambda>r f. encode (cd_ser cd) r = Inr f) resps frames \<and> out' = out @ concat frames"
proof (induction reqs arbitrary: out w)
  case Nil
  then show ?case by (intro exI [of _ "[]"]) simp
next
  case (Cons req reqs)
  then obtain resp w1 frame out1 where d: "dispatch x req cfg a w = Some (resp, w1)"
    and f: "encode (cd_ser cd) resp = Inr frame"
    and s: "send_frame snk frame out = (Inr (), out1)"
    and rest: "answer_all x cd snk cfg a reqs (Inr ()) out1 w1 = Some (Inr (), out', w')"
    by (auto split: option.splits prod.splits sum.splits)
  from Cons.IH [OF rest] obtain resps frames where "list_all2 answers reqs resps"
    "list_all2 (\<lambda>r f. encode (cd_ser cd) r = Inr f) resps frames" "out' = out1 @ concat frames"
    by blast
  with d f send_frame_ok [OF s] dispatch_logs [OF d] show ?case
    by (intro exI [of _ "resp # resps"] exI [of _ "frame # frames"]) simp
qed

lemma serve_wf:
  assumes "tempfile_ok x" and "spawn_ok x"
  shows "wf_world w \<Longrightarrow> serve x cd snk cfg a inp buf out w = Some (r, out', w') \<Longrightarrow> wf_world w'"
  using assms
proof (induction x cd snk cfg a inp buf out w rule: serve.induct)
  case (1 x cd snk cfg a inp buf out w)
  show ?case
  proof (cases "decode (cd_de cd) buf")
    case (Inl e)
    then show ?thesis
      using "1.prems" "1.IH"(1) [OF Inl]
      by (auto simp: serve.simps [of x cd snk cfg a inp]
          split: DecodeError.splits list.splits sum.splits if_splits)
  next
    case (Inr rq)
    obtain req n where rq: "rq = (req, n)" by fastforce
    show ?thesis
    proof (cases "dispatch x req cfg a w")
      case None
      with Inr rq "1.prems" show ?thesis by (simp add: serve.simps [of x cd snk cfg a inp])
    next
      case (Some rw)
      obtain resp w1 where rw: "rw = (resp, w1)" by fastforce
      from dispatch_wf [OF "1.prems"(3,4,1) Some [unfolded rw]] have wf1: "wf_world w1" .
      show ?thesis
        using Inr rq Some rw wf1 "1.prems" "1.IH"(2) [OF Inr rq [symmetric] Some rw [symmetric]]
        by (auto simp: serve.simps [of x cd snk cfg a inp] split: sum.splits prod.splits)
    qed
  qed
qed

lemma serve_stream:
  assumes "\<forall>c \<in> set chunks. c \<noteq> []"
    and "concat chunks = concat (List.map frame_of bodies) @ rest"
    and "list_all2 (decodes cd) bodies reqs" and "wire_frames.cut rest"
  shows "serve x cd snk cfg a (List.map Inr chunks) [] out w
    = answer_all x cd snk cfg a reqs (stream_ended rest) out w"
proof -
  from serve_frames [OF serve_cut [OF assms(4)] assms(3)]
  have "serve x cd snk cfg a [] (concat chunks) out w
    = answer_all x cd snk cfg a reqs (stream_ended rest) out w"
    by (simp add: assms(2) wire_frames.stream_def)
  then show ?thesis using serve_chunking [OF assms(1) refl, of x cd snk cfg a "[]" out w] by simp
qed

section \<open>Properties\<close>

text \<open>C7. The server depends on the bytes of the stream only, not on how \<^verbatim>\<open>read\<close> cuts them: for
  requests \<open>reqs\<close> sent as frames and arriving in any nonempty pieces, it answers them one by one
  in order, as the specification \<open>answer_all\<close>, and then ends cleanly if the stream ended at a
  frame boundary, and with \<open>UnexpectedEof\<close> if it ended inside a frame.\<close>

theorem serve_answers_stream:
  assumes "\<forall>c \<in> set chunks. c \<noteq> []"
    and "concat chunks = concat (List.map frame_of bodies) @ rest"
    and "list_all2 (decodes cd) bodies reqs"
    and "rest = [] \<or> (\<exists>b. frameable b \<and> strict_prefix rest (frame_of b))"
  shows "serve x cd snk cfg a (List.map Inr chunks) [] out w
    = answer_all x cd snk cfg a reqs (stream_ended rest) out w"
  using serve_stream [OF assms(1,2,3)] assms(4) by (simp add: wire_frames.cut_def)

definition sample_codec :: codec where
  "sample_codec = \<lparr>cd_de = (\<lambda>b. if b = [7] then Inr ReqPing else Inl ''bad''),
     cd_ser = (\<lambda>r. Inr [8])\<rparr>"

definition sample_sink :: sink where
  "sample_sink = \<lparr>snk_write = (\<lambda>out f. None), snk_flush = (\<lambda>out. None)\<rparr>"

theorem serve_answers_stream_witness:
  "serve (exec_sample_deps sample_child) sample_codec sample_sink sample_config sample_audit
      (List.map Inr [[1, 0, 0], [0, 7, 1, 0], [0, 0, 7, 1]]) [] [] sample_world
    = Some (Inl (IoErr EkUnexpectedEof ''stream ended mid-frame''),
        [1, 0, 0, 0, 8, 1, 0, 0, 0, 8], sample_world)"
proof -
  have f: "frame_of [7] = [1, 0, 0, 0, 7]" and g: "frame_of [8] = [1, 0, 0, 0, 8]"
    by (simp_all add: frame_of_def to_le_bytes_def)
  have "list_all2 (decodes sample_codec) [[7], [7]] [ReqPing, ReqPing]"
    by (simp add: decodes_def frameable_def sample_codec_def)
  moreover have "frameable [7] \<and> strict_prefix [1] (frame_of [7])"
    by (simp add: frameable_def f strict_prefix_def)
  ultimately have "serve (exec_sample_deps sample_child) sample_codec sample_sink sample_config
      sample_audit (List.map Inr [[1, 0, 0], [0, 7, 1, 0], [0, 0, 7, 1]]) [] [] sample_world
    = answer_all (exec_sample_deps sample_child) sample_codec sample_sink sample_config
        sample_audit [ReqPing, ReqPing] (stream_ended [1]) [] sample_world"
    by (intro serve_answers_stream [where bodies = "[[7], [7]]"]) (auto simp: f)
  then show ?thesis
    by (simp add: dispatch_def ping_handle_def encode_frame sample_codec_def g send_frame_def
        sample_sink_def stream_ended_def)
qed

text \<open>When a stream of whole frames is served to its end, what was written is exactly one
  frame per request, in order, each the encoding of a response of the request's own kind.\<close>

theorem serve_one_answer_each:
  assumes "\<forall>c \<in> set chunks. c \<noteq> []" and "concat chunks = concat (List.map frame_of bodies)"
    and "list_all2 (decodes cd) bodies reqs"
    and "serve x cd snk cfg a (List.map Inr chunks) [] out w = Some (Inr (), out', w')"
  shows "\<exists>resps frames. list_all2 answers reqs resps
    \<and> list_all2 (\<lambda>r f. encode (cd_ser cd) r = Inr f) resps frames \<and> out' = out @ concat frames"
proof (rule answer_all_ok)
  from serve_stream [OF assms(1) _ assms(3), of "[]" x snk cfg a out w] assms(2,4)
  show "answer_all x cd snk cfg a reqs (Inr ()) out w = Some (Inr (), out', w')"
    by (simp add: stream_ended_def wire_frames.cut_def)
qed

theorem serve_one_answer_each_witness:
  "\<exists>resps frames. list_all2 answers [ReqPing] resps
    \<and> list_all2 (\<lambda>r f. encode (cd_ser sample_codec) r = Inr f) resps frames
    \<and> [1, 0, 0, 0, 8] = concat frames"
proof -
  have f: "frame_of [7] = [1, 0, 0, 0, 7]" and g: "frame_of [8] = [1, 0, 0, 0, 8]"
    by (simp_all add: frame_of_def to_le_bytes_def)
  have dec: "list_all2 (decodes sample_codec) [[7]] [ReqPing]"
    by (simp add: decodes_def frameable_def sample_codec_def)
  let ?chunks = "[[1], [0, 0, 0, 7]]"
  have "serve (exec_sample_deps sample_child) sample_codec sample_sink sample_config sample_audit
      (List.map Inr ?chunks) [] [] sample_world = Some (Inr (), [1, 0, 0, 0, 8], sample_world)"
    by (simp add: serve.simps decode_def from_le_bytes_def sample_codec_def dispatch_def
        ping_handle_def encode_frame g send_frame_def sample_sink_def stream_ended_def)
  from serve_one_answer_each [OF _ _ dec this] show ?thesis by (simp add: f)
qed

text \<open>A frame whose body does not deserialise ends the connection with \<open>InvalidData\<close>: the
  requests before it are answered, nothing is answered for it, and no byte after it is looked
  at.\<close>

theorem serve_stops_at_bad_frame:
  assumes "\<forall>c \<in> set chunks. c \<noteq> []"
    and "concat chunks = concat (List.map frame_of bodies) @ frame_of bad @ junk"
    and "list_all2 (decodes cd) bodies reqs" and "frameable bad" and "cd_de cd bad = Inl e"
  shows "serve x cd snk cfg a (List.map Inr chunks) [] out w
    = answer_all x cd snk cfg a reqs
        (Inl (IoErr EkInvalidData (''frame decode error: '' @ e))) out w"
proof -
  from serve_frames [OF serve_bad_frame [OF assms(4,5), of x snk cfg a junk] assms(3)]
  have "serve x cd snk cfg a [] (concat chunks) out w
    = answer_all x cd snk cfg a reqs
        (Inl (IoErr EkInvalidData (''frame decode error: '' @ e))) out w"
    by (simp add: assms(2) wire_frames.stream_def)
  then show ?thesis using serve_chunking [OF assms(1) refl, of x cd snk cfg a "[]" out w] by simp
qed

theorem serve_stops_at_bad_frame_witness:
  "serve (exec_sample_deps sample_child) sample_codec sample_sink sample_config sample_audit
      (List.map Inr [[1, 0, 0, 0, 6, 1, 0, 0, 0, 7]]) [] [] sample_world
    = Some (Inl (IoErr EkInvalidData ''frame decode error: bad''), [], sample_world)"
proof -
  have "frame_of [6] = [1, 0, 0, 0, 6]" by (simp add: frame_of_def to_le_bytes_def)
  then show ?thesis
    using serve_stops_at_bad_frame [of "[[1, 0, 0, 0, 6, 1, 0, 0, 0, 7]]" "[]" "[6]" "[1, 0, 0, 0, 7]"
        sample_codec "[]" "''bad''" "exec_sample_deps sample_child" sample_sink sample_config
        sample_audit "[]" sample_world]
    by (simp add: frameable_def sample_codec_def)
qed

text \<open>Well-formedness of the file system is an invariant of the whole server: whatever is
  received, in whatever pieces, and however reads, writes, logging and commands fail, serving
  leaves a tree of properly named nodes with directories above them, provided commands do.\<close>

theorem serve_keeps_wf:
  assumes "tempfile_ok x" and "spawn_ok x" and "wf_world w"
    and "serve x cd snk cfg a inp [] [] w = Some (r, out, w')"
  shows "wf_world w'"
  by (rule serve_wf [OF assms])

theorem serve_keeps_wf_witness:
  "\<exists>r out w'. serve (exec_sample_deps sample_child) sample_codec sample_sink sample_config
      sample_audit [Inr [1, 0, 0, 0, 7]] [] [] sample_world = Some (r, out, w') \<and> wf_world w'"
proof -
  have run: "serve (exec_sample_deps sample_child) sample_codec sample_sink sample_config
      sample_audit [Inr [1, 0, 0, 0, 7]] [] [] sample_world
    = Some (Inr (), frame_of [8], sample_world)"
    by (simp add: serve.simps decode_def from_le_bytes_def sample_codec_def dispatch_def
        ping_handle_def encode_frame send_frame_def sample_sink_def stream_ended_def)
  have "spawn_ok (exec_sample_deps sample_child)" by (simp add: spawn_ok_def)
  from serve_keeps_wf [OF tempfile_ok_exec_sample this wf_sample run]
  show ?thesis using run by (intro exI conjI)
qed

text \<open>C14. The server always returns when commands do: if every command that is started can be reaped
  once killed and its pipes come to an end, or if the policy lets none be started, then whatever
  bytes arrive in whatever pieces, and whatever fails, serving comes to an end.\<close>

theorem serve_returns:
  assumes "(\<forall>s. \<not> exec_allowed (policy cfg) s)
    \<or> (\<forall>c v ch v'. dep_spawn x c v = (Inr ch, v') \<longrightarrow> child_ends ch)"
  shows "\<exists>r out' w'. serve x cd snk cfg a inp buf out w = Some (r, out', w')"
proof -
  have "exec_handle x r cfg a v \<noteq> None" for r v
    using assms exec_handle_returns [of cfg r x v a] by (cases "exec_allowed (policy cfg) (ex_command r)") auto
  then have d: "dispatch x req cfg a v \<noteq> None" for req v
    by (cases req) (auto simp: dispatch_def)
  show ?thesis
    using d
  proof (induction x cd snk cfg a inp buf out w rule: serve.induct)
    case (1 x cd snk cfg a inp buf out w)
    then show ?case
      by (subst serve.simps, auto split: sum.splits DecodeError.splits list.splits option.splits prod.splits)
        (metis option.distinct(1))+
  qed
qed

theorem serve_returns_witness:
  "\<exists>r out w'. serve (exec_sample_deps stuck_child) sample_codec sample_sink
      (sample_config\<lparr>policy := ReadOnly [''/ws'']\<rparr>) sample_audit [Inr [1, 0, 0, 0, 7]] [] [] sample_world
    = Some (r, out, w')"
proof -
  have "\<forall>s. \<not> exec_allowed (policy (sample_config\<lparr>policy := ReadOnly [''/ws'']\<rparr>)) s" by simp
  then show ?thesis using serve_returns by blast
qed

end
