(* ===== verification/Tunnel.thy ===== *)
theory Tunnel
  imports Rpc
begin

unbundle bit_operations_syntax

text \<open>
  \<^verbatim>\<open>membrane-daemon/src/tunnel.rs\<close> as built for production (without the feature
  \<^verbatim>\<open>dev-cert\<close>): the checks before dialling, the pinned certificate verifier, endpoint
  parsing, the redial loop with its backoff, and the handling of one stream.  Parameters:
  BLAKE3 (\<open>dep_blake3\<close>), PEM parsing (\<open>dep_pem_certs\<close>, \<open>dep_pem_key\<close>), the building of the
  TLS configuration (\<open>dep_tls_build\<close>) and its use for QUIC (\<open>dep_quic_crypto\<close>); what the network does is data (\<open>dial\<close>, the bytes a
  stream delivers).  Errors are the texts an \<^verbatim>\<open>anyhow\<close> error displays.
\<close>

record tunnel_deps = exec_deps +
  dep_blake3 :: "bytes \<Rightarrow> bytes"
  dep_pem_certs :: "bytes \<Rightarrow> string + bytes list"
  dep_pem_key :: "bytes \<Rightarrow> string + bytes option"
  dep_tls_build :: "bytes list \<Rightarrow> bytes \<Rightarrow> string + unit"
  dep_quic_crypto :: "bytes list \<Rightarrow> bytes \<Rightarrow> string + unit"

section \<open>Hexadecimal\<close>

definition hex_nibble :: "u8 \<Rightarrow> u8 option" where
  "hex_nibble b =
     (if 48 \<le> b \<and> b \<le> 57 then Some (b - 48)
      else if 97 \<le> b \<and> b \<le> 102 then Some (10 + b - 97)
      else if 65 \<le> b \<and> b \<le> 70 then Some (10 + b - 65)
      else None)"

fun hex_pairs :: "bytes \<Rightarrow> bytes option" where
  "hex_pairs (a # b # rest) =
     (case hex_nibble a of
        None \<Rightarrow> None
      | Some hi \<Rightarrow>
          (case hex_nibble b of
             None \<Rightarrow> None
           | Some lo \<Rightarrow> map_option ((#) (push_bit 4 hi OR lo)) (hex_pairs rest)))"
| "hex_pairs _ = Some []"

definition hex_decode :: "bytes \<Rightarrow> bytes option" where
  "hex_decode s =
     (case from_utf8 s of
        None \<Rightarrow> None
      | Some t \<Rightarrow>
          (let u = trim t in
           if length u mod 2 \<noteq> 0 then None else hex_pairs (as_bytes u)))"

section \<open>The certificate verifier\<close>

datatype SignatureScheme =
    ECDSA_NISTP256_SHA256 | ECDSA_NISTP384_SHA384
  | RSA_PSS_SHA256 | RSA_PSS_SHA384 | RSA_PSS_SHA512
  | RSA_PKCS1_SHA256 | RSA_PKCS1_SHA384 | RSA_PKCS1_SHA512
  | ED25519

definition supported_schemes :: "SignatureScheme list" where
  "supported_schemes =
     [ECDSA_NISTP256_SHA256, ECDSA_NISTP384_SHA384,
      RSA_PSS_SHA256, RSA_PSS_SHA384, RSA_PSS_SHA512,
      RSA_PKCS1_SHA256, RSA_PKCS1_SHA384, RSA_PKCS1_SHA512,
      ED25519]"

record PinnedVerifier =
  pin :: bytes

definition pin_hash :: "'z tunnel_deps_scheme \<Rightarrow> bytes \<Rightarrow> bytes" where
  "pin_hash x data = dep_blake3 x data"

definition verify_server_cert ::
    "'z tunnel_deps_scheme \<Rightarrow> PinnedVerifier \<Rightarrow> bytes \<Rightarrow> string + unit" where
  "verify_server_cert x v end_entity =
     (let hash = pin_hash x end_entity;
          pin_bytes = (case hex_decode (pin v) of Some b \<Rightarrow> b | None \<Rightarrow> pin v)
      in if hash = pin_bytes then Inr ()
         else Inl (''cloud cert pin mismatch: got '' @ show_nat (length hash)
                @ '' bytes, expected '' @ show_nat (length pin_bytes) @ '' bytes''))"

text \<open>The signature checks: message, certificate and signature are ignored.\<close>

definition verify_tls12_signature :: "PinnedVerifier \<Rightarrow> bytes \<Rightarrow> bytes \<Rightarrow> bytes \<Rightarrow> string + unit" where
  "verify_tls12_signature v msg cert sig = Inr ()"

definition verify_tls13_signature :: "PinnedVerifier \<Rightarrow> bytes \<Rightarrow> bytes \<Rightarrow> bytes \<Rightarrow> string + unit" where
  "verify_tls13_signature v msg cert sig = Inr ()"

text \<open>
  What a TLS 1.3 client asks of its verifier before it trusts a server: the certificate, and
  the signature over the handshake that proves possession of the certificate's key.
\<close>

definition trusts_server ::
    "'z tunnel_deps_scheme \<Rightarrow> PinnedVerifier \<Rightarrow> bytes \<Rightarrow> bytes \<Rightarrow> bytes \<Rightarrow> bool" where
  "trusts_server x v cert msg sig \<longleftrightarrow>
     is_ok (verify_server_cert x v cert) \<and> is_ok (verify_tls13_signature v msg cert sig)"

section \<open>The endpoint\<close>

definition parse_endpoint :: "string \<Rightarrow> string + string \<times> u16" where
  "parse_endpoint ep =
     (let stripped = (case strip_prefix_str ''https://'' ep of
              Some s \<Rightarrow> s
            | None \<Rightarrow> (case strip_prefix_str ''quic://'' ep of Some s \<Rightarrow> s | None \<Rightarrow> ep))
      in case rsplit_once CHR '':'' stripped of
           Some (h, p) \<Rightarrow> (case parse_u16 p of None \<Rightarrow> Inl ''port'' | Some port \<Rightarrow> Inr (h, port))
         | None \<Rightarrow> Inr (stripped, 443))"

text \<open>\<open>look\<close> is the system's resolver; the first address it yields is taken.\<close>

definition resolve :: "(string \<Rightarrow> u16 \<Rightarrow> string + 'addr list) \<Rightarrow> string \<Rightarrow> u16 \<Rightarrow> string + 'addr" where
  "resolve look host port =
     (case look host port of
        Inl e \<Rightarrow> Inl e
      | Inr [] \<Rightarrow> Inl (''no addresses for '' @ host @ '':'' @ show_nat (unat port))
      | Inr (addr # others) \<Rightarrow> Inr addr)"

section \<open>Before dialling\<close>

record ClientConfig =
  cc_certs :: "bytes list"
  cc_key :: bytes
  cc_verifier :: PinnedVerifier
  cc_max_idle_secs :: nat
  cc_keep_alive_secs :: nat

definition load_certs :: "'z tunnel_deps_scheme \<Rightarrow> world \<Rightarrow> string \<Rightarrow> string + bytes list" where
  "load_certs x w path =
     (case fs_read w path of
        Inl e \<Rightarrow> Inl (io_to_string e)
      | Inr d \<Rightarrow> dep_pem_certs x d)"

definition load_key :: "'z tunnel_deps_scheme \<Rightarrow> world \<Rightarrow> string \<Rightarrow> string + bytes" where
  "load_key x w path =
     (case fs_read w path of
        Inl e \<Rightarrow> Inl (io_to_string e)
      | Inr d \<Rightarrow>
          (case dep_pem_key x d of
             Inl e \<Rightarrow> Inl e
           | Inr None \<Rightarrow> Inl (''no private key in '' @ path)
           | Inr (Some k) \<Rightarrow> Inr k))"

definition em_dash :: string where
  "em_dash = [CHR 0xE2, CHR 0x80, CHR 0x94]"

definition build_client_config ::
    "'z tunnel_deps_scheme \<Rightarrow> world \<Rightarrow> string \<Rightarrow> string \<Rightarrow> bytes option \<Rightarrow> string + ClientConfig" where
  "build_client_config x w certp keyp cloud_pin =
     (case load_certs x w certp of
        Inl e \<Rightarrow> Inl ''load daemon cert''
      | Inr certs \<Rightarrow>
          (case load_key x w keyp of
             Inl e \<Rightarrow> Inl ''load daemon key''
           | Inr key \<Rightarrow>
               (case cloud_pin of
                  None \<Rightarrow> Inl (''cloud pin missing '' @ em_dash @ '' daemon must be paired before connecting'')
                | Some p \<Rightarrow>
                    (case dep_tls_build x certs key of
                       Inl e \<Rightarrow> Inl ''install client auth cert''
                     | Inr _ \<Rightarrow>
                         (case dep_quic_crypto x certs key of
                            Inl e \<Rightarrow> Inl ''rustls -> quinn crypto''
                          | Inr _ \<Rightarrow>
                              Inr \<lparr>cc_certs = certs, cc_key = key, cc_verifier = \<lparr>pin = p\<rparr>,
                                   cc_max_idle_secs = 300, cc_keep_alive_secs = 60\<rparr>)))))"

definition unpaired_error :: "string \<Rightarrow> string \<Rightarrow> string" where
  "unpaired_error certp keyp =
     ''daemon not paired: missing cert at '' @ certp @ '' or key at '' @ keyp
       @ ''. Run `membrane-daemon pair` to generate a CSR, send it to your operator, ''
       @ ''then run `membrane-daemon pair --token <T>` to install the returned token.''"

definition tunnel_setup :: "'z tunnel_deps_scheme \<Rightarrow> world \<Rightarrow> string + ClientConfig" where
  "tunnel_setup x w =
     (let certp = cert_path x (env_vars w);
          keyp = key_path x (env_vars w);
          pinp = cloud_pin_path x (env_vars w)
      in
      if \<not> path_exists w certp \<or> \<not> path_exists w keyp then
        Inl (unpaired_error certp keyp)
      else if \<not> path_exists w pinp then
        Inl (''daemon not paired: cloud pin missing at '' @ pinp
          @ ''. A valid pairing token installs this. If you have a token, ''
          @ ''run `membrane-daemon pair --token <T>`.'')
      else
       (case (if path_exists w pinp then map_sum io_to_string Some (fs_read w pinp) else Inr None) of
          Inl e \<Rightarrow> Inl ''read cloud pin''
        | Inr cloud_pin \<Rightarrow> build_client_config x w certp keyp cloud_pin))"

section \<open>The redial loop\<close>

text \<open>
  One turn of the loop, driven by what the network did: \<open>resolve\<close> failed; the
  connection could not be set up or failed; or it stood, to \<open>addr\<close>, and ended, with an error
  or not.  \<open>slept\<close> collects the seconds slept, newest first.
\<close>

datatype dial =
    ResolveFailed string
  | SetupFailed string
  | ConnectFailed string
  | Served string "string option"

record dialer =
  backoff_secs :: u64
  slept :: "u64 list"
  dl_world :: world

definition dialer_start :: "world \<Rightarrow> dialer" where
  "dialer_start w = \<lparr>backoff_secs = 1, slept = [], dl_world = w\<rparr>"

definition back_off :: "'z audit_deps_scheme \<Rightarrow> Audit \<Rightarrow> string \<Rightarrow> dialer \<Rightarrow> dialer" where
  "back_off x a e s =
     s\<lparr>dl_world := audit_log x a (EvLifecycle ''connect_failed'' e) (dl_world s),
       slept := backoff_secs s # slept s,
       backoff_secs := min (backoff_secs s * 2) 60\<rparr>"

definition redial ::
    "'z audit_deps_scheme \<Rightarrow> Config \<Rightarrow> Audit \<Rightarrow> dial \<Rightarrow> dialer \<Rightarrow> string + dialer" where
  "redial x cfg a d s =
     (case parse_endpoint (endpoint cfg) of
        Inl e \<Rightarrow> Inl e
      | Inr (host, port) \<Rightarrow>
          (case d of
             ResolveFailed e \<Rightarrow> Inl (''resolve '' @ host @ '':'' @ show_nat (unat port))
           | SetupFailed e \<Rightarrow> Inr (back_off x a e s)
           | ConnectFailed e \<Rightarrow> Inr (back_off x a e s)
           | Served addr ended \<Rightarrow>
               (let w1 = audit_log x a (EvLifecycle ''connected'' (''remote='' @ addr)) (dl_world s)
                in Inr (s\<lparr>backoff_secs := 1,
                          dl_world := (case ended of
                              None \<Rightarrow> w1
                            | Some e \<Rightarrow> audit_log x a (EvLifecycle ''disconnected'' e) w1)\<rparr>))))"

text \<open>How \<^verbatim>\<open>serve_streams\<close> ends a connection: a close by the peer is not an error.\<close>

datatype ConnectionError = ApplicationClosed | ConnectionClosed | OtherConnectionError string

fun streams_end :: "ConnectionError \<Rightarrow> string option" where
  "streams_end ApplicationClosed = None"
| "streams_end ConnectionClosed = None"
| "streams_end (OtherConnectionError e) = Some e"

text \<open>The states the loop passes through, from its start.\<close>

inductive dials :: "'z audit_deps_scheme \<Rightarrow> Config \<Rightarrow> Audit \<Rightarrow> world \<Rightarrow> dial list \<Rightarrow> dialer \<Rightarrow> bool"
  for x cfg a w where
  start: "dials x cfg a w [] (dialer_start w)"
| turn: "dials x cfg a w ds s \<Longrightarrow> redial x cfg a d s = Inr s' \<Longrightarrow> dials x cfg a w (ds @ [d]) s'"

inductive_cases dials_snocE: "dials x cfg a w (ds @ [d]) s"

section \<open>One stream\<close>

definition max_request :: nat where
  "max_request = 64 * 1024 * 1024"

text \<open>
  \<open>recv\<close> is what the stream will deliver and \<open>recv_end\<close> the error \<^verbatim>\<open>read_exact\<close> reports when
  it ends sooner; \<open>st_write\<close> and \<open>st_finish\<close> are the outcomes of sending.
\<close>

record bi_stream =
  recv :: bytes
  recv_end :: string
  st_write :: "bytes \<Rightarrow> string option"
  st_finish :: "string option"

definition read_exact :: "bi_stream \<Rightarrow> nat \<Rightarrow> string + bytes \<times> bi_stream" where
  "read_exact st n =
     (if length (recv st) < n then Inl (recv_end st)
      else Inr (take n (recv st), st\<lparr>recv := drop n (recv st)\<rparr>))"

definition handle_stream ::
    "'z exec_deps_scheme \<Rightarrow> codec \<Rightarrow> bi_stream \<Rightarrow> Config \<Rightarrow> Audit \<Rightarrow> world
      \<Rightarrow> ((string + unit) \<times> bytes \<times> world) option" where
  "handle_stream x cd st cfg a w =
     (case read_exact st 4 of
        Inl e \<Rightarrow> Some (Inl (''read length prefix: '' @ e), [], w)
      | Inr (len_buf, st1) \<Rightarrow>
          (let len = unat (from_le_bytes len_buf) in
           if len > max_request then
             Some (Inl (''request too large: '' @ show_nat len @ '' bytes''), [], w)
           else
            (case read_exact st1 len of
               Inl e \<Rightarrow> Some (Inl (''read body: '' @ e), [], w)
             | Inr (body, st2) \<Rightarrow>
                 (case cd_de cd body of
                    Inl e \<Rightarrow> Some (Inl ''decode request'', [], w)
                  | Inr req \<Rightarrow>
                      (case dispatch x req cfg a w of
                         None \<Rightarrow> None
                       | Some (resp, w1) \<Rightarrow>
                           (case encode (cd_ser cd) resp of
                              Inl e \<Rightarrow> Some (Inl ''encode response'', [], w1)
                            | Inr frame \<Rightarrow>
                                (case st_write st2 frame of
                                   Some e \<Rightarrow> Some (Inl (''write response: '' @ e), [], w1)
                                 | None \<Rightarrow>
                                     (case st_finish st2 of
                                        Some e \<Rightarrow> Some (Inl ''finish send stream'', frame, w1)
                                      | None \<Rightarrow> Some (Inr (), frame, w1)))))))))"

section \<open>Lemmas\<close>

lemma hex_pairs_length: "hex_pairs s = Some b \<Longrightarrow> length b = length s div 2"
  by (induction s arbitrary: b rule: hex_pairs.induct) (auto split: option.splits)

lemma redial_backoff:
  "redial x cfg a d s = Inr s' \<Longrightarrow>
    backoff_secs s' = (case d of Served _ _ \<Rightarrow> 1 | _ \<Rightarrow> min (backoff_secs s * 2) 60)
    \<and> slept s' = (case d of Served _ _ \<Rightarrow> slept s | _ \<Rightarrow> backoff_secs s # slept s)"
  by (auto simp: redial_def back_off_def Let_def split: sum.splits dial.splits)

text \<open>The number of failed attempts since the start or the last connection.\<close>

definition failures :: "dial list \<Rightarrow> nat" where
  "failures ds = length (takeWhile (\<lambda>d. case d of Served _ _ \<Rightarrow> False | _ \<Rightarrow> True) (rev ds))"

definition capped_power :: "nat \<Rightarrow> u64" where
  "capped_power k = (if k < 6 then word_of_nat (2 ^ k) else 60)"

lemma capped_power_Suc: "min (capped_power k * 2) 60 = capped_power (Suc k)"
proof (cases "k < 6")
  case True
  then have "k \<in> {0, 1, 2, 3, 4, 5}" by auto
  then show ?thesis by (auto simp: capped_power_def)
next
  case False
  then show ?thesis by (simp add: capped_power_def)
qed

lemma failures_snoc:
  "failures (ds @ [d]) = (case d of Served _ _ \<Rightarrow> 0 | _ \<Rightarrow> Suc (failures ds))"
  by (simp add: failures_def split: dial.splits)

lemma dials_backoff: "dials x cfg a w ds s \<Longrightarrow> backoff_secs s = capped_power (failures ds)"
proof (induction rule: dials.induct)
  case start
  then show ?case by (simp add: dialer_start_def failures_def capped_power_def)
next
  case (turn ds s d s')
  then show ?case
    using redial_backoff [OF turn.hyps(2)] capped_power_Suc [of "failures ds"]
    by (auto simp: failures_snoc capped_power_def split: dial.splits)
qed

lemma capped_power_range: "1 \<le> capped_power k \<and> capped_power k \<le> 60"
proof (cases "k < 6")
  case True
  then have "k \<in> {0, 1, 2, 3, 4, 5}" by auto
  then show ?thesis by (auto simp: capped_power_def)
qed (simp add: capped_power_def)

lemma capped_power_min: "unat (capped_power k) = min (2 ^ k) 60"
proof (cases "k < 6")
  case True
  then have "k \<in> {0, 1, 2, 3, 4, 5}" by auto
  then show ?thesis by (auto simp: capped_power_def)
next
  case False
  then have "(2 :: nat) ^ 6 \<le> 2 ^ k" by (intro power_increasing) simp_all
  with False show ?thesis by (simp add: capped_power_def)
qed

lemma dials_slept:
  "dials x cfg a w ds s \<Longrightarrow> \<forall>b \<in> set (slept s). 1 \<le> b \<and> b \<le> 60"
proof (induction rule: dials.induct)
  case start
  then show ?case by (simp add: dialer_start_def)
next
  case (turn ds s d s')
  then show ?case
    using redial_backoff [OF turn.hyps(2)] dials_backoff [OF turn.hyps(1)]
      capped_power_range [of "failures ds"]
    by (auto split: dial.splits)
qed

lemma strip_prefix_append [simp]: "strip_prefix_str p (p @ s) = Some s"
  by (simp add: strip_prefix_str_def)

lemma port_no_colon: "CHR '':'' \<notin> set (show_nat n)"
  by (rule show_nat_no_char) simp

lemma no_scheme:
  assumes "CHR '':'' \<notin> set host" and "s = [] \<or> (\<exists>n. s = CHR '':'' # show_nat n)"
  shows "strip_prefix_str (p @ ''://'') (host @ s) = None"
proof -
  have "\<not> prefix (p @ ''://'') (host @ s)"
  proof
    assume "prefix (p @ ''://'') (host @ s)"
    then obtain r where r: "host @ s = p @ CHR '':'' # ''//'' @ r" by (auto simp: prefix_def)
    then have "CHR '':'' \<in> set s" using assms(1) by (metis Un_iff in_set_conv_decomp set_append)
    with assms(2) obtain n where n: "s = CHR '':'' # show_nat n" by auto
    from r n have "host @ CHR '':'' # show_nat n = p @ CHR '':'' # ''//'' @ r" by simp
    then have "show_nat n = ''//'' @ r"
      using append_Cons_eq_iff [OF assms(1) port_no_colon, of n p "''//'' @ r"] by blast
    then have "CHR ''/'' \<in> set (show_nat n)" by simp
    then show False using show_nat_no_char [of "CHR ''/''" n] by simp
  qed
  then show ?thesis by (simp add: strip_prefix_str_def)
qed

section \<open>Properties\<close>

text \<open>C28. Reconnection backs off exponentially and never beyond a minute: in every reachable
  state of the dialling loop the next sleep is \<open>min (2^k) 60\<close> seconds, with \<open>k\<close> the failed
  attempts since the start or the last connection, and every sleep so far was between 1 and 60
  seconds.\<close>

theorem backoff_schedule:
  assumes "dials x cfg a w ds s"
  shows "unat (backoff_secs s) = min (2 ^ failures ds) 60
    \<and> (\<forall>b \<in> set (slept s). 1 \<le> b \<and> b \<le> 60)"
  using dials_backoff [OF assms] dials_slept [OF assms] capped_power_min by simp

text \<open>A failed connection attempt never ends the loop, but a failed name resolution does: from
  every reachable state with a well-formed endpoint the loop goes on after a setup or
  connection failure and after the end of a connection, and has no next state when the
  cloud's name does not resolve.\<close>

theorem dials_continue:
  assumes "dials x cfg a w ds s" and "parse_endpoint (endpoint cfg) = Inr hp"
  shows "(\<exists>s'. dials x cfg a w (ds @ [d]) s') \<longleftrightarrow> (\<forall>e. d \<noteq> ResolveFailed e)"
proof
  assume "\<exists>s'. dials x cfg a w (ds @ [d]) s'"
  then obtain s0 s' where "redial x cfg a d s0 = Inr s'" by (auto elim: dials_snocE)
  then show "\<forall>e. d \<noteq> ResolveFailed e" by (auto simp: redial_def split: sum.splits prod.splits)
next
  assume "\<forall>e. d \<noteq> ResolveFailed e"
  then have "\<exists>s'. redial x cfg a d s = Inr s'"
    using assms(2) by (cases d; cases hp) (auto simp: redial_def Let_def)
  then show "\<exists>s'. dials x cfg a w (ds @ [d]) s'" using turn [OF assms(1)] by blast
qed

lemma sample_endpoint: "parse_endpoint (endpoint sample_config) = Inr (''cloud.membrane.example.com'', 443)"
  by (simp add: sample_config_def default_config_def DEFAULT_ENDPOINT_def parse_endpoint_def
      strip_prefix_str_def parse_u16_def digit_val_def)

theorem backoff_schedule_witness:
  "\<exists>s. dials sample_deps sample_config sample_audit sample_world
      [ConnectFailed ''a'', SetupFailed ''b'', ConnectFailed ''c''] s
    \<and> unat (backoff_secs s) = 8"
proof -
  let ?run = "dials sample_deps sample_config sample_audit sample_world"
  let ?s1 = "back_off sample_deps sample_audit ''a'' (dialer_start sample_world)"
  let ?s2 = "back_off sample_deps sample_audit ''b'' ?s1"
  let ?s3 = "back_off sample_deps sample_audit ''c'' ?s2"
  have go: "redial sample_deps sample_config sample_audit (ConnectFailed e) s
      = Inr (back_off sample_deps sample_audit e s)"
    "redial sample_deps sample_config sample_audit (SetupFailed e) s
      = Inr (back_off sample_deps sample_audit e s)" for e s
    by (simp_all add: redial_def sample_endpoint)
  have "?run ([] @ [ConnectFailed ''a'']) ?s1" by (rule turn [OF start go(1)])
  from turn [OF this go(2)] have "?run (([] @ [ConnectFailed ''a'']) @ [SetupFailed ''b'']) ?s2" .
  from turn [OF this go(1)] have r: "?run [ConnectFailed ''a'', SetupFailed ''b'', ConnectFailed ''c''] ?s3"
    by simp
  from backoff_schedule [OF r] have "unat (backoff_secs ?s3) = 8" by (simp add: failures_def)
  with r show ?thesis by blast
qed

theorem dials_continue_witness:
  "\<not> (\<exists>s. dials sample_deps sample_config sample_audit sample_world [ResolveFailed ''dns''] s)
    \<and> (\<exists>s. dials sample_deps sample_config sample_audit sample_world [ConnectFailed ''refused''] s)"
  using dials_continue [OF start sample_endpoint, of sample_deps sample_audit sample_world] by simp

text \<open>Endpoints round-trip: a host and port printed with the scheme \<open>https\<close> or \<open>quic\<close>, or, for
  a host without a colon, with none, are parsed back; without a port, such a host gets 443.\<close>

theorem parse_endpoint_roundtrip:
  "parse_endpoint (''https://'' @ h @ '':'' @ show_nat (unat port)) = Inr (h, port)
    \<and> (CHR '':'' \<notin> set host \<longrightarrow>
        parse_endpoint (''quic://'' @ host @ '':'' @ show_nat (unat port)) = Inr (host, port)
        \<and> parse_endpoint (host @ '':'' @ show_nat (unat port)) = Inr (host, port)
        \<and> parse_endpoint (''https://'' @ host) = Inr (host, 443)
        \<and> parse_endpoint host = Inr (host, 443))"
proof (intro conjI impI)
  note parsed = rsplit_once_append [OF port_no_colon, of _ "unat port"] parse_u16_show
  have https: "strip_prefix_str ''https://'' (''https://'' @ s) = Some s" for s
    by (rule strip_prefix_append)
  show "parse_endpoint (''https://'' @ h @ '':'' @ show_nat (unat port)) = Inr (h, port)"
    using parsed unfolding parse_endpoint_def https by simp
  assume h: "CHR '':'' \<notin> set host"
  let ?s = "CHR '':'' # show_nat (unat port)"
  have quic: "strip_prefix_str ''https://'' (''quic://'' @ s) = None"
    "strip_prefix_str ''quic://'' (''quic://'' @ s) = Some s" for s
    by (simp add: strip_prefix_str_def) (rule strip_prefix_append)
  show "parse_endpoint (''quic://'' @ host @ '':'' @ show_nat (unat port)) = Inr (host, port)"
    using parsed unfolding parse_endpoint_def quic by simp
  have none: "strip_prefix_str ''https://'' (host @ s) = None"
    "strip_prefix_str ''quic://'' (host @ s) = None" if "s = [] \<or> s = ?s" for s
    using no_scheme [OF h, of s "''https''"] no_scheme [OF h, of s "''quic''"] that by auto
  show "parse_endpoint (host @ '':'' @ show_nat (unat port)) = Inr (host, port)"
    using parsed none [of ?s] by (simp add: parse_endpoint_def)
  have "rsplit_once CHR '':'' host = None" using h by (simp add: rsplit_once_None)
  then show "parse_endpoint (''https://'' @ host) = Inr (host, 443)"
    and "parse_endpoint host = Inr (host, 443)"
    unfolding parse_endpoint_def https using none [of "[]"] by simp_all
qed

theorem parse_endpoint_roundtrip_witness:
  "parse_endpoint ''quic://cloud:443'' = Inr (''cloud'', 443)
    \<and> parse_endpoint ''https://[::1]:443'' = Inr (''[::1]'', 443)"
proof -
  have "show_nat 443 = ''443''" by code_simp
  then show ?thesis
    using parse_endpoint_roundtrip [of "''[::1]''" 443 "''cloud''"] by simp
qed

text \<open>C24. The daemon fails closed: it dials only with a certificate, a key and a cloud pin on
  disk, and the verifier it then uses holds exactly the bytes of the pin file.\<close>

theorem tunnel_fails_closed:
  assumes "tunnel_setup x w = Inr c"
  shows "path_exists w (cert_path x (env_vars w)) \<and> path_exists w (key_path x (env_vars w))
    \<and> fs_read w (cloud_pin_path x (env_vars w)) = Inr (pin (cc_verifier c))"
  using assms
  by (cases "fs_read w (cloud_pin_path x (env_vars w))")
    (auto simp: tunnel_setup_def build_client_config_def Let_def split: if_splits sum.splits)

definition tunnel_sample_deps :: tunnel_deps where
  "tunnel_sample_deps =
     exec_deps.extend (exec_sample_deps sample_child)
       \<lparr>dep_blake3 = (\<lambda>d. d), dep_pem_certs = (\<lambda>d. Inr [d]), dep_pem_key = (\<lambda>d. Inr (Some d)),
        dep_tls_build = (\<lambda>cs k. Inr ()), dep_quic_crypto = (\<lambda>cs k. Inr ())\<rparr>"

definition paired_world :: world where
  "paired_world = sample_world
     \<lparr>fs_nodes := [([], DirN 4096 None), ([''cfg''], DirN 4096 None),
        ([''cfg'', ''daemon.crt''], FileN [1] None), ([''cfg'', ''daemon.key''], FileN [2] None),
        ([''cfg'', ''cloud.pin''], FileN [3] None)]\<rparr>"

lemma tunnel_sample_sel [simp]:
  "dep_config_dir tunnel_sample_deps = (\<lambda>env. Some ''/cfg'')"
  "dep_blake3 tunnel_sample_deps = (\<lambda>d. d)" "dep_pem_certs tunnel_sample_deps = (\<lambda>d. Inr [d])"
  "dep_pem_key tunnel_sample_deps = (\<lambda>d. Inr (Some d))"
  "dep_tls_build tunnel_sample_deps = (\<lambda>cs k. Inr ())"
  "dep_quic_crypto tunnel_sample_deps = (\<lambda>cs k. Inr ())"
  by (simp_all add: tunnel_sample_deps_def exec_deps.defs exec_sample_deps_def tmp_deps.defs
      sample_deps_def)

theorem tunnel_fails_closed_witness:
  "\<exists>c. tunnel_setup tunnel_sample_deps paired_world = Inr c
    \<and> fs_read paired_world ''/cfg/cloud.pin'' = Inr (pin (cc_verifier c))"
proof -
  let ?c = "\<lparr>cc_certs = [[1]], cc_key = [2], cc_verifier = \<lparr>pin = [3]\<rparr>,
    cc_max_idle_secs = 300, cc_keep_alive_secs = 60\<rparr>"
  have run: "tunnel_setup tunnel_sample_deps paired_world = Inr ?c"
    by (simp add: tunnel_setup_def build_client_config_def load_certs_def load_key_def
        cert_path_def key_path_def cloud_pin_path_def user_dir_def path_join_def world_eval
        paired_world_def)
  from tunnel_fails_closed [OF run] run show ?thesis
    by (simp add: cloud_pin_path_def user_dir_def path_join_def is_absolute_def suffix_def)
qed

text \<open>C23. A request on a stream of its own and the same request on the stdio stream, when it is answered
  and the answer can be framed and sent: a request of at most 64 MiB gets the same bytes from
  both and leaves the same world, having been dispatched once; a longer one, up to the largest a
  frame can hold, is answered on stdio just the same, while the tunnel sends nothing and leaves
  the world as it was.\<close>

theorem stream_agrees_with_serve:
  assumes "recv st = frame_of body @ junk" and "decodes cd body req"
    and "dispatch x req cfg a w = Some (resp, w1)" and "encode (cd_ser cd) resp = Inr frame"
    and "st_write st = (\<lambda>f. None)" and "st_finish st = None"
    and "snk_write snk = (\<lambda>out f. None)" and "snk_flush snk = (\<lambda>out. None)"
  shows "serve x cd snk cfg a [Inr (frame_of body)] [] [] w = Some (Inr (), frame, w1)
    \<and> (if length body \<le> 64 * 1024 * 1024 then handle_stream x cd st cfg a w = Some (Inr (), frame, w1)
       else \<exists>e. handle_stream x cd st cfg a w = Some (Inl e, [], w))"
proof (rule conjI)
  have len: "unat (from_le_bytes (take 4 (frame_of body))) = length body"
    using assms(2) by (simp add: decodes_def unat_frame_len frame_of_def)
  then show "if length body \<le> 64 * 1024 * 1024 then handle_stream x cd st cfg a w = Some (Inr (), frame, w1)
      else \<exists>e. handle_stream x cd st cfg a w = Some (Inl e, [], w)"
    using assms
    by (simp add: handle_stream_def read_exact_def frame_of_def decodes_def max_request_def Let_def)
  have "serve x cd snk cfg a (List.map Inr [frame_of body]) [] [] w
    = answer_all x cd snk cfg a [req] (stream_ended []) [] w"
    using assms(2) wire_frames.enc_nonempty [of body]
    by (intro serve_stream [where bodies = "[body]"]) (auto simp: decodes_def wire_frames.cut_def)
  then show "serve x cd snk cfg a [Inr (frame_of body)] [] [] w = Some (Inr (), frame, w1)"
    using assms(3,4,7,8) by (simp add: send_frame_def stream_ended_def)
qed

theorem stream_agrees_with_serve_witness:
  "handle_stream (exec_sample_deps sample_child) sample_codec
      \<lparr>recv = frame_of [7] @ [1], recv_end = ''eof'', st_write = (\<lambda>f. None), st_finish = None\<rparr>
      sample_config sample_audit sample_world = Some (Inr (), frame_of [8], sample_world)"
proof -
  let ?st = "\<lparr>recv = frame_of [7] @ [1], recv_end = ''eof'', st_write = (\<lambda>f. None), st_finish = None\<rparr>"
  have "recv ?st = frame_of [7] @ [1]" by simp
  moreover have "decodes sample_codec [7] ReqPing"
    by (simp add: decodes_def frameable_def sample_codec_def)
  moreover have "dispatch (exec_sample_deps sample_child) ReqPing sample_config sample_audit sample_world
      = Some (RespPong, sample_world)" by (simp add: dispatch_def ping_handle_def)
  moreover have "encode (cd_ser sample_codec) RespPong = Inr (frame_of [8])"
    by (simp add: encode_frame sample_codec_def)
  ultimately show ?thesis
    using stream_agrees_with_serve [of ?st "[7]" "[1]" sample_codec ReqPing "exec_sample_deps sample_child"
        sample_config sample_audit sample_world RespPong sample_world "frame_of [8]" sample_sink]
    by (simp add: max_request_def sample_sink_def)
qed

text \<open>The tunnel refuses a request that announces more than 64 MiB before it reads the body:
  nothing is dispatched, sent or changed.\<close>

theorem stream_refuses_large:
  assumes "4 \<le> length (recv st)" and "64 * 1024 * 1024 < unat (from_le_bytes (take 4 (recv st)))"
  shows "\<exists>e. handle_stream x cd st cfg a w = Some (Inl e, [], w)"
  using assms by (simp add: handle_stream_def read_exact_def max_request_def)

theorem stream_refuses_large_witness:
  "\<exists>e. handle_stream (exec_sample_deps sample_child) sample_codec
      \<lparr>recv = [1, 0, 0, 4], recv_end = ''eof'', st_write = (\<lambda>f. None), st_finish = None\<rparr>
      sample_config sample_audit sample_world = Some (Inl e, [], sample_world)"
  by (rule stream_refuses_large) (simp_all add: from_le_bytes_def)

end
