(* ===== verification/ConfigProps.thy ===== *)
theory ConfigProps
  imports Samples
begin

text \<open>
  What \<^verbatim>\<open>Config::load\<close> and \<^verbatim>\<open>Config::save_user\<close> (\<open>Config\<close>) guarantee: the ceiling on
  timeouts, the precedence of the system policy, and that what is saved is what is loaded.
\<close>

section \<open>Reading a file back as text\<close>

definition reliable_reads :: "world \<Rightarrow> bool" where
  "reliable_reads w \<longleftrightarrow>
     (\<forall>p. fs_faults w OpStat p = None \<and> fs_faults w OpRead p = None)
     \<and> (\<forall>p d m. node_at w p \<noteq> Some (PseudoN d m))"

lemma reliable_mkdir: "reliable_reads w \<Longrightarrow> reliable_reads (snd (fs_mkdir s w))"
  by (auto simp: fs_mkdir_def reliable_reads_def split: sum.splits option.splits)

lemma reliable_create_dir_all:
  "reliable_reads w \<Longrightarrow> reliable_reads (snd (fs_create_dir_all s w))"
  by (rule create_dir_all_keeps) (rule reliable_mkdir)

lemma read_back:
  assumes "reliable_reads w" and "written s d w w' p" and "same_machine w w'"
  shows "fs_read w' s = Inr d \<and> path_exists w' s"
  using assms
  by (auto simp: written_def fs_read_def path_exists_def fs_metadata_def reliable_reads_def
      same_machine_def split: option.splits node.splits)

lemma read_optional_text:
  assumes "fs_read w s = Inr (as_bytes t)" and "path_exists w s" and "valid_utf8_str t"
    and "dep_toml_parse x t = Inr cfg"
  shows "read_optional x w s = Inr (Some cfg)"
  using assms by (simp add: read_optional_def fs_read_to_string_def from_utf8_as_bytes)

lemma save_user_written:
  assumes wf: "wf_world w" and rel: "reliable_reads w"
    and run: "save_user x cfg w = (Inr u, w')"
  shows "\<exists>t. dep_toml_print x cfg = Inr t \<and> env_vars w' = env_vars w
    \<and> fs_read w' (user_policy x (env_vars w)) = Inr (as_bytes t)
    \<and> path_exists w' (user_policy x (env_vars w))"
proof -
  let ?path = "user_policy x (env_vars w)"
  obtain made w1 where mk: "(case path_parent ?path of None \<Rightarrow> (Inr (), w)
      | Some parent \<Rightarrow> fs_create_dir_all parent w) = (made, w1)" by fastforce
  have w1: "wf_world w1 \<and> reliable_reads w1 \<and> same_machine w w1"
    using mk wf rel wf_create_dir_all [OF wf] reliable_create_dir_all [OF rel]
      same_machine_create_dir_all [of w]
    by (auto split: option.splits) (metis snd_conv)+
  from run mk obtain t w2 where t: "dep_toml_print x cfg = Inr t"
    and wr: "fs_write ?path (as_bytes t) w1 = (Inr (), w')"
    by (auto simp: save_user_def Let_def split: sum.splits prod.splits)
  from fs_write_written [OF conjunct1 [OF w1] wr] obtain p
    where p: "written ?path (as_bytes t) w1 w' p" "same_machine w1 w'" by blast
  from read_back [OF _ p] w1 t p show ?thesis by (auto simp: same_machine_def)
qed

lemma save_user_read:
  assumes "wf_world w" and "reliable_reads w" and "save_user x cfg w = (Inr u, w')"
    and "\<forall>t. dep_toml_print x cfg = Inr t \<longrightarrow> valid_utf8_str t \<and> dep_toml_parse x t = Inr cfg"
  shows "read_optional x w' (user_policy x (env_vars w')) = Inr (Some cfg)"
proof -
  from save_user_written [OF assms(1,2,3)] obtain t where t: "dep_toml_print x cfg = Inr t"
    and env: "env_vars w' = env_vars w"
    and rd: "fs_read w' (user_policy x (env_vars w)) = Inr (as_bytes t)"
      "path_exists w' (user_policy x (env_vars w))" by blast
  from t assms(4) have v: "valid_utf8_str t" "dep_toml_parse x t = Inr cfg" by blast+
  show ?thesis unfolding env by (rule read_optional_text [OF rd v])
qed

section \<open>Two policy files on the sample machine\<close>

definition user_config :: Config where
  "user_config = default_config\<lparr>policy := ReadOnly [''/u''], max_exec_timeout_ms := 700000\<rparr>"

definition system_config :: Config where
  "system_config = default_config\<lparr>policy := Workspace [''/s'']\<rparr>"

definition config_sample_deps :: tmp_deps where
  "config_sample_deps = sample_deps
     \<lparr>dep_toml_parse := (\<lambda>t. if t = ''s'' then Inr system_config else Inr user_config),
      dep_toml_print := (\<lambda>c. Inr ''u'')\<rparr>"

definition policies_world :: world where
  "policies_world = sample_world
     \<lparr>fs_nodes := sample_nodes @
        [([''cfg''], DirN 4096 None), ([''cfg'', ''policy.toml''], FileN (as_bytes ''u'') None),
         ([''etc'', ''membrane''], DirN 4096 None),
         ([''etc'', ''membrane'', ''policy.toml''], FileN (as_bytes ''s'') None)]\<rparr>"

lemma config_sample_sel [simp]:
  "dep_config_dir config_sample_deps = (\<lambda>env. Some ''/cfg'')"
  "dep_platform config_sample_deps = Linux"
  "dep_toml_parse config_sample_deps = (\<lambda>t. if t = ''s'' then Inr system_config else Inr user_config)"
  "dep_toml_print config_sample_deps = (\<lambda>c. Inr ''u'')"
  by (simp_all add: config_sample_deps_def)

lemmas config_eval = world_eval read_optional_def fs_read_to_string_def user_policy_def
  system_policy_def user_dir_def system_dir_def path_join_def

lemma valid_us: "valid_utf8_str ''u''" "valid_utf8_str ''s''"
  by (simp_all add: valid_utf8_str_def)

lemma read_user_policy:
  "read_optional config_sample_deps policies_world ''/cfg/policy.toml'' = Inr (Some user_config)"
  by (rule read_optional_text [of _ _ "''u''"]) (simp_all add: config_eval policies_world_def valid_us)

lemma read_system_policy:
  "read_optional config_sample_deps policies_world ''/etc/membrane/policy.toml'' = Inr (Some system_config)"
  by (rule read_optional_text [of _ _ "''s''"]) (simp_all add: config_eval policies_world_def valid_us)

lemma policy_paths:
  "user_policy config_sample_deps env = ''/cfg/policy.toml''"
  "system_policy config_sample_deps = ''/etc/membrane/policy.toml''"
  by (simp_all add: config_eval)

section \<open>Properties\<close>

text \<open>The ceiling on command timeouts: whatever the policy files say and whatever the cloud
  asks for, the timeout in effect is at most ten minutes and at most the configured maximum; it
  is the requested one when that is smaller and not zero.\<close>

theorem load_ceiling:
  assumes "load x w = Inr cfg"
  shows "unat (effective_exec_timeout_ms cfg r) \<le> 600000
    \<and> effective_exec_timeout_ms cfg r \<le> max_exec_timeout_ms cfg
    \<and> (r \<noteq> 0 \<and> r \<le> max_exec_timeout_ms cfg \<longrightarrow> effective_exec_timeout_ms cfg r = r)"
proof -
  have "max_exec_timeout_ms cfg \<le> MAX_EXEC_TIMEOUT_MS"
    using assms by (auto simp: load_def Let_def not_less split: sum.splits if_splits)
  moreover have "effective_exec_timeout_ms cfg r \<le> max_exec_timeout_ms cfg"
    by (simp add: effective_exec_timeout_ms_def Let_def)
  ultimately have "effective_exec_timeout_ms cfg r \<le> MAX_EXEC_TIMEOUT_MS" by (rule order_trans [rotated])
  then have "unat (effective_exec_timeout_ms cfg r) \<le> 600000"
    by (simp add: MAX_EXEC_TIMEOUT_MS_def word_le_nat_alt)
  then show ?thesis by (auto simp: effective_exec_timeout_ms_def Let_def min_def)
qed

theorem load_ceiling_witness:
  "\<exists>cfg. load config_sample_deps policies_world = Inr cfg
    \<and> unat (effective_exec_timeout_ms cfg 900000) \<le> 600000"
proof -
  obtain cfg where run: "load config_sample_deps policies_world = Inr cfg"
    by (simp add: load_def policy_paths read_user_policy read_system_policy Let_def)
  from load_ceiling [OF run, of 900000] run show ?thesis by blast
qed

text \<open>C38. Precedence of the system policy: with both files present, each field of the loaded
  configuration is the system's if that differs from the built-in default and the user's
  otherwise; so a system file that sets a mode other than \<open>Unrestricted\<close> cannot be overridden
  by the user, and one that sets \<open>Unrestricted\<close>, or any default value, is.\<close>

theorem system_policy_precedence:
  assumes "read_optional x w (user_policy x (env_vars w)) = Inr (Some u)"
    and "read_optional x w (system_policy x) = Inr (Some s)" and "load x w = Inr c"
  shows "policy c = (if policy s = Unrestricted then policy u else policy s)
    \<and> endpoint c = (if endpoint s = DEFAULT_ENDPOINT then endpoint u else endpoint s)
    \<and> max_output_bytes c = (if max_output_bytes s = DEFAULT_MAX_OUTPUT then max_output_bytes u
        else max_output_bytes s)
    \<and> max_read_bytes c = (if max_read_bytes s = DEFAULT_MAX_READ then max_read_bytes u
        else max_read_bytes s)
    \<and> max_exec_timeout_ms c = min MAX_EXEC_TIMEOUT_MS
        (if max_exec_timeout_ms s = DEFAULT_EXEC_TIMEOUT_MS then max_exec_timeout_ms u
         else max_exec_timeout_ms s)"
  using assms by (auto simp: load_def merge_into_def default_config_def Let_def min_def)

theorem system_policy_precedence_witness:
  "\<exists>c. load config_sample_deps policies_world = Inr c \<and> policy c = Workspace [''/s'']
    \<and> max_exec_timeout_ms c = 600000"
proof -
  obtain c where run: "load config_sample_deps policies_world = Inr c"
    by (simp add: load_def policy_paths read_user_policy read_system_policy Let_def)
  have u: "read_optional config_sample_deps policies_world
      (user_policy config_sample_deps (env_vars policies_world)) = Inr (Some user_config)"
    and s: "read_optional config_sample_deps policies_world (system_policy config_sample_deps)
      = Inr (Some system_config)"
    by (simp_all add: policy_paths read_user_policy read_system_policy)
  from system_policy_precedence [OF u s run] run show ?thesis
    by (simp add: system_config_def user_config_def default_config_def MAX_EXEC_TIMEOUT_MS_def
        DEFAULT_EXEC_TIMEOUT_MS_def)
qed

text \<open>C37. What is saved is what is loaded: after a successful save, with no system policy and a
  \<^verbatim>\<open>toml\<close> that parses what it prints, loading yields the saved configuration with only its
  timeout cut to the ceiling.\<close>

theorem save_load_roundtrip:
  assumes "wf_world w" and "reliable_reads w" and "save_user x cfg w = (Inr u, w')"
    and "\<forall>t. dep_toml_print x cfg = Inr t \<longrightarrow> valid_utf8_str t \<and> dep_toml_parse x t = Inr cfg"
    and "\<not> path_exists w' (system_policy x)"
  shows "load x w' = Inr (cfg\<lparr>max_exec_timeout_ms := min MAX_EXEC_TIMEOUT_MS (max_exec_timeout_ms cfg)\<rparr>)"
proof -
  have "read_optional x w' (user_policy x (env_vars w')) = Inr (Some cfg)"
    by (rule save_user_read [OF assms(1-4)])
  moreover have "read_optional x w' (system_policy x) = Inr None"
    using assms(5) by (simp add: read_optional_def)
  ultimately show ?thesis by (auto simp: load_def Let_def min_def)
qed

definition empty_world :: world where
  "empty_world = sample_world\<lparr>fs_nodes := [([], DirN 4096 None)]\<rparr>"

lemma empty_world_ok [simp]: "wf_world empty_world" "reliable_reads empty_world"
  by (simp_all add: wf_world_def empty_world_def reliable_reads_def)

theorem save_load_roundtrip_witness:
  "\<exists>w'. save_user config_sample_deps user_config empty_world = (Inr (), w')
    \<and> load config_sample_deps w' = Inr (user_config\<lparr>max_exec_timeout_ms := 600000\<rparr>)"
proof -
  let ?out = "save_user config_sample_deps user_config empty_world"
  have run: "?out = (Inr (), snd ?out)"
    by (intro prod_eqI) (simp_all add: save_user_def policy_paths fs_create_dir_all_def fs_mkdir_def
      create_dirs.simps fs_write_def fs_open_write_def world_eval empty_world_def)
  have "\<not> path_exists (snd ?out) (system_policy config_sample_deps)"
    by (simp add: save_user_def policy_paths fs_create_dir_all_def fs_mkdir_def
        create_dirs.simps fs_write_def fs_open_write_def world_eval empty_world_def)
  then have "load config_sample_deps (snd ?out) = Inr (user_config
      \<lparr>max_exec_timeout_ms := min MAX_EXEC_TIMEOUT_MS (max_exec_timeout_ms user_config)\<rparr>)"
    by (intro save_load_roundtrip [OF empty_world_ok run]) (simp_all add: valid_us)
  moreover have "min MAX_EXEC_TIMEOUT_MS (max_exec_timeout_ms user_config) = 600000"
    by (simp add: MAX_EXEC_TIMEOUT_MS_def user_config_def)
  ultimately show ?thesis using run by metis
qed

end
