(* ===== verification/Pairing.thy ===== *)
theory Pairing
  imports Tunnel ConfigProps
begin

unbundle bit_operations_syntax

text \<open>
  \<^verbatim>\<open>membrane-daemon/src/pairing.rs\<close>: pairing tokens, the daemon's key, the installation of a
  token and the pin of a certificate.  Parameters: base64, JSON, PEM parsing, \<^verbatim>\<open>rcgen\<close>'s key
  pairs (a type of their own, \<open>'k\<close>), CSRs and signing, \<^verbatim>\<open>tempfile\<close> and BLAKE3.  Errors are the
  texts an \<^verbatim>\<open>anyhow\<close> error displays.
\<close>

record PairingToken =
  pt_v :: u32
  pt_daemon_cert_pem :: string
  pt_cloud_pin_hex :: string
  pt_endpoint :: string
  pt_customer_label :: "string option"

record 'k pairing_deps = tunnel_deps +
  dep_b64_encode :: "bytes \<Rightarrow> string"
  dep_b64_decode :: "string \<Rightarrow> string + bytes"
  dep_token_print :: "PairingToken \<Rightarrow> string + bytes"
  dep_token_parse :: "bytes \<Rightarrow> string + PairingToken"
  dep_first_cert :: "bytes \<Rightarrow> (string + bytes) option"
  dep_key_from_pem :: "string \<Rightarrow> string + 'k"
  dep_key_generate :: "world \<Rightarrow> string + 'k"
  dep_key_pem :: "'k \<Rightarrow> string"
  dep_cert_params :: "string list \<Rightarrow> string + bytes"
  dep_push_common_name :: "string \<Rightarrow> bytes \<Rightarrow> bytes"
  dep_serialize_request :: "bytes \<Rightarrow> 'k \<Rightarrow> string + bytes"
  dep_csr_pem :: "bytes \<Rightarrow> string + string"
  dep_csr_parse :: "string \<Rightarrow> string + bytes"
  dep_ca_params :: "string \<Rightarrow> string + bytes"
  dep_self_signed :: "bytes \<Rightarrow> 'k \<Rightarrow> string + bytes"
  dep_signed_by :: "bytes \<Rightarrow> bytes \<Rightarrow> 'k \<Rightarrow> string + string"

section \<open>Tokens\<close>

definition token_encode :: "('k, 'z) pairing_deps_scheme \<Rightarrow> PairingToken \<Rightarrow> string + string" where
  "token_encode x t = map_sum id (dep_b64_encode x) (dep_token_print x t)"

definition token_decode :: "('k, 'z) pairing_deps_scheme \<Rightarrow> string \<Rightarrow> string + PairingToken" where
  "token_decode x token =
     (case dep_b64_decode x (trim token) of
        Inl e \<Rightarrow> Inl ''base64 decode''
      | Inr b \<Rightarrow>
          (case dep_token_parse x b of
             Inl e \<Rightarrow> Inl ''token JSON decode''
           | Inr t \<Rightarrow>
               if pt_v t \<noteq> 1 then Inl (''unsupported token version '' @ show_nat (unat (pt_v t)))
               else if pt_daemon_cert_pem t = [] then Inl ''token missing daemon cert''
               else if pt_cloud_pin_hex t = [] then Inl ''token missing cloud pin''
               else if pt_endpoint t = [] then Inl ''token missing endpoint''
               else Inr t))"

section \<open>The daemon's key\<close>

definition ensure_keypair ::
    "('k, 'z) pairing_deps_scheme \<Rightarrow> string \<Rightarrow> world \<Rightarrow> (string + 'k \<times> bool) \<times> world" where
  "ensure_keypair x path w =
     (if path_exists w path then
        (case fs_read_to_string w path of
           Inl e \<Rightarrow> (Inl ''read existing key'', w)
         | Inr pem \<Rightarrow>
             (case dep_key_from_pem x pem of
                Inl e \<Rightarrow> (Inl ''parse existing key PEM'', w)
              | Inr kp \<Rightarrow> (Inr (kp, False), w)))
      else
        (case dep_key_generate x w of
           Inl e \<Rightarrow> (Inl ''generate keypair'', w)
         | Inr kp \<Rightarrow>
             (let (made, w1) = (case path_parent path of
                                  None \<Rightarrow> (Inr (), w)
                                | Some parent \<Rightarrow> fs_create_dir_all parent w)
              in case made of
                   Inl e \<Rightarrow> (Inl (io_to_string e), w1)
                 | Inr _ \<Rightarrow>
                     (case fs_write path (as_bytes (dep_key_pem x kp)) w1 of
                        (Inl e, w2) \<Rightarrow> (Inl (io_to_string e), w2)
                      | (Inr _, w2) \<Rightarrow>
                          (case fs_metadata w2 path of
                             Inl e \<Rightarrow> (Inl (io_to_string e), w2)
                           | Inr m \<Rightarrow>
                               (case fs_set_permissions path w2 of
                                  Inl e \<Rightarrow> (Inl (io_to_string e), w2)
                                | Inr _ \<Rightarrow> (Inr (kp, True), w2)))))))"

definition build_csr :: "('k, 'z) pairing_deps_scheme \<Rightarrow> 'k \<Rightarrow> string + string" where
  "build_csr x kp =
     (case dep_cert_params x [''membrane-daemon''] of
        Inl e \<Rightarrow> Inl ''CSR params''
      | Inr params \<Rightarrow>
          (case dep_serialize_request x (dep_push_common_name x ''membrane-daemon'' params) kp of
             Inl e \<Rightarrow> Inl ''build CSR''
           | Inr csr \<Rightarrow> (case dep_csr_pem x csr of Inl e \<Rightarrow> Inl ''CSR to PEM'' | Inr pem \<Rightarrow> Inr pem)))"

definition sign_csr :: "('k, 'z) pairing_deps_scheme \<Rightarrow> string \<Rightarrow> string \<Rightarrow> string \<Rightarrow> string + string" where
  "sign_csr x csr_pem issuer_cert_pem issuer_key_pem =
     (case dep_csr_parse x csr_pem of
        Inl e \<Rightarrow> Inl ''parse CSR PEM''
      | Inr csr \<Rightarrow>
          (case dep_key_from_pem x issuer_key_pem of
             Inl e \<Rightarrow> Inl ''parse issuer key PEM''
           | Inr issuer_key \<Rightarrow>
               (case dep_ca_params x issuer_cert_pem of
                  Inl e \<Rightarrow> Inl ''parse issuer cert PEM''
                | Inr params \<Rightarrow>
                    (case dep_self_signed x params issuer_key of
                       Inl e \<Rightarrow> Inl ''rebuild issuer cert''
                     | Inr issuer_cert \<Rightarrow>
                         (case dep_signed_by x csr issuer_cert issuer_key of
                            Inl e \<Rightarrow> Inl ''sign CSR''
                          | Inr pem \<Rightarrow> Inr pem)))))"

section \<open>Installing a token\<close>

definition write_atomic ::
    "'z tmp_deps_scheme \<Rightarrow> string \<Rightarrow> bytes \<Rightarrow> world \<Rightarrow> (io_error + unit) \<times> world" where
  "write_atomic x path data w =
     (let (made, w1) = (case path_parent path of
                          None \<Rightarrow> (Inr (), w)
                        | Some parent \<Rightarrow> fs_create_dir_all parent w)
      in case made of
           Inl e \<Rightarrow> (Inl e, w1)
         | Inr _ \<Rightarrow>
             replace_via_temp x (case path_parent path of None \<Rightarrow> ''.'' | Some p \<Rightarrow> p) path data w1)"

definition check_token :: "('k, 'z) pairing_deps_scheme \<Rightarrow> PairingToken \<Rightarrow> string option" where
  "check_token x token =
     (case dep_first_cert x (as_bytes (pt_daemon_cert_pem token)) of
        None \<Rightarrow> Some ''token cert PEM contains no certificate''
      | Some (Inl e) \<Rightarrow> Some ''parse daemon cert PEM''
      | Some (Inr c) \<Rightarrow>
          if \<not> list_all is_ascii_hexdigit (pt_cloud_pin_hex token) then Some ''cloud pin is not hex''
          else if length (pt_cloud_pin_hex token) \<noteq> 64 then
            Some (''cloud pin is not 32 bytes (got '' @ show_nat (length (pt_cloud_pin_hex token))
                  @ '' hex chars; expected 64)'')
          else None)"

definition install_token ::
    "('k, 'z) pairing_deps_scheme \<Rightarrow> PairingToken \<Rightarrow> Config \<Rightarrow> string \<Rightarrow> string \<Rightarrow> world
      \<Rightarrow> (string + string option) \<times> world" where
  "install_token x token cfg certp pinp w =
     (case check_token x token of
        Some e \<Rightarrow> (Inl e, w)
      | None \<Rightarrow>
          (case write_atomic x certp (as_bytes (pt_daemon_cert_pem token)) w of
             (Inl e, w1) \<Rightarrow> (Inl ''write daemon cert'', w1)
           | (Inr _, w1) \<Rightarrow>
               (case write_atomic x pinp (as_bytes (pt_cloud_pin_hex token)) w1 of
                  (Inl e, w2) \<Rightarrow> (Inl ''write cloud pin'', w2)
                | (Inr _, w2) \<Rightarrow>
                    (let prev = (if endpoint cfg \<noteq> pt_endpoint token then Some (endpoint cfg) else None);
                         new_cfg = cfg\<lparr>endpoint := pt_endpoint token\<rparr>
                     in case save_user x new_cfg w2 of
                          (Inl e, w3) \<Rightarrow> (Inl ''save updated policy.toml'', w3)
                        | (Inr _, w3) \<Rightarrow> (Inr prev, w3)))))"

section \<open>The pin of a certificate\<close>

definition hex_digit :: "u8 \<Rightarrow> char" where
  "hex_digit n = (if n < 10 then char_of_byte (48 + n) else char_of_byte (87 + n))"

definition hex_byte :: "u8 \<Rightarrow> string" where
  "hex_byte b = [hex_digit (drop_bit 4 b), hex_digit (b AND 15)]"

definition pin_hex :: "'z tunnel_deps_scheme \<Rightarrow> bytes \<Rightarrow> string" where
  "pin_hex x cert_der = concat (List.map hex_byte (dep_blake3 x cert_der))"

section \<open>Hexadecimal round trip\<close>

lemma of_char_of_byte: "(of_char (char_of_byte b) :: nat) = unat b"
proof -
  have "unat b < 256" using unsigned_less [of b] by simp
  then show ?thesis by (simp add: char_of_byte_def)
qed

definition hex_code :: "u8 \<Rightarrow> u8" where
  "hex_code n = (if n < 10 then 48 + n else 87 + n)"

lemma hex_digit_code: "hex_digit n = char_of_byte (hex_code n)"
  by (simp add: hex_digit_def hex_code_def)

lemma unat_hex_code:
  assumes "n < 16"
  shows "unat (hex_code n) = (if unat n < 10 then 48 + unat n else 87 + unat n)"
proof -
  have "unat n < 16" using assms by (simp add: word_less_nat_alt)
  then have "unat (48 + n) = 48 + unat n" "unat (87 + n) = 87 + unat n"
    by (simp_all add: unat_word_ariths)
  then show ?thesis by (simp add: hex_code_def word_less_nat_alt)
qed

lemma hex_nibble_code: "n < 16 \<Longrightarrow> hex_nibble (hex_code n) = Some n"
proof -
  assume n: "n < 16"
  then have u: "unat n < 16" by (simp add: word_less_nat_alt)
  show ?thesis
  proof (cases "unat n < 10")
    case True
    then have "48 \<le> hex_code n" "hex_code n \<le> 57" "hex_code n - 48 = n"
      using unat_hex_code [OF n] by (simp_all add: word_le_nat_alt hex_code_def word_less_nat_alt)
    then show ?thesis by (simp add: hex_nibble_def)
  next
    case False
    then have "\<not> hex_code n \<le> 57" "97 \<le> hex_code n" "hex_code n \<le> 102"
      "10 + hex_code n - 97 = n"
      using unat_hex_code [OF n] u by (simp_all add: word_le_nat_alt hex_code_def word_less_nat_alt)
    then show ?thesis by (simp add: hex_nibble_def)
  qed
qed

lemma hex_digit_facts:
  assumes "n < (16 :: u8)"
  shows "hex_nibble (byte_of_char (hex_digit n)) = Some n" and "printable (hex_digit n)"
    and "is_ascii_hexdigit (hex_digit n)"
proof -
  have "unat n < 16" using assms by (simp add: word_less_nat_alt)
  then show "hex_nibble (byte_of_char (hex_digit n)) = Some n" and "printable (hex_digit n)"
    and "is_ascii_hexdigit (hex_digit n)"
    using hex_nibble_code [OF assms] unat_hex_code [OF assms]
    by (auto simp: hex_digit_code printable_def is_ascii_hexdigit_def of_char_of_byte)
qed

lemma nibbles:
  "drop_bit 4 b < (16 :: u8)" "b AND 15 < (16 :: u8)"
  "push_bit 4 (drop_bit 4 b) OR (b AND 15) = (b :: u8)"
proof -
  have "unat b < 256" using unsigned_less [of b] by simp
  then show "drop_bit 4 b < 16"
    by (simp add: word_less_nat_alt drop_bit_eq_div unat_div)
  have "b AND 15 = take_bit 4 b" by (simp add: take_bit_eq_mask mask_eq_exp_minus_1)
  then show "b AND 15 < 16"
    by (simp add: word_less_nat_alt unat_mod take_bit_eq_mod)
  show "push_bit 4 (drop_bit 4 b) OR (b AND 15) = b"
    unfolding \<open>b AND 15 = take_bit 4 b\<close> by (rule bit_word_eqI) (auto simp: bit_simps)
qed

lemma hex_pairs_hex:
  "hex_pairs (as_bytes (concat (List.map hex_byte bs))) = Some bs"
proof (induction bs)
  case Nil
  then show ?case by (simp add: as_bytes_def)
next
  case (Cons b bs)
  then show ?case
    by (simp add: as_bytes_def hex_byte_def hex_digit_facts(1) nibbles)
qed

lemma hex_text:
  "list_all printable (concat (List.map hex_byte bs))"
  "list_all is_ascii_hexdigit (concat (List.map hex_byte bs))"
  "length (concat (List.map hex_byte bs)) = 2 * length bs"
  by (induction bs) (simp_all add: hex_byte_def hex_digit_facts nibbles)

lemma hex_decode_hex: "hex_decode (as_bytes (concat (List.map hex_byte bs))) = Some bs"
  using hex_pairs_hex [of bs] hex_text [of bs]
  by (simp add: hex_decode_def from_utf8_as_bytes valid_utf8_printable trim_printable Let_def)

lemma trusts_pinned:
  "trusts_server x \<lparr>pin = as_bytes (pin_hex x der)\<rparr> cert msg sig \<longleftrightarrow> dep_blake3 x cert = dep_blake3 x der"
  by (simp add: trusts_server_def verify_server_cert_def pin_hash_def pin_hex_def hex_decode_hex
      verify_tls13_signature_def Let_def)

section \<open>The write is an atomic replacement\<close>

lemma write_atomic_cases:
  assumes ok: "tempfile_ok x" and run: "write_atomic x path d w = (r, w')"
  shows "((\<exists>e. r = Inl e \<and> keeps_nodes w w') \<or> (r = Inr () \<and> (\<exists>q. replaced path d w w' q)))
    \<and> same_machine w w' \<and> (wf_world w \<longrightarrow> wf_world w')"
proof -
  obtain made w1 where mk: "(case path_parent path of None \<Rightarrow> (Inr (), w)
      | Some parent \<Rightarrow> fs_create_dir_all parent w) = (made, w1)" by fastforce
  have k: "keeps_nodes w w1" and s: "same_machine w w1" and f: "wf_world w \<longrightarrow> wf_world w1"
    using mk keeps_nodes_create_dir_all [of w] same_machine_create_dir_all [of w]
      wf_create_dir_all [of w] by (auto split: option.splits) (metis snd_conv)+
  show ?thesis
  proof (cases made)
    case (Inl e)
    with run mk have "r = Inl e" "w' = w1" by (simp_all add: write_atomic_def)
    with k s f show ?thesis by blast
  next
    case (Inr u)
    with run mk have "replace_via_temp x (case path_parent path of None \<Rightarrow> ''.'' | Some p \<Rightarrow> p) path d w1
        = (r, w')"
      by (simp add: write_atomic_def)
    from replace_via_temp_cases [OF ok this] show ?thesis
      using keeps_nodes_trans [OF k, of w'] same_machine_trans [OF s, of w'] f
        replaced_after [OF k s] by blast
  qed
qed

interpretation wa: atomic_replace "tempfile_ok x" "write_atomic x" for x
proof unfold_locales
  fix s d w e w' assume "tempfile_ok x" "write_atomic x s d w = (Inl e, w')"
  from write_atomic_cases [OF this] show "keeps_nodes w w'" by blast
next
  fix s d w u w' assume "tempfile_ok x" "write_atomic x s d w = (Inr u, w')"
  from write_atomic_cases [OF this] show "\<exists>q. replaced s d w w' q" by blast
next
  fix s d w assume "tempfile_ok x"
  from write_atomic_cases [OF this, of s d w "fst (write_atomic x s d w)"]
  show "same_machine w (snd (write_atomic x s d w))" by simp
next
  fix s d w assume "tempfile_ok x" "wf_world w"
  with write_atomic_cases [OF this(1), of s d w "fst (write_atomic x s d w)"]
  show "wf_world (snd (write_atomic x s d w))" by simp
qed

section \<open>Pairing on the sample machine\<close>

definition sample_token :: PairingToken where
  "sample_token =
     \<lparr>pt_v = 1, pt_daemon_cert_pem = ''PEM'', pt_cloud_pin_hex = replicate 64 CHR ''0'',
      pt_endpoint = ''https://c:1'', pt_customer_label = None\<rparr>"

definition pairing_sample_deps :: "string pairing_deps" where
  "pairing_sample_deps =
     tunnel_deps.extend tunnel_sample_deps
       \<lparr>dep_b64_encode = (\<lambda>b. concat (List.map hex_byte b)),
        dep_b64_decode = (\<lambda>s. case hex_decode (as_bytes s) of None \<Rightarrow> Inl ''bad'' | Some b \<Rightarrow> Inr b),
        dep_token_print = (\<lambda>t. Inr [1]), dep_token_parse = (\<lambda>b. Inr sample_token),
        dep_first_cert = (\<lambda>b. Some (Inr b)), dep_key_from_pem = Inr,
        dep_key_generate = (\<lambda>w. Inr ''KEY''), dep_key_pem = (\<lambda>k. k),
        dep_cert_params = (\<lambda>names. Inr []), dep_push_common_name = (\<lambda>n p. p),
        dep_serialize_request = (\<lambda>p k. Inr p), dep_csr_pem = (\<lambda>c. Inr ''CSR''),
        dep_csr_parse = (\<lambda>s. Inr []), dep_ca_params = (\<lambda>s. Inr []),
        dep_self_signed = (\<lambda>p k. Inr []), dep_signed_by = (\<lambda>c i k. Inr ''CERT'')\<rparr>"

lemma pairing_sample_sel [simp]:
  "dep_b64_encode pairing_sample_deps = (\<lambda>b. concat (List.map hex_byte b))"
  "dep_b64_decode pairing_sample_deps
     = (\<lambda>s. case hex_decode (as_bytes s) of None \<Rightarrow> Inl ''bad'' | Some b \<Rightarrow> Inr b)"
  "dep_token_print pairing_sample_deps = (\<lambda>t. Inr [1])"
  "dep_token_parse pairing_sample_deps = (\<lambda>b. Inr sample_token)"
  "dep_first_cert pairing_sample_deps = (\<lambda>b. Some (Inr b))"
  "dep_key_from_pem pairing_sample_deps = Inr" "dep_key_generate pairing_sample_deps = (\<lambda>w. Inr ''KEY'')"
  "dep_key_pem pairing_sample_deps = (\<lambda>k. k)"
  "dep_tmp_new_in pairing_sample_deps = simple_new_in"
  "dep_tmp_persist pairing_sample_deps = simple_persist" "dep_tmp_drop pairing_sample_deps = simple_drop"
  "dep_config_dir pairing_sample_deps = (\<lambda>env. Some ''/cfg'')"
  "dep_toml_print pairing_sample_deps = (\<lambda>c. Inr ''c'')"
  by (simp_all add: pairing_sample_deps_def tunnel_deps.defs tunnel_sample_deps_def exec_deps.defs
      exec_sample_deps_def tmp_deps.defs sample_deps_def)

lemma tempfile_ok_pairing [simp]: "tempfile_ok pairing_sample_deps"
  by (rule tempfile_ok_simple) simp_all

lemmas pairing_eval = world_eval write_atomic_def replace_via_temp_def fs_create_dir_all_def
  create_dirs.simps fs_mkdir_def save_user_def user_policy_def user_dir_def path_join_def
  fs_write_def fs_open_write_def

lemma check_sample [simp]: "check_token pairing_sample_deps sample_token = None"
  by (simp add: check_token_def sample_token_def is_ascii_hexdigit_def list_all_iff)

section \<open>Properties\<close>

text \<open>C39. The pin written at pairing is the pin checked when connecting: a verifier whose pin
  file holds the pin of the certificate \<open>der\<close> trusts a server exactly if the certificate it
  shows has the same BLAKE3 hash; the handshake signature, which would prove that the server has
  the certificate's key, plays no part, so that whoever replays the (public) certificate is
  trusted.\<close>

theorem pinned_server_trusted:
  "trusts_server x \<lparr>pin = as_bytes (pin_hex x der)\<rparr> cert msg sig \<longleftrightarrow> dep_blake3 x cert = dep_blake3 x der"
  by (rule trusts_pinned)

text \<open>Tokens round-trip: a token of version 1 with its fields filled in, encoded and pasted
  with white space around it removed, is decoded to itself, given a base64 and a JSON that
  invert themselves; and only such tokens are ever decoded.\<close>

theorem token_roundtrip:
  assumes "\<forall>b. dep_b64_decode x (dep_b64_encode x b) = Inr b \<and> list_all printable (dep_b64_encode x b)"
    and "dep_token_print x t = Inr j" and "dep_token_parse x j = Inr t"
    and "pt_v t = 1" "pt_daemon_cert_pem t \<noteq> []" "pt_cloud_pin_hex t \<noteq> []" "pt_endpoint t \<noteq> []"
  shows "\<exists>s. token_encode x t = Inr s \<and> token_decode x s = Inr t"
  using assms by (simp add: token_encode_def token_decode_def trim_printable)

theorem token_roundtrip_witness:
  "\<exists>s. token_encode pairing_sample_deps sample_token = Inr s
    \<and> token_decode pairing_sample_deps s = Inr sample_token"
  by (rule token_roundtrip [where j = "[1]"]) (simp_all add: hex_decode_hex hex_text sample_token_def)

text \<open>A decoded token is of version 1 and has a certificate, a pin and an endpoint.\<close>

theorem token_decoded_complete:
  "token_decode x s = Inr t \<Longrightarrow>
    pt_v t = 1 \<and> pt_daemon_cert_pem t \<noteq> [] \<and> pt_cloud_pin_hex t \<noteq> [] \<and> pt_endpoint t \<noteq> []"
  by (auto simp: token_decode_def split: sum.splits if_splits)

text \<open>Installing a token: an unfit one (no certificate, or a pin that is not 64 hexadecimal
  digits) changes nothing; on success the certificate and then the pin were each replaced
  atomically by the token's, and the configuration was saved with the token's endpoint, the
  previous endpoint being reported exactly if it differed.\<close>

theorem install_token_effects:
  assumes ok: "tempfile_ok x" and run: "install_token x token cfg certp pinp w = (r, w')"
  shows "(\<forall>e. check_token x token = Some e \<longrightarrow> r = Inl e \<and> w' = w)
    \<and> (\<forall>prev. r = Inr prev \<longrightarrow> check_token x token = None
        \<and> prev = (if endpoint cfg = pt_endpoint token then None else Some (endpoint cfg))
        \<and> (\<exists>w1 w2 q1 q2. replaced certp (as_bytes (pt_daemon_cert_pem token)) w w1 q1
            \<and> replaced pinp (as_bytes (pt_cloud_pin_hex token)) w1 w2 q2
            \<and> save_user x (cfg\<lparr>endpoint := pt_endpoint token\<rparr>) w2 = (Inr (), w')))"
proof (intro conjI allI impI)
  fix e assume "check_token x token = Some e"
  with run show "r = Inl e" "w' = w" by (simp_all add: install_token_def)
next
  fix prev assume "r = Inr prev"
  with run obtain w1 w2 where c: "check_token x token = None"
    and a: "write_atomic x certp (as_bytes (pt_daemon_cert_pem token)) w = (Inr (), w1)"
    and b: "write_atomic x pinp (as_bytes (pt_cloud_pin_hex token)) w1 = (Inr (), w2)"
    and s: "save_user x (cfg\<lparr>endpoint := pt_endpoint token\<rparr>) w2 = (Inr (), w')"
    and p: "prev = (if endpoint cfg = pt_endpoint token then None else Some (endpoint cfg))"
    by (auto simp: install_token_def Let_def split: option.splits prod.splits sum.splits if_splits)
  show "check_token x token = None" by (rule c)
  show "prev = (if endpoint cfg = pt_endpoint token then None else Some (endpoint cfg))" by (rule p)
  from wa.ok_replaces [OF ok a] wa.ok_replaces [OF ok b] s
  show "\<exists>w1 w2 q1 q2. replaced certp (as_bytes (pt_daemon_cert_pem token)) w w1 q1
      \<and> replaced pinp (as_bytes (pt_cloud_pin_hex token)) w1 w2 q2
      \<and> save_user x (cfg\<lparr>endpoint := pt_endpoint token\<rparr>) w2 = (Inr (), w')" by blast
qed

theorem install_token_effects_witness:
  "fst (install_token pairing_sample_deps (sample_token\<lparr>pt_cloud_pin_hex := ''abc''\<rparr>) sample_config
      ''/cfg/daemon.crt'' ''/cfg/cloud.pin'' paired_world)
    = Inl ''cloud pin is not 32 bytes (got 3 hex chars; expected 64)''"
proof -
  let ?t = "sample_token\<lparr>pt_cloud_pin_hex := ''abc''\<rparr>"
  have three: "show_nat (Suc (Suc (Suc 0))) = ''3''" by code_simp
  have c: "check_token pairing_sample_deps ?t
      = Some ''cloud pin is not 32 bytes (got 3 hex chars; expected 64)''"
    using three by (simp add: check_token_def is_ascii_hexdigit_def)
  obtain r w' where run: "install_token pairing_sample_deps ?t sample_config
      ''/cfg/daemon.crt'' ''/cfg/cloud.pin'' paired_world = (r, w')" by fastforce
  from install_token_effects [OF tempfile_ok_pairing run] c run show ?thesis by simp
qed

text \<open>Installing a token is not atomic as a whole: when the pin cannot be written, the token's
  certificate is already in place, next to the pin that was there before.\<close>

theorem install_token_partial:
  assumes ok: "tempfile_ok x"
    and run: "install_token x token cfg certp pinp w = (Inl ''write cloud pin'', w')"
  shows "\<exists>w1 q. replaced certp (as_bytes (pt_daemon_cert_pem token)) w w1 q
    \<and> (\<forall>p nd. node_at w1 p = Some nd \<longrightarrow> node_at w' p = Some nd)"
proof -
  from run obtain w1 e
    where a: "write_atomic x certp (as_bytes (pt_daemon_cert_pem token)) w = (Inr (), w1)"
    and b: "write_atomic x pinp (as_bytes (pt_cloud_pin_hex token)) w1 = (Inl e, w')"
    by (auto simp: install_token_def check_token_def Let_def
        split: option.splits prod.splits sum.splits if_splits)
  from wa.ok_replaces [OF ok a] wa.fail_keeps [OF ok b] show ?thesis
    by (auto simp: keeps_nodes_def)
qed

definition faulty_world :: world where
  "faulty_world = paired_world
     \<lparr>fs_faults := (\<lambda>op p. if op = OpRename \<and> p = [''cfg'', ''cloud.pin'']
                          then Some (os_err EkPermissionDenied) else None)\<rparr>"

theorem install_token_partial_witness:
  "\<exists>w' w1 q. install_token pairing_sample_deps sample_token sample_config ''/cfg/daemon.crt''
      ''/cfg/cloud.pin'' faulty_world = (Inl ''write cloud pin'', w')
    \<and> replaced ''/cfg/daemon.crt'' (as_bytes ''PEM'') faulty_world w1 q"
proof -
  let ?out = "install_token pairing_sample_deps sample_token sample_config ''/cfg/daemon.crt''
      ''/cfg/cloud.pin'' faulty_world"
  have run: "?out = (Inl ''write cloud pin'', snd ?out)"
    by (intro prod_eqI) (simp_all add: install_token_def pairing_eval faulty_world_def paired_world_def)
  from install_token_partial [OF tempfile_ok_pairing run] run show ?thesis
    by (auto simp: sample_token_def)
qed

text \<open>A key that was written can be read back.\<close>

lemma key_written:
  assumes w: "wf_world w" "reliable_reads w"
    and mk: "(case path_parent path of None \<Rightarrow> (Inr (), w) | Some parent \<Rightarrow> fs_create_dir_all parent w) = (made, w1)"
    and wr: "fs_write path d w1 = (Inr (), w')"
  shows "fs_read w' path = Inr d \<and> path_exists w' path"
proof -
  have w1: "wf_world w1" "reliable_reads w1"
    using mk w wf_create_dir_all [OF w(1)] reliable_create_dir_all [OF w(2)]
    by (auto split: option.splits) (metis snd_conv)+
  from fs_write_written [OF w1(1) wr] read_back [OF w1(2)] show ?thesis by blast
qed

lemma key_found:
  assumes "fs_read w path = Inr (as_bytes (dep_key_pem x kp)) \<and> path_exists w path"
    and "valid_utf8_str (dep_key_pem x kp)" and "dep_key_from_pem x (dep_key_pem x kp) = Inr kp"
  shows "ensure_keypair x path w = (Inr (kp, False), w)"
  using assms by (simp add: ensure_keypair_def fs_read_to_string_def from_utf8_as_bytes)

text \<open>The daemon's key is made once: after a run that generated it, every later run finds the
  same key on disk and changes nothing, given a key pair that parses back from its PEM.\<close>

theorem keypair_reused:
  assumes "wf_world w" and "reliable_reads w" and "ensure_keypair x path w = (Inr (kp, True), w')"
    and "valid_utf8_str (dep_key_pem x kp)" and "dep_key_from_pem x (dep_key_pem x kp) = Inr kp"
  shows "ensure_keypair x path w' = (Inr (kp, False), w')"
proof -
  obtain made w1 where mk: "(case path_parent path of None \<Rightarrow> (Inr (), w)
      | Some parent \<Rightarrow> fs_create_dir_all parent w) = (made, w1)" by fastforce
  from assms(3) mk have "fs_write path (as_bytes (dep_key_pem x kp)) w1 = (Inr (), w')"
    by (auto simp: ensure_keypair_def Let_def split: if_splits sum.splits prod.splits)
  from key_found [OF key_written [OF assms(1,2) mk this] assms(4,5)] show ?thesis .
qed

text \<open>A new key whose file cannot be closed to others is an error, but it stays on disk: the next
  run takes it as it is and does not try to protect it again.\<close>

lemma key_left_unprotected:
  assumes "wf_world w" and "reliable_reads w" and new: "\<not> path_exists w path" "dep_key_generate x w = Inr kp"
    and made: "(case path_parent path of None \<Rightarrow> (Inr (), w) | Some parent \<Rightarrow> fs_create_dir_all parent w)
      = (Inr (), w1)"
    and wr: "fs_write path (as_bytes (dep_key_pem x kp)) w1 = (Inr (), w')"
    and mode: "fs_metadata w' path = Inr meta" "fs_set_permissions path w' = Inl e"
    and key: "valid_utf8_str (dep_key_pem x kp)" "dep_key_from_pem x (dep_key_pem x kp) = Inr kp"
  shows "ensure_keypair x path w = (Inl (io_to_string e), w')
    \<and> ensure_keypair x path w' = (Inr (kp, False), w')"
  using new made wr mode key_found [OF key_written [OF assms(1,2) made wr] key] by (simp add: ensure_keypair_def)

theorem keypair_reused_witness:
  "\<exists>w'. ensure_keypair pairing_sample_deps ''/cfg/daemon.key'' empty_world = (Inr (''KEY'', True), w')
    \<and> ensure_keypair pairing_sample_deps ''/cfg/daemon.key'' w' = (Inr (''KEY'', False), w')"
proof -
  let ?out = "ensure_keypair pairing_sample_deps ''/cfg/daemon.key'' empty_world"
  have run: "?out = (Inr (''KEY'', True), snd ?out)"
    by (intro prod_eqI) (simp_all add: ensure_keypair_def pairing_eval empty_world_def
        fs_set_permissions_def)
  have "ensure_keypair pairing_sample_deps ''/cfg/daemon.key'' (snd ?out)
      = (Inr (''KEY'', False), snd ?out)"
    by (rule keypair_reused [OF empty_world_ok run]) (simp_all add: valid_utf8_str_def)
  with run show ?thesis by metis
qed

end
