(* ===== verification/RustText.thy ===== *)
theory RustText
  imports RustStr
begin

text \<open>
  Functions of Rust's standard library on text that only the command line uses:
  \<^verbatim>\<open>String::from_utf8_lossy\<close>, \<^verbatim>\<open>lines\<close>, \<^verbatim>\<open>chars().take(n)\<close>, \<^verbatim>\<open>contains\<close>, \<^verbatim>\<open>join\<close> and
  \<^verbatim>\<open>to_ascii_lowercase\<close>.
\<close>

section \<open>Decoding with replacement\<close>

text \<open>
  How a byte sequence goes on: whether its head is a well-formed character, and the number of
  bytes of that character, or of the maximal ill-formed prefix that is replaced as a whole.
\<close>

definition utf8_step4 :: "nat \<Rightarrow> nat list \<Rightarrow> bool \<times> nat" where
  "utf8_step4 a r =
     (case r of [] \<Rightarrow> (False, 1) | b # r2 \<Rightarrow>
        if \<not> utf8_second4 a b then (False, 1)
        else (case r2 of [] \<Rightarrow> (False, 2) | c # r3 \<Rightarrow>
          if \<not> utf8_cont c then (False, 2)
          else (case r3 of [] \<Rightarrow> (False, 3) | d # r4 \<Rightarrow>
            if utf8_cont d then (True, 4) else (False, 3))))"

definition utf8_step :: "nat \<Rightarrow> nat list \<Rightarrow> bool \<times> nat" where
  "utf8_step a r =
     (if a < 128 then (True, 1)
      else if 194 \<le> a \<and> a \<le> 223 then
        (case r of [] \<Rightarrow> (False, 1) | b # _ \<Rightarrow> if utf8_cont b then (True, 2) else (False, 1))
      else if 224 \<le> a \<and> a \<le> 239 then
        (case r of [] \<Rightarrow> (False, 1) | b # r2 \<Rightarrow>
           if \<not> utf8_second3 a b then (False, 1)
           else (case r2 of [] \<Rightarrow> (False, 2) | c # _ \<Rightarrow>
             if utf8_cont c then (True, 3) else (False, 2)))
      else if 240 \<le> a \<and> a \<le> 244 then utf8_step4 a r
      else (False, 1))"

definition replacement :: "nat list" where
  "replacement = [239, 191, 189]"

function lossy :: "nat list \<Rightarrow> nat list" where
  "lossy [] = []"
| "lossy (a # r) =
     (let (valid, n) = utf8_step a r in
      (if valid then take n (a # r) else replacement) @ lossy (drop (n - 1) r))"
  by pat_completeness auto
termination by (relation "measure length") auto

declare lossy.simps(2) [simp del]

definition from_utf8_lossy :: "bytes \<Rightarrow> string" where
  "from_utf8_lossy b = List.map char_of (lossy (List.map unat b))"

text \<open>Well-formed text is decoded as it is.\<close>

lemma utf8_step_valid:
  "valid_utf8 (a # r) \<Longrightarrow>
    fst (utf8_step a r) \<and> 0 < snd (utf8_step a r) \<and> snd (utf8_step a r) \<le> Suc (length r)
    \<and> valid_utf8 (drop (snd (utf8_step a r) - 1) r)"
proof -
  assume v: "valid_utf8 (a # r)"
  consider (one) "a < 128" | (two) b r2 where "\<not> a < 128" "194 \<le> a \<and> a \<le> 223" "r = b # r2"
    | (three) b c r3 where "\<not> a < 128" "\<not> (194 \<le> a \<and> a \<le> 223)" "224 \<le> a \<and> a \<le> 239" "r = b # c # r3"
    | (four) b c d r4 where "\<not> a < 128" "\<not> (194 \<le> a \<and> a \<le> 223)" "\<not> (224 \<le> a \<and> a \<le> 239)"
        "r = b # c # d # r4"
    using v by (cases r; cases "tl r"; cases "tl (tl r)") (simp_all split: if_splits)
  then show ?thesis
  proof cases
    case one
    with v show ?thesis by (simp add: utf8_step_def)
  next
    case two
    with v show ?thesis by (simp add: utf8_step_def)
  next
    case three
    with v show ?thesis by (simp add: utf8_step_def)
  next
    case four
    with v show ?thesis by (simp add: utf8_step_def utf8_step4_def)
  qed
qed

lemma lossy_valid: "valid_utf8 bs \<Longrightarrow> lossy bs = bs"
proof (induction bs rule: lossy.induct)
  case 1
  then show ?case by simp
next
  case (2 a r)
  obtain v n where s: "utf8_step a r = (v, n)" by fastforce
  with utf8_step_valid [OF "2.prems"] have v: "v" and n: "0 < n" and
    rest: "valid_utf8 (drop (n - 1) r)" by auto
  from "2.IH" [OF _ _ rest] s have ih: "lossy (drop (n - 1) r) = drop (n - 1) r" by metis
  have "lossy (a # r) = take n (a # r) @ drop (n - 1) r"
    using s v ih by (subst lossy.simps) simp
  also have "\<dots> = a # r" using n by (cases n) simp_all
  finally show ?case .
qed

lemma from_utf8_lossy_valid: "from_utf8 b = Some s \<Longrightarrow> from_utf8_lossy b = s"
proof -
  assume "from_utf8 b = Some s"
  then have v: "valid_utf8 (List.map unat b)" and s: "s = of_bytes b"
    by (auto simp: from_utf8_def split: if_splits)
  from lossy_valid [OF v] s show ?thesis
    by (simp add: from_utf8_lossy_def of_bytes_def char_of_byte_def)
qed

section \<open>Lines, characters and joins\<close>

definition strip_cr :: "string \<Rightarrow> string" where
  "strip_cr s = (if suffix [CHR 0x0D] s then butlast s else s)"

text \<open>\<^verbatim>\<open>lines\<close>: a carriage return belongs to the line end only before a line feed.\<close>

definition str_lines :: "string \<Rightarrow> string list" where
  "str_lines s =
     (let ps = split_on (CHR 0x0A) s in
      List.map strip_cr (butlast ps) @ (if last ps = [] then [] else [last ps]))"

definition utf8_cont_char :: "char \<Rightarrow> bool" where
  "utf8_cont_char c = utf8_cont (of_char c)"

text \<open>\<^verbatim>\<open>chars().take(n)\<close>: a character is a byte with the continuation bytes after it.\<close>

fun take_chars :: "nat \<Rightarrow> string \<Rightarrow> string" where
  "take_chars n [] = []"
| "take_chars n (c # cs) =
     (if utf8_cont_char c then c # take_chars n cs
      else (case n of 0 \<Rightarrow> [] | Suc k \<Rightarrow> c # take_chars k cs))"

fun contains_str :: "string \<Rightarrow> string \<Rightarrow> bool" where
  "contains_str [] p = (p = [])"
| "contains_str (c # cs) p = (prefix p (c # cs) \<or> contains_str cs p)"

fun join_str :: "string \<Rightarrow> string list \<Rightarrow> string" where
  "join_str sep [] = []"
| "join_str sep [s] = s"
| "join_str sep (s # t # ss) = s @ sep @ join_str sep (t # ss)"

definition ascii_lower :: "char \<Rightarrow> char" where
  "ascii_lower c = (let n = (of_char c :: nat) in if 65 \<le> n \<and> n \<le> 90 then char_of (n + 32) else c)"

definition is_ascii :: "string \<Rightarrow> bool" where
  "is_ascii s = list_all (\<lambda>c. of_char c < (128 :: nat)) s"

text \<open>The lines of a text block, each with its line end.\<close>

definition unlines :: "string list \<Rightarrow> string" where
  "unlines ls = concat (List.map (\<lambda>l. l @ [CHR 0x0A]) ls)"

lemma split_on_nl: "CHR 0x0A \<notin> set l \<Longrightarrow> split_on (CHR 0x0A) (l @ CHR 0x0A # s) = l # split_on (CHR 0x0A) s"
  by (simp add: split_on_append split_on_id)

lemma split_on_unlines:
  "\<forall>l \<in> set ls. CHR 0x0A \<notin> set l \<Longrightarrow> split_on (CHR 0x0A) (unlines ls) = ls @ [[]]"
  by (induction ls) (simp_all add: unlines_def split_on_nl)

lemma str_lines_unlines:
  assumes "\<forall>l \<in> set ls. CHR 0x0A \<notin> set l \<and> CHR 0x0D \<notin> set l"
  shows "str_lines (unlines ls) = ls"
proof -
  have "strip_cr l = l" if "l \<in> set ls" for l
    using assms that by (auto simp: strip_cr_def suffix_def)
  then have "List.map strip_cr ls = ls" by (simp add: map_idI)
  with assms show ?thesis by (simp add: str_lines_def split_on_unlines Let_def)
qed

lemma contains_strI: "contains_str (a @ p @ b) p"
proof (induction a)
  case Nil
  have "prefix p (p @ b)" by simp
  then show ?case by (cases "p @ b") auto
qed simp

end
