(* ===== verification/CmdMonad.thy ===== *)
theory CmdMonad
  imports Pairing RustText
begin

text \<open>
  The shape of the command line's functions: each acts on the world, prints lines (\<open>Raw\<close> is
  text without a line end), and ends
  with a value or, as \<^verbatim>\<open>?\<close> and \<^verbatim>\<open>bail!\<close> do, at its first error; what was printed and done
  before stays.
\<close>

datatype line = Out string | Err string | Raw string

type_synonym 'a cmd = "world \<Rightarrow> (string + 'a) \<times> line list \<times> world"

definition ret :: "'a \<Rightarrow> 'a cmd" where
  "ret a w = (Inr a, [], w)"

definition fail :: "string \<Rightarrow> 'a cmd" where
  "fail e w = (Inl e, [], w)"

definition say :: "line list \<Rightarrow> unit cmd" where
  "say ls w = (Inr (), ls, w)"

definition seq :: "'a cmd \<Rightarrow> ('a \<Rightarrow> 'b cmd) \<Rightarrow> 'b cmd" where
  "seq m f w =
     (case m w of
        (Inl e, ls, w1) \<Rightarrow> (Inl e, ls, w1)
      | (Inr a, ls, w1) \<Rightarrow> (case f a w1 of (r, ls', w2) \<Rightarrow> (r, ls @ ls', w2)))"

text \<open>\<^verbatim>\<open>let _ = ..\<close>: the result is dropped.\<close>

definition ignore :: "'a cmd \<Rightarrow> unit cmd" where
  "ignore m w = (case m w of (r, ls, w1) \<Rightarrow> (Inr (), ls, w1))"

text \<open>An operation that changes the world, one that only reads it, and an outcome, with the text of their errors.\<close>

definition perform :: "('e \<Rightarrow> string) \<Rightarrow> (world \<Rightarrow> ('e + 'a) \<times> world) \<Rightarrow> 'a cmd" where
  "perform msg f w = (case f w of (r, w1) \<Rightarrow> (map_sum msg id r, [], w1))"

definition inspect :: "('e \<Rightarrow> string) \<Rightarrow> (world \<Rightarrow> 'e + 'a) \<Rightarrow> 'a cmd" where
  "inspect msg f w = (map_sum msg id (f w), [], w)"

definition ask :: "(world \<Rightarrow> 'a) \<Rightarrow> 'a cmd" where
  "ask f w = (Inr (f w), [], w)"

definition lift :: "string + 'a \<Rightarrow> 'a cmd" where
  "lift r w = (r, [], w)"

section \<open>Laws\<close>

lemma seq_ret [simp]: "seq (ret a) f = f a"
  by (simp add: fun_eq_iff seq_def ret_def split: prod.splits)

lemma seq_ret_right [simp]: "seq m ret = m"
  by (simp add: fun_eq_iff seq_def ret_def split: prod.splits sum.splits)

lemma seq_fail [simp]: "seq (fail e) f = fail e"
  by (simp add: fun_eq_iff seq_def fail_def)

lemma seq_assoc: "seq (seq m f) g = seq m (\<lambda>a. seq (f a) g)"
  by (rule ext) (simp add: seq_def split: prod.splits sum.splits)

lemma seq_ask [simp]: "seq (ask f) g w = g (f w) w"
  by (simp add: seq_def ask_def split: prod.splits)

lemma seq_say: "seq (say ls) f w = (case f () w of (r, ls', w1) \<Rightarrow> (r, ls @ ls', w1))"
  by (simp add: seq_def say_def)

lemma seq_lift: "seq (lift r) f = (case r of Inl e \<Rightarrow> fail e | Inr a \<Rightarrow> f a)"
  by (simp add: fun_eq_iff seq_def lift_def fail_def split: sum.splits prod.splits)

lemma seq_inspect:
  "seq (inspect msg f) g w = (case f w of Inl e \<Rightarrow> (Inl (msg e), [], w) | Inr a \<Rightarrow> g a w)"
  by (simp add: seq_def inspect_def split: sum.splits prod.splits)

lemma seq_perform:
  "seq (perform msg f) g w =
     (case f w of (Inl e, w1) \<Rightarrow> (Inl (msg e), [], w1) | (Inr a, w1) \<Rightarrow> g a w1)"
  by (simp add: seq_def perform_def split: sum.splits prod.splits)

lemma perform_Inr: "perform msg f w = (Inr a, ls, w') \<longleftrightarrow> ls = [] \<and> f w = (Inr a, w')"
proof (cases "f w")
  case (Pair r w1)
  then show ?thesis by (cases r) (auto simp: perform_def)
qed

lemma seq_Inr:
  assumes "seq m f w = (Inr b, ls, w')"
  obtains a l1 l2 w1 where "m w = (Inr a, l1, w1)" "f a w1 = (Inr b, l2, w')" "ls = l1 @ l2"
  using assms by (auto simp: seq_def split: prod.splits sum.splits)

lemma seq_fst_Inl: "m w = (Inl e, ls, w1) \<Longrightarrow> seq m f w = (Inl e, ls, w1)"
  by (simp add: seq_def)

text \<open>What every step of a command keeps, the command keeps.\<close>

definition steady :: "(world \<Rightarrow> world \<Rightarrow> bool) \<Rightarrow> 'a cmd \<Rightarrow> bool" where
  "steady R m \<longleftrightarrow> (\<forall>w r ls w'. m w = (r, ls, w') \<longrightarrow> R w w')"

lemma steadyD: "steady R m \<Longrightarrow> m w = (r, ls, w') \<Longrightarrow> R w w'"
  by (simp add: steady_def)

lemma steady_seq:
  assumes "transp R" and "steady R m" and "\<And>a. steady R (f a)"
  shows "steady R (seq m f)"
  unfolding steady_def
proof (intro allI impI)
  fix w r ls w' assume run: "seq m f w = (r, ls, w')"
  obtain r1 l1 w1 where m: "m w = (r1, l1, w1)" by (metis prod_cases3)
  show "R w w'"
  proof (cases r1)
    case (Inl e)
    with run m show ?thesis using steadyD [OF assms(2) m] by (simp add: seq_def)
  next
    case (Inr a)
    obtain r2 l2 w2 where f: "f a w1 = (r2, l2, w2)" by (metis prod_cases3)
    with run m Inr have "w' = w2" by (simp add: seq_def)
    with transpD [OF assms(1) steadyD [OF assms(2) m] steadyD [OF assms(3) f]] show ?thesis by simp
  qed
qed

lemma steady_simps:
  assumes "reflp R"
  shows "steady R (ret a)" "steady R (fail e)" "steady R (say l)" "steady R (ask g)"
    "steady R (lift s)" "steady R (inspect msg h)"
  using reflpD [OF assms]
  by (simp_all add: steady_def ret_def fail_def say_def ask_def lift_def inspect_def)

lemma steady_ignore: "steady R m \<Longrightarrow> steady R (ignore m)"
  by (fastforce simp: steady_def ignore_def split: prod.splits)

lemma steady_perform: "(\<And>w. R w (snd (f w))) \<Longrightarrow> steady R (perform msg f)"
  by (auto simp: steady_def perform_def split: prod.splits) (metis snd_conv)

end
