(* ===== verification/Service.thy ===== *)
theory Service
  imports CmdMonad
begin

text \<open>
  \<^verbatim>\<open>membrane-daemon/src/service\<close>: installation of the daemon as a user service, under systemd
  (\<^verbatim>\<open>linux.rs\<close>) and launchd (\<^verbatim>\<open>macos.rs\<close>), and the stubs of other platforms.  Running a
  program to completion is a parameter, \<open>dep_output\<close>, which may change the world; so is the
  user's numeric id.
\<close>

record Output =
  out_success :: bool
  out_stdout :: bytes
  out_stderr :: bytes

record 'k service_deps = "'k pairing_deps" +
  dep_output :: "string list \<Rightarrow> world \<Rightarrow> (io_error + Output) \<times> world"
  dep_uid :: u32

datatype ServiceStatus = Running | Stopped | NotInstalled | Unknown string

fun service_status_text :: "ServiceStatus \<Rightarrow> string" where
  "service_status_text Running = ''running''"
| "service_status_text Stopped = ''stopped''"
| "service_status_text NotInstalled = ''not installed''"
| "service_status_text (Unknown s) = ''unknown ('' @ s @ '')''"

text \<open>Both platforms create the directory of the service file, write the file and remove it the same way.\<close>

definition create_parent :: "string \<Rightarrow> unit cmd" where
  "create_parent path =
     (case path_parent path of
        None \<Rightarrow> ret ()
      | Some parent \<Rightarrow> perform (\<lambda>e. ''create '' @ parent) (fs_create_dir_all parent))"

definition write_text :: "string \<Rightarrow> string \<Rightarrow> unit cmd" where
  "write_text path body = perform (\<lambda>e. ''write '' @ path) (fs_write path (as_bytes body))"

definition remove_existing :: "string \<Rightarrow> unit cmd" where
  "remove_existing path w =
     (if path_exists w path then
        seq (perform (\<lambda>e. ''remove '' @ path) (fs_remove_file path))
          (\<lambda>_. say [Err (''removed '' @ path)]) w
      else (Inr (), [], w))"

section \<open>Linux\<close>

definition SERVICE_NAME :: string where
  "SERVICE_NAME = ''membrane-daemon.service''"

definition unit_path :: "environment \<Rightarrow> string" where
  "unit_path env =
     (let home = (case env ''HOME'' of Some h \<Rightarrow> h | None \<Rightarrow> ''.'') in
      path_join (path_join home ''.config/systemd/user'') SERVICE_NAME)"

definition render_unit :: "string \<Rightarrow> string" where
  "render_unit exe = unlines
     [''[Unit]'',
      ''Description=Membrane daemon'',
      ''Documentation=https://membrane.example.com/docs'',
      ''After=network-online.target'',
      ''Wants=network-online.target'',
      [],
      ''[Service]'',
      ''ExecStart='' @ exe @ '' run'',
      ''Restart=on-failure'',
      ''RestartSec=5'',
      ''# Daemon is interactive-grade; cap memory + CPU so a misbehaving build'',
      ''# can't take down the customer's session.'',
      ''MemoryHigh=512M'',
      ''MemoryMax=1G'',
      ''# Inherit the user's environment for HOME, PATH, etc.'',
      ''PassEnvironment=HOME PATH'',
      [],
      ''[Install]'',
      ''WantedBy=default.target'']"

definition run_systemctl :: "('k, 'z) service_deps_scheme \<Rightarrow> string list \<Rightarrow> unit cmd" where
  "run_systemctl x args =
     seq (perform (\<lambda>e. ''run: systemctl --user '' @ join_str '' '' args)
           (dep_output x ([''systemctl'', ''--user''] @ args)))
       (\<lambda>output.
          if \<not> out_success output then
            fail (''systemctl --user '' @ join_str '' '' args @ '' failed: ''
              @ trim (from_utf8_lossy (out_stderr output)))
          else ret ())"

definition service_install :: "('k, 'z) service_deps_scheme \<Rightarrow> string \<Rightarrow> unit cmd" where
  "service_install x exe w =
     (let path = unit_path (env_vars w) in
      seq (create_parent path) (\<lambda>_.
      seq (write_text path (render_unit exe)) (\<lambda>_.
      seq (say [Err (''wrote '' @ path)]) (\<lambda>_.
      seq (run_systemctl x [''daemon-reload'']) (\<lambda>_.
      seq (run_systemctl x [''enable'', SERVICE_NAME]) (\<lambda>_.
      say [Err (''service installed. Use `systemctl --user start '' @ SERVICE_NAME @ ''` or''),
           Err ''`membrane-daemon start` to start it now.'']))))) w)"

definition service_uninstall :: "('k, 'z) service_deps_scheme \<Rightarrow> unit cmd" where
  "service_uninstall x =
     seq (ignore (run_systemctl x [''stop'', SERVICE_NAME])) (\<lambda>_.
     seq (ignore (run_systemctl x [''disable'', SERVICE_NAME])) (\<lambda>_.
     seq (ask (\<lambda>w. unit_path (env_vars w))) (\<lambda>path.
     seq (remove_existing path) (\<lambda>_.
     ignore (run_systemctl x [''daemon-reload''])))))"

definition service_start :: "('k, 'z) service_deps_scheme \<Rightarrow> unit cmd" where
  "service_start x = run_systemctl x [''start'', SERVICE_NAME]"

definition service_stop :: "('k, 'z) service_deps_scheme \<Rightarrow> unit cmd" where
  "service_stop x = run_systemctl x [''stop'', SERVICE_NAME]"

definition status_of_state :: "string \<Rightarrow> ServiceStatus" where
  "status_of_state s =
     (if s = ''active'' then Running
      else if s = ''inactive'' \<or> s = ''failed'' then Stopped
      else Unknown s)"

definition service_status :: "('k, 'z) service_deps_scheme \<Rightarrow> ServiceStatus cmd" where
  "service_status x w =
     (if \<not> path_exists w (unit_path (env_vars w)) then (Inr NotInstalled, [], w)
      else seq (perform (\<lambda>e. ''run systemctl is-active'')
                 (dep_output x [''systemctl'', ''--user'', ''is-active'', SERVICE_NAME]))
             (\<lambda>output. ret (status_of_state (trim (from_utf8_lossy (out_stdout output))))) w)"

section \<open>macOS\<close>

definition LABEL :: string where
  "LABEL = ''com.membrane.daemon''"

definition launchd_domain :: "('k, 'z) service_deps_scheme \<Rightarrow> string" where
  "launchd_domain x = ''gui/'' @ show_nat (unat (dep_uid x))"

definition service_target :: "('k, 'z) service_deps_scheme \<Rightarrow> string" where
  "service_target x = launchd_domain x @ ''/'' @ LABEL"

definition plist_path :: "environment \<Rightarrow> string" where
  "plist_path env =
     (let home = (case env ''HOME'' of Some h \<Rightarrow> h | None \<Rightarrow> ''.'') in
      path_join (path_join home ''Library/LaunchAgents'') (LABEL @ ''.plist''))"

definition log_dir :: "environment \<Rightarrow> string" where
  "log_dir env =
     (let home = (case env ''HOME'' of Some h \<Rightarrow> h | None \<Rightarrow> ''.'') in
      path_join home ''Library/Logs/membrane'')"

definition render_plist :: "environment \<Rightarrow> string \<Rightarrow> string" where
  "render_plist env exe = unlines
     [''<?xml version=\"1.0\" encoding=\"UTF-8\"?>'',
      ''<!DOCTYPE plist PUBLIC \"-//Apple//DTD PLIST 1.0//EN\" \"http://www.apple.com/DTDs/PropertyList-1.0.dtd\">'',
      ''<plist version=\"1.0\">'',
      ''<dict>'',
      ''    <key>Label</key>'',
      ''    <string>'' @ LABEL @ ''</string>'',
      ''    <key>ProgramArguments</key>'',
      ''    <array>'',
      ''        <string>'' @ exe @ ''</string>'',
      ''        <string>run</string>'',
      ''    </array>'',
      ''    <key>RunAtLoad</key>'',
      ''    <true/>'',
      ''    <key>KeepAlive</key>'',
      ''    <dict>'',
      ''        <key>SuccessfulExit</key>'',
      ''        <false/>'',
      ''    </dict>'',
      ''    <key>ProcessType</key>'',
      ''    <string>Interactive</string>'',
      ''    <key>StandardOutPath</key>'',
      ''    <string>'' @ path_join (log_dir env) ''daemon.out'' @ ''</string>'',
      ''    <key>StandardErrorPath</key>'',
      ''    <string>'' @ path_join (log_dir env) ''daemon.err'' @ ''</string>'',
      ''</dict>'',
      ''</plist>'']"

definition launchctl :: "('k, 'z) service_deps_scheme \<Rightarrow> string list \<Rightarrow> unit cmd" where
  "launchctl x args =
     seq (perform (\<lambda>e. ''launchctl '' @ join_str '' '' args) (dep_output x (''launchctl'' # args)))
       (\<lambda>output.
          if \<not> out_success output then
            fail (''launchctl '' @ join_str '' '' args @ '' failed: ''
              @ trim (from_utf8_lossy (out_stderr output)))
          else ret ())"

definition launchd_install :: "('k, 'z) service_deps_scheme \<Rightarrow> string \<Rightarrow> unit cmd" where
  "launchd_install x exe w =
     (let path = plist_path (env_vars w); logs = log_dir (env_vars w);
          body = render_plist (env_vars w) exe in
      seq (create_parent path) (\<lambda>_.
      seq (perform (\<lambda>e. ''create '' @ logs) (fs_create_dir_all logs)) (\<lambda>_.
      seq (write_text path body) (\<lambda>_.
      seq (say [Err (''wrote '' @ path)]) (\<lambda>_.
      seq (ignore (launchctl x [''bootout'', service_target x])) (\<lambda>_.
      seq (launchctl x [''bootstrap'', launchd_domain x, path]) (\<lambda>_.
      say [Err ''service installed and bootstrapped'']))))) ) w)"

definition launchd_uninstall :: "('k, 'z) service_deps_scheme \<Rightarrow> unit cmd" where
  "launchd_uninstall x =
     seq (ignore (launchctl x [''bootout'', service_target x])) (\<lambda>_.
     seq (ask (\<lambda>w. plist_path (env_vars w))) (\<lambda>path.
     remove_existing path))"

definition launchd_start :: "('k, 'z) service_deps_scheme \<Rightarrow> unit cmd" where
  "launchd_start x = launchctl x [''kickstart'', service_target x]"

definition launchd_stop :: "('k, 'z) service_deps_scheme \<Rightarrow> unit cmd" where
  "launchd_stop x = launchctl x [''kill'', ''SIGTERM'', service_target x]"

definition status_of_print :: "string \<Rightarrow> ServiceStatus" where
  "status_of_print text =
     (if contains_str text ''state = running'' then Running
      else if contains_str text ''state = '' then
        Unknown (trim (case find (\<lambda>l. starts_with_str (trim_start l) ''state ='') (str_lines text) of
                         Some l \<Rightarrow> l
                       | None \<Rightarrow> ''state = unknown''))
      else Stopped)"

definition launchd_status :: "('k, 'z) service_deps_scheme \<Rightarrow> ServiceStatus cmd" where
  "launchd_status x w =
     (if \<not> path_exists w (plist_path (env_vars w)) then (Inr NotInstalled, [], w)
      else seq (perform (\<lambda>e. ''run launchctl print'')
                 (dep_output x [''launchctl'', ''print'', service_target x]))
             (\<lambda>output. ret (if \<not> out_success output then Stopped
                else status_of_print (from_utf8_lossy (out_stdout output)))) w)"

section \<open>Other platforms\<close>

definition unsupported_install :: "string \<Rightarrow> unit cmd" where
  "unsupported_install exe = fail ''service install not supported on this platform''"

definition unsupported_uninstall :: "unit cmd" where
  "unsupported_uninstall = fail ''service uninstall not supported on this platform''"

definition unsupported_start :: "unit cmd" where
  "unsupported_start = fail ''service start not supported on this platform''"

definition unsupported_stop :: "unit cmd" where
  "unsupported_stop = fail ''service stop not supported on this platform''"

definition unsupported_status :: "ServiceStatus cmd" where
  "unsupported_status = ret NotInstalled"

section \<open>A removed file is gone\<close>

definition last_step :: "world \<Rightarrow> string \<Rightarrow> string list \<Rightarrow> bool" where
  "last_step w c d \<longleftrightarrow> (\<exists>k q. walk w False k d [c] = Inr q)"

lemma walk_snoc:
  "walk w False n cur (xs @ [c]) = Inr q \<Longrightarrow> \<exists>d. walk w False n cur xs = Inr d \<and> last_step w c d"
proof (induction w False n cur xs rule: walk.induct)
  case (1 w n cur)
  have "walk w False n cur [] = Inr cur" by simp
  moreover from 1 have "last_step w c cur" unfolding append_Nil last_step_def by blast
  ultimately show ?case by blast
next
  case (2 w n cur x xs)
  obtain nc where nc: "node_at w cur = Some nc" using "2.prems" by (cases "node_at w cur") auto
  have dir: "node_at w cur \<noteq> None" "\<not> \<not> is_dir_node (node_at w cur)"
    and nf: "fs_faults w OpLookup cur = None"
    using nc "2.prems" by (auto split: if_splits option.splits)
  consider (dot) "x = ''.''" | (up) "x \<noteq> ''.''" "x = ''..''"
    | (name) "x \<noteq> ''.''" "x \<noteq> ''..''" by blast
  then show ?case
  proof cases
    case dot
    from "2.hyps"(1) [OF dir nf dot] nc dir nf dot "2.prems" show ?thesis by simp
  next
    case up
    from "2.hyps"(2) [OF dir nf up] nc dir nf up "2.prems" show ?thesis by simp
  next
    case name
    then obtain nd where nd: "node_at w (cur @ [x]) = Some nd"
      using "2.prems" nc dir nf by (auto split: option.splits)
    show ?thesis
    proof (cases nd)
      case (LinkN t m)
      then obtain k where k: "n = Suc k"
        using "2.prems" nc dir nf name nd by (cases n) simp_all
      from "2.hyps"(6) [OF dir nf name nd LinkN k] nc dir nf name nd LinkN k "2.prems"
      show ?thesis by simp
    qed (use "2.hyps"(3-5) [OF dir nf name nd] nc dir nf name nd "2.prems" in simp_all)
  qed
qed

lemma keeps_nodes_del: "keeps_nodes (del_node p w) w"
  by (auto simp: keeps_nodes_def split: if_splits)

lemma walk_missing: "valid_name c \<Longrightarrow> node_at w (d @ [c]) = None \<Longrightarrow> \<not> last_step w c d"
  by (auto simp: valid_name_def last_step_def split: option.splits)

lemma removed_gone:
  assumes "fs_remove_file s w = (Inr u, w')"
  shows "\<not> path_exists w' s"
proof
  assume "path_exists w' s"
  then obtain q where "lookup w' s = Inr q"
    by (auto simp: path_exists_def fs_metadata_def is_ok_def split: sum.splits)
  then have walk': "walk w' False max_symlinks (start_dir w' s) (os_names s) = Inr q"
    by (auto simp: lookup_def split: if_splits)
  let ?ns = "os_names s"
  obtain d where d: "walk w False max_symlinks (start_dir w s) (butlast ?ns) = Inr d"
    and ns: "?ns \<noteq> []" "valid_name (last ?ns)" and w': "w' = del_node (d @ [last ?ns]) w"
    using assms by (auto simp: fs_remove_file_def lookup_entry_def Let_def
        split: sum.splits option.splits if_splits node.splits)
  have st: "start_dir w' s = start_dir w s" by (simp add: w' start_dir_def)
  from walk' ns(1) have "walk w' False max_symlinks (start_dir w s) (butlast ?ns @ [last ?ns]) = Inr q"
    by (simp add: st)
  from walk_snoc [OF this] obtain e
    where e: "walk w' False max_symlinks (start_dir w s) (butlast ?ns) = Inr e"
      and l: "last_step w' (last ?ns) e" by blast
  have "same_machine w' w" by (simp add: w' same_machine_def)
  from walk_keeps [OF keeps_nodes_del [of "d @ [last ?ns]" w, folded w'] this e] d have "e = d" by simp
  with l walk_missing [OF ns(2), of w' d] show False by (simp add: w')
qed

section \<open>What a service manager is\<close>

text \<open>
  The contract of every back end: a usable manager reports \<open>NotInstalled\<close> exactly when the
  service is not \<open>here\<close>, and installing brings it there.
\<close>

locale service_backend =
  fixes managed :: bool and ready :: "world \<Rightarrow> bool" and here :: "world \<Rightarrow> bool"
    and install :: "string \<Rightarrow> unit cmd" and status :: "ServiceStatus cmd"
  assumes absent: "managed \<Longrightarrow> \<not> here w \<Longrightarrow> fst (status w) = Inr NotInstalled"
    and present: "managed \<Longrightarrow> here w \<Longrightarrow> fst (status w) \<noteq> Inr NotInstalled"
    and installed: "managed \<Longrightarrow> ready w \<Longrightarrow> install exe w = (Inr (), ls, w') \<Longrightarrow> here w'"
begin

lemma status_iff: "managed \<Longrightarrow> fst (status w) = Inr NotInstalled \<longleftrightarrow> \<not> here w"
  using absent present by blast

lemma status_installed:
  "managed \<Longrightarrow> ready w \<Longrightarrow> install exe w = (Inr (), ls, w') \<Longrightarrow> fst (status w') \<noteq> Inr NotInstalled"
  using installed by (simp add: status_iff)

end

text \<open>
  The back ends that keep a service file: the service is there while the file exists, and
  uninstalling removes it, given a manager that leaves the file to the daemon.
\<close>

locale service_files =
  service_backend managed "\<lambda>w. wf_world w \<and> reliable_reads w"
    "\<lambda>w. path_exists w (svc (env_vars w))" install status
  for managed :: bool and svc :: "environment \<Rightarrow> string" and install :: "string \<Rightarrow> unit cmd"
    and status :: "ServiceStatus cmd" +
  fixes uninstall :: "unit cmd"
  assumes idle: "\<not> path_exists w (svc (env_vars w)) \<Longrightarrow> status w = (Inr NotInstalled, [], w)"
    and uninstalled: "managed \<Longrightarrow> uninstall w = (Inr (), ls, w') \<Longrightarrow>
      \<not> path_exists w' (svc (env_vars w'))"
begin

lemma status_uninstalled:
  "managed \<Longrightarrow> uninstall w = (Inr (), ls, w') \<Longrightarrow> status w' = (Inr NotInstalled, [], w')"
  using idle uninstalled by blast

end

definition manager_ok :: "('k, 'z) service_deps_scheme \<Rightarrow> (environment \<Rightarrow> string) \<Rightarrow> bool" where
  "manager_ok x svc \<longleftrightarrow>
     (\<forall>argv w r w'. dep_output x argv w = (r, w') \<longrightarrow>
        env_vars w' = env_vars w
        \<and> path_exists w' (svc (env_vars w)) = path_exists w (svc (env_vars w)))"

definition same_file :: "(environment \<Rightarrow> string) \<Rightarrow> world \<Rightarrow> world \<Rightarrow> bool" where
  "same_file svc w w' \<longleftrightarrow>
     env_vars w' = env_vars w \<and> path_exists w' (svc (env_vars w)) = path_exists w (svc (env_vars w))"

lemma same_file_order [simp]: "reflp (same_file svc)" "transp (same_file svc)"
  by (auto simp: reflp_def transp_def same_file_def)

lemma steady_output: "manager_ok x svc \<Longrightarrow> steady (same_file svc) (perform m (dep_output x argv))"
  unfolding manager_ok_def same_file_def by (rule steady_perform) (metis prod.collapse)

lemma steady_control:
  assumes "manager_ok x svc"
  shows "steady (same_file svc) (run_systemctl x args)" "steady (same_file svc) (launchctl x args)"
  unfolding run_systemctl_def launchctl_def
  by (rule steady_seq [OF same_file_order(2) steady_output [OF assms]],
      simp add: steady_simps [OF same_file_order(1)])+

text \<open>Writing the service file makes it exist.\<close>

lemma write_text_exists:
  assumes "wf_world w" and "reliable_reads w" and "write_text path body w = (Inr u, ls, w')"
  shows "path_exists w' path \<and> env_vars w' = env_vars w"
proof -
  from assms(3) have "fs_write path (as_bytes body) w = (Inr (), w')"
    by (simp add: write_text_def perform_Inr)
  from fs_write_written [OF assms(1) this] obtain p
    where "written path (as_bytes body) w w' p" "same_machine w w'" by blast
  with read_back [OF assms(2)] show ?thesis by (auto simp: same_machine_def)
qed

text \<open>What the creation of directories keeps.\<close>

definition readied :: "world \<Rightarrow> world \<Rightarrow> bool" where
  "readied w w' \<longleftrightarrow> (wf_world w \<longrightarrow> wf_world w') \<and> (reliable_reads w \<longrightarrow> reliable_reads w')
     \<and> env_vars w' = env_vars w"

lemma readied_order [simp]: "reflp readied" "transp readied"
  by (auto simp: reflp_def transp_def readied_def)

lemma readied_create: "readied w (snd (fs_create_dir_all s w))"
  using wf_create_dir_all [of w s] reliable_create_dir_all [of w s] same_machine_create_dir_all [of w s]
  by (simp add: readied_def same_machine_def)

lemma steady_create: "steady readied (create_parent path)" "steady readied (perform m (fs_create_dir_all s))"
  by (auto simp: create_parent_def steady_simps intro!: steady_perform readied_create split: option.splits)

lemma removed_existing:
  assumes "remove_existing path w = (Inr u, ls, w')"
  shows "\<not> path_exists w' path \<and> env_vars w' = env_vars w"
proof (cases "path_exists w path")
  case True
  with assms have "fs_remove_file path w = (Inr (), w')"
    by (auto simp: remove_existing_def seq_perform say_def split: prod.splits sum.splits)
  with removed_gone [OF this] same_machine_remove [of w path] show ?thesis
    by (simp add: same_machine_def)
next
  case False
  with assms show ?thesis by (simp add: remove_existing_def)
qed

lemma installed_file:
  assumes m: "steady readied m" and k: "steady (same_file svc) k"
    and w: "wf_world w" "reliable_reads w" and path: "path = svc (env_vars w)"
    and run: "seq m (\<lambda>_. seq (write_text path body) (\<lambda>_. k)) w = (Inr b, ls, w')"
  shows "path_exists w' (svc (env_vars w'))"
proof -
  obtain a l1 l2 w1 where 1: "m w = (Inr a, l1, w1)"
    "seq (write_text path body) (\<lambda>_. k) w1 = (Inr b, l2, w')"
    using run by (rule seq_Inr)
  then obtain u l3 l4 w2 where 2: "write_text path body w1 = (Inr u, l3, w2)" "k w2 = (Inr b, l4, w')"
    by (rule_tac seq_Inr [OF 1(2)]) blast
  from steadyD [OF m 1(1)] w have w1: "wf_world w1" "reliable_reads w1" "env_vars w1 = env_vars w"
    by (simp_all add: readied_def)
  from write_text_exists [OF w1(1,2) 2(1)] w1(3) steadyD [OF k 2(2)] path show ?thesis
    by (simp add: same_file_def)
qed

lemma uninstalled_file:
  assumes k: "steady (same_file svc) k"
    and run: "seq m (\<lambda>_. seq (ask (\<lambda>w. svc (env_vars w))) (\<lambda>path. seq (remove_existing path) (\<lambda>_. k))) w
      = (Inr b, ls, w')"
  shows "\<not> path_exists w' (svc (env_vars w'))"
proof -
  obtain a l1 l2 w1 where "seq (ask (\<lambda>w. svc (env_vars w))) (\<lambda>path. seq (remove_existing path) (\<lambda>_. k)) w1
      = (Inr b, l2, w')"
    using run by (rule seq_Inr)
  then have "seq (remove_existing (svc (env_vars w1))) (\<lambda>_. k) w1 = (Inr b, l2, w')" by simp
  then obtain u l3 l4 w2 where 2: "remove_existing (svc (env_vars w1)) w1 = (Inr u, l3, w2)"
    "k w2 = (Inr b, l4, w')"
    by (rule seq_Inr)
  from removed_existing [OF 2(1)] steadyD [OF k 2(2)] show ?thesis by (simp add: same_file_def)
qed

lemmas steady_same = steady_seq [OF same_file_order(2)] steady_ignore steady_control
  steady_simps [OF same_file_order(1)]

lemma status_of_state_installed: "status_of_state s \<noteq> NotInstalled"
  by (simp add: status_of_state_def)

lemma status_of_print_installed: "status_of_print s \<noteq> NotInstalled"
  by (simp add: status_of_print_def)

interpretation systemd: service_files "manager_ok x unit_path" unit_path "service_install x"
    "service_status x" "service_uninstall x" for x
proof unfold_locales
  fix w assume "\<not> path_exists w (unit_path (env_vars w))"
  then show "fst (service_status x w) = Inr NotInstalled" by (simp add: service_status_def)
next
  fix w assume "path_exists w (unit_path (env_vars w))"
  then show "fst (service_status x w) \<noteq> Inr NotInstalled"
    by (simp add: service_status_def seq_perform ret_def status_of_state_installed
        split: prod.splits sum.splits)
next
  fix w exe ls w'
  assume m: "manager_ok x unit_path" and "wf_world w \<and> reliable_reads w"
    and run: "service_install x exe w = (Inr (), ls, w')"
  then have w: "wf_world w" "reliable_reads w" by blast+
  show "path_exists w' (unit_path (env_vars w'))"
    using run unfolding service_install_def Let_def
    by (rule installed_file [OF steady_create(1) _ w refl, rotated])
      (intro steady_same m)
next
  fix w assume "\<not> path_exists w (unit_path (env_vars w))"
  then show "service_status x w = (Inr NotInstalled, [], w)" by (simp add: service_status_def)
next
  fix w ls w' assume m: "manager_ok x unit_path" and run: "service_uninstall x w = (Inr (), ls, w')"
  show "\<not> path_exists w' (unit_path (env_vars w'))"
    using run unfolding service_uninstall_def seq_assoc [symmetric, of "ignore _" "\<lambda>_. ignore _"]
    by (rule uninstalled_file [rotated]) (intro steady_same m)
qed

interpretation launchd: service_files "manager_ok x plist_path" plist_path "launchd_install x"
    "launchd_status x" "launchd_uninstall x" for x
proof unfold_locales
  fix w assume "\<not> path_exists w (plist_path (env_vars w))"
  then show "fst (launchd_status x w) = Inr NotInstalled" by (simp add: launchd_status_def)
next
  fix w assume "path_exists w (plist_path (env_vars w))"
  then show "fst (launchd_status x w) \<noteq> Inr NotInstalled"
    by (simp add: launchd_status_def seq_perform ret_def status_of_print_installed
        split: prod.splits sum.splits)
next
  fix w exe ls w'
  assume m: "manager_ok x plist_path" and "wf_world w \<and> reliable_reads w"
    and run: "launchd_install x exe w = (Inr (), ls, w')"
  then have w: "wf_world w" "reliable_reads w" by blast+
  show "path_exists w' (plist_path (env_vars w'))"
    using run unfolding launchd_install_def Let_def
      seq_assoc [symmetric, of "create_parent _" "\<lambda>_. perform _ _"]
    by (rule installed_file [OF steady_seq [OF readied_order(2) steady_create] _ w refl, rotated])
      (intro steady_same m)
next
  fix w assume "\<not> path_exists w (plist_path (env_vars w))"
  then show "launchd_status x w = (Inr NotInstalled, [], w)" by (simp add: launchd_status_def)
next
  fix w ls w' assume m: "manager_ok x plist_path" and run: "launchd_uninstall x w = (Inr (), ls, w')"
  have "launchd_uninstall x = seq (ignore (launchctl x [''bootout'', service_target x])) (\<lambda>_.
      seq (ask (\<lambda>w. plist_path (env_vars w))) (\<lambda>path. seq (remove_existing path) (\<lambda>_. ret ())))"
    using seq_ret_right by (simp add: launchd_uninstall_def)
  with run show "\<not> path_exists w' (plist_path (env_vars w'))"
    by (metis uninstalled_file steady_simps(1) same_file_order(1))
qed

section \<open>A service manager that obeys\<close>

definition service_sample_deps :: "string service_deps" where
  "service_sample_deps =
     pairing_deps.extend pairing_sample_deps
       \<lparr>dep_output = (\<lambda>argv w. (Inr \<lparr>out_success = True, out_stdout = as_bytes ''active'', out_stderr = []\<rparr>, w)),
        dep_uid = 501\<rparr>"

lemma service_sample_sel [simp]:
  "dep_output service_sample_deps
     = (\<lambda>argv w. (Inr \<lparr>out_success = True, out_stdout = as_bytes ''active'', out_stderr = []\<rparr>, w))"
  "dep_uid service_sample_deps = 501"
  by (simp_all add: service_sample_deps_def pairing_deps.defs)

lemma manager_ok_sample [simp]: "manager_ok service_sample_deps svc"
  by (simp add: manager_ok_def)

lemma run_systemctl_sample: "run_systemctl service_sample_deps args w = (Inr (), [], w)"
  by (simp add: run_systemctl_def seq_perform ret_def)

section \<open>Properties\<close>

text \<open>C33. The service's life cycle, under systemd and under launchd alike: after a successful
  installation the status is the service manager's, never \<^verbatim>\<open>NotInstalled\<close>; after a successful
  removal it is \<^verbatim>\<open>NotInstalled\<close>, whatever was installed before.\<close>

theorem service_lifecycle:
  assumes "manager_ok x unit_path" and "manager_ok x plist_path"
    and "wf_world w" and "reliable_reads w"
  shows "(service_install x exe w = (Inr (), ls, w') \<longrightarrow> fst (service_status x w') \<noteq> Inr NotInstalled)
    \<and> (service_uninstall x w = (Inr (), ls, w') \<longrightarrow> service_status x w' = (Inr NotInstalled, [], w'))
    \<and> (launchd_install x exe w = (Inr (), ls, w') \<longrightarrow> fst (launchd_status x w') \<noteq> Inr NotInstalled)
    \<and> (launchd_uninstall x w = (Inr (), ls, w') \<longrightarrow> launchd_status x w' = (Inr NotInstalled, [], w'))"
  using systemd.status_installed systemd.status_uninstalled launchd.status_installed
    launchd.status_uninstalled assms by blast

theorem service_lifecycle_witness:
  "\<exists>ls w'. service_install service_sample_deps ''/bin/d'' empty_world = (Inr (), ls, w')
    \<and> fst (service_status service_sample_deps w') \<noteq> Inr NotInstalled"
proof -
  let ?out = "service_install service_sample_deps ''/bin/d'' empty_world"
  have "fst ?out = Inr ()"
    by (simp add: service_install_def create_parent_def write_text_def seq_perform perform_def seq_def
        say_def run_systemctl_sample unit_path_def SERVICE_NAME_def path_join_def pairing_eval
        empty_world_def)
  then obtain ls w' where run: "?out = (Inr (), ls, w')" by (metis prod.collapse)
  from service_lifecycle [OF manager_ok_sample manager_ok_sample empty_world_ok, of "''/bin/d''" ls w'] run
  show ?thesis by blast
qed

end
