(* ===== verification/Daemon.thy ===== *)
theory Daemon
  imports Service
begin

text \<open>
  The daemon as a process: \<^verbatim>\<open>tunnel::run\<close> put together from its start-up checks and its
  redial loop, and \<^verbatim>\<open>cmd_run\<close> and \<^verbatim>\<open>cmd_run_stdio\<close> of \<^verbatim>\<open>membrane-daemon/src/main.rs\<close>.  What
  the outside does is data: whether the runtime starts and the socket binds, and what becomes
  of each dial.  \<open>None\<close> is a daemon that is still running when the script of dials is used up.
\<close>

record network =
  net_runtime :: "string + unit"
  net_bind :: "string + unit"
  net_dials :: "dial list"

definition VERSION :: string where
  "VERSION = ''0.1.1''"

section \<open>The tunnel's run\<close>

fun dial_loop ::
    "'z audit_deps_scheme \<Rightarrow> Config \<Rightarrow> Audit \<Rightarrow> dial list \<Rightarrow> dialer \<Rightarrow> ((string + unit) \<times> world) option" where
  "dial_loop x cfg a [] s =
     (case parse_endpoint (endpoint cfg) of
        Inl e \<Rightarrow> Some (Inl e, dl_world s)
      | Inr _ \<Rightarrow> None)"
| "dial_loop x cfg a (d # ds) s =
     (case redial x cfg a d s of
        Inl e \<Rightarrow> Some (Inl e, dl_world s)
      | Inr s' \<Rightarrow> dial_loop x cfg a ds s')"

definition tunnel_run ::
    "'z tunnel_deps_scheme \<Rightarrow> network \<Rightarrow> Config \<Rightarrow> Audit \<Rightarrow> world \<Rightarrow> ((string + unit) \<times> world) option" where
  "tunnel_run x net cfg a w =
     (case tunnel_setup x w of
        Inl e \<Rightarrow> Some (Inl e, w)
      | Inr client_cfg \<Rightarrow>
          (case net_bind net of
             Inl e \<Rightarrow> Some (Inl ''bind QUIC endpoint'', w)
           | Inr _ \<Rightarrow> dial_loop x cfg a (net_dials net) (dialer_start w)))"

section \<open>\<^verbatim>\<open>cmd_run\<close>\<close>

definition run_banner :: "Config \<Rightarrow> line list" where
  "run_banner cfg =
     [Err (''membrane-daemon v'' @ VERSION @ '' starting''),
      Err (''  endpoint: '' @ endpoint cfg),
      Err (''  policy:   '' @ policy_name (policy cfg))]
     @ (case roots (policy cfg) of
          None \<Rightarrow> []
        | Some rs \<Rightarrow> List.map (\<lambda>r. Err (''    root: '' @ r)) rs)"

definition startup_event :: "Config \<Rightarrow> Event" where
  "startup_event cfg = EvLifecycle ''startup''
     (''daemon v'' @ VERSION @ '' mode='' @ policy_name (policy cfg) @ '' endpoint='' @ endpoint cfg)"

definition shutdown_event :: "(string + unit) \<Rightarrow> Event" where
  "shutdown_event result = EvLifecycle ''shutdown''
     (case result of Inr _ \<Rightarrow> ''clean'' | Inl e \<Rightarrow> ''error: '' @ e)"

definition cmd_run ::
    "'z tunnel_deps_scheme \<Rightarrow> network \<Rightarrow> Config \<Rightarrow> world \<Rightarrow> ((string + unit) \<times> line list \<times> world) option" where
  "cmd_run x net cfg w =
     (let audit = audit_new (policy_name (policy cfg)) in
      case audit_write x audit (startup_event cfg) w of
        (Inl e, w1) \<Rightarrow> Some (Inl (io_to_string e), [], w1)
      | (Inr _, w1) \<Rightarrow>
          (case net_runtime net of
             Inl e \<Rightarrow> Some (Inl e, run_banner cfg, w1)
           | Inr _ \<Rightarrow>
               (case tunnel_run x net cfg audit w1 of
                  None \<Rightarrow> None
                | Some (result, w2) \<Rightarrow>
                    (case audit_write x audit (shutdown_event result) w2 of
                       (Inl e, w3) \<Rightarrow> Some (Inl (io_to_string e), run_banner cfg, w3)
                     | (Inr _, w3) \<Rightarrow> Some (result, run_banner cfg, w3)))))"

section \<open>\<^verbatim>\<open>cmd_run_stdio\<close>\<close>

definition cmd_run_stdio ::
    "'z exec_deps_scheme \<Rightarrow> codec \<Rightarrow> sink \<Rightarrow> (io_error + bytes) list \<Rightarrow> Config \<Rightarrow> world
      \<Rightarrow> ((string + unit) \<times> line list \<times> bytes \<times> world) option" where
  "cmd_run_stdio x cd stdout stdin cfg w =
     (let audit = audit_new (policy_name (policy cfg));
          banner = [Err (''membrane-daemon v'' @ VERSION @ '' serving on stdio'')]
      in case audit_write x audit (EvLifecycle ''startup'' ''stdio mode'') w of
           (Inl e, w1) \<Rightarrow> Some (Inl (io_to_string e), [], [], w1)
         | (Inr _, w1) \<Rightarrow>
             (case serve x cd stdout cfg audit stdin [] [] w1 of
                None \<Rightarrow> None
              | Some (result, out, w2) \<Rightarrow>
                  (case audit_write x audit (EvLifecycle ''shutdown''
                          (case result of Inr _ \<Rightarrow> ''clean'' | Inl e \<Rightarrow> io_to_string e)) w2 of
                     (Inl e, w3) \<Rightarrow> Some (Inl (io_to_string e), banner, out, w3)
                   | (Inr _, w3) \<Rightarrow> Some (map_sum io_to_string id result, banner, out, w3))))"

section \<open>The run and the step relation agree\<close>

lemma dial_loop_error: "dial_loop x cfg a ds s = Some (r, w') \<Longrightarrow> \<exists>e. r = Inl e"
  by (induction ds arbitrary: s) (auto split: sum.splits)

lemma dials_fun: "dials x cfg a w ds s \<Longrightarrow> dials x cfg a w ds s' \<Longrightarrow> s = s'"
proof (induction arbitrary: s' rule: dials.induct)
  case start
  then show ?case by (auto elim: dials.cases)
next
  case (turn ds s d t)
  from turn.prems obtain s0 where "dials x cfg a w ds s0" "redial x cfg a d s0 = Inr s'"
    by (auto elim: dials_snocE)
  with turn.IH turn.hyps(2) show ?case by auto
qed

lemma dials_cut: "dials x cfg a w (ds @ es) s \<Longrightarrow> \<exists>t. dials x cfg a w ds t"
proof (induction es arbitrary: s rule: rev_induct)
  case Nil
  then show ?case by auto
next
  case (snoc e es)
  then have "dials x cfg a w ((ds @ es) @ [e]) s" by simp
  then obtain s0 where "dials x cfg a w (ds @ es) s0" by (rule dials_snocE)
  then show ?case by (rule snoc.IH)
qed

lemma dial_loop_dials:
  "dials x cfg a w ds0 s \<Longrightarrow> parse_endpoint (endpoint cfg) = Inr hp \<Longrightarrow>
    dial_loop x cfg a ds s = None \<longleftrightarrow> (\<exists>s'. dials x cfg a w (ds0 @ ds) s')"
proof (induction ds arbitrary: ds0 s)
  case Nil
  then show ?case by auto
next
  case (Cons d ds)
  show ?case
  proof (cases "redial x cfg a d s")
    case (Inr s')
    from Cons.IH [OF turn [OF Cons.prems(1) Inr] Cons.prems(2)] Inr show ?thesis by simp
  next
    case (Inl e)
    have "\<not> dials x cfg a w (ds0 @ d # ds) s'" for s'
    proof
      assume "dials x cfg a w (ds0 @ d # ds) s'"
      then obtain t where "dials x cfg a w (ds0 @ [d]) t" using dials_cut [of x cfg a w "ds0 @ [d]" ds] by auto
      then obtain s0 t' where "dials x cfg a w ds0 s0" "redial x cfg a d s0 = Inr t'" by (auto elim: dials_snocE)
      with dials_fun [OF Cons.prems(1)] Inl show False by auto
    qed
    with Inl show ?thesis by simp
  qed
qed

lemma dial_loop_running:
  assumes "parse_endpoint (endpoint cfg) = Inr hp"
  shows "dial_loop x cfg a ds s = None \<longleftrightarrow> (\<forall>d \<in> set ds. \<forall>e. d \<noteq> ResolveFailed e)"
proof (induction ds arbitrary: s)
  case Nil
  then show ?case using assms by simp
next
  case (Cons d ds)
  obtain host port where hp: "hp = (host, port)" by (cases hp)
  show ?case using Cons.IH assms hp by (cases d) (simp_all add: redial_def Let_def)
qed

section \<open>Properties\<close>

text \<open>C29. A started daemon stays up: with its first log entry written, its credentials in place, a
  socket and a well-formed endpoint, it is still running after any sequence of connections
  made, broken, refused or failed at setup, and ends exactly if a name resolution fails.\<close>

theorem daemon_stays_up:
  assumes "audit_write x (audit_new (policy_name (policy cfg))) (startup_event cfg) w = (Inr (), w1)"
    and "net_runtime net = Inr ()" and "net_bind net = Inr ()"
    and "tunnel_setup x w1 = Inr c" and "parse_endpoint (endpoint cfg) = Inr hp"
  shows "cmd_run x net cfg w = None \<longleftrightarrow> (\<forall>d \<in> set (net_dials net). \<forall>e. d \<noteq> ResolveFailed e)"
proof -
  let ?loop = "dial_loop x cfg (audit_new (policy_name (policy cfg))) (net_dials net) (dialer_start w1)"
  have "cmd_run x net cfg w = None \<longleftrightarrow> ?loop = None"
    using assms(1-4) by (auto simp: cmd_run_def tunnel_run_def Let_def split: option.splits prod.splits sum.splits)
  then show ?thesis unfolding dial_loop_running [OF assms(5)] .
qed

definition sample_network :: "dial list \<Rightarrow> network" where
  "sample_network ds = \<lparr>net_runtime = Inr (), net_bind = Inr (), net_dials = ds\<rparr>"

lemma sample_network_sel [simp]:
  "net_runtime (sample_network ds) = Inr ()" "net_bind (sample_network ds) = Inr ()"
  "net_dials (sample_network ds) = ds"
  by (simp_all add: sample_network_def)

lemma service_tunnel_sel [simp]:
  "dep_config_dir service_sample_deps = (\<lambda>env. Some ''/cfg'')"
  "dep_json_entry service_sample_deps = (\<lambda>e. Inr ''e'')" "dep_day service_sample_deps = (\<lambda>t. ''d'')"
  "dep_pem_certs service_sample_deps = (\<lambda>d. Inr [d])"
  "dep_pem_key service_sample_deps = (\<lambda>d. Inr (Some d))"
  "dep_tls_build service_sample_deps = (\<lambda>cs k. Inr ())"
  "dep_quic_crypto service_sample_deps = (\<lambda>cs k. Inr ())"
  by (simp_all add: service_sample_deps_def pairing_deps.defs pairing_sample_deps_def tunnel_deps.defs
      tunnel_sample_deps_def exec_deps.defs exec_sample_deps_def tmp_deps.defs sample_deps_def)

definition started_world :: world where
  "started_world = snd (audit_write service_sample_deps (audit_new ''Workspace'')
     (startup_event sample_config) paired_world)"

lemmas daemon_eval = pairing_eval audit_write_def append_line_def fs_append_def audit_log_for_def
  audit_dir_def utc_now_def tick_def audit_new_def paired_world_def

lemma started: "audit_write service_sample_deps (audit_new (policy_name (policy sample_config)))
    (startup_event sample_config) paired_world = (Inr (), started_world)"
  unfolding started_world_def by (intro prod_eqI) (simp_all add: daemon_eval)

lemma started_setup: "\<exists>c. tunnel_setup service_sample_deps started_world = Inr c"
  by (simp add: started_world_def daemon_eval tunnel_setup_def build_client_config_def load_certs_def
      load_key_def cert_path_def key_path_def cloud_pin_path_def)

theorem daemon_stays_up_witness:
  "cmd_run service_sample_deps (sample_network [ConnectFailed ''refused'', Served ''a'' None]) sample_config
      paired_world = None
    \<and> cmd_run service_sample_deps (sample_network [ResolveFailed ''dns'']) sample_config paired_world \<noteq> None"
proof -
  obtain c where c: "tunnel_setup service_sample_deps started_world = Inr c" using started_setup by blast
  show ?thesis
    using daemon_stays_up [OF started sample_network_sel(1,2) c sample_endpoint] by simp
qed

text \<open>C30. A daemon never ends well: when \<^verbatim>\<open>run\<close> returns it returns an error, so that the service
  manager restarts it.  If its first log entry cannot be written it does nothing else; if the
  tunnel gave up, the reason was handed to the log last.\<close>

theorem daemon_ends_in_error:
  assumes "cmd_run x net cfg w = Some (r, ls, w')"
  shows "(\<exists>e. r = Inl e)
    \<and> (\<exists>r1 w1. audit_write x (audit_new (policy_name (policy cfg))) (startup_event cfg) w = (r1, w1)
      \<and> (case r1 of
           Inl e \<Rightarrow> r = Inl (io_to_string e) \<and> w' = w1
         | Inr _ \<Rightarrow>
             (\<exists>e. net_runtime net = Inl e \<and> r = Inl e \<and> w' = w1)
             \<or> (\<exists>e w2. tunnel_run x net cfg (audit_new (policy_name (policy cfg))) w1 = Some (Inl e, w2)
                 \<and> w' = audit_log x (audit_new (policy_name (policy cfg))) (shutdown_event (Inl e)) w2)))"
proof -
  let ?a = "audit_new (policy_name (policy cfg))"
  obtain r1 w1 where st: "audit_write x ?a (startup_event cfg) w = (r1, w1)" by fastforce
  show ?thesis
  proof (cases r1)
    case (Inl e)
    with st assms show ?thesis by (auto simp: cmd_run_def Let_def)
  next
    case (Inr u)
    show ?thesis
    proof (cases "net_runtime net")
      case (Inl e)
      with st assms \<open>r1 = Inr u\<close> have "r = Inl e" "w' = w1" by (auto simp: cmd_run_def Let_def)
      with st Inl \<open>r1 = Inr u\<close> show ?thesis by auto
    next
      case (Inr v)
      with st assms \<open>r1 = Inr u\<close> obtain res w2 where t: "tunnel_run x net cfg ?a w1 = Some (res, w2)"
        by (cases "tunnel_run x net cfg ?a w1") (auto simp: cmd_run_def Let_def)
      obtain e where "res = Inl e" using t dial_loop_error
        by (auto simp: tunnel_run_def split: sum.splits) blast
      with st assms \<open>r1 = Inr u\<close> Inr t show ?thesis
        by (auto simp: cmd_run_def audit_log_def Let_def split: prod.splits sum.splits)
    qed
  qed
qed

theorem daemon_ends_in_error_witness:
  "\<exists>r ls w'. cmd_run service_sample_deps (sample_network [ResolveFailed ''dns'']) sample_config paired_world
      = Some (r, ls, w') \<and> (\<exists>e. r = Inl e)"
proof -
  obtain c where c: "tunnel_setup service_sample_deps started_world = Inr c" using started_setup by blast
  have "cmd_run service_sample_deps (sample_network [ResolveFailed ''dns'']) sample_config paired_world \<noteq> None"
    using started c sample_endpoint
    by (simp add: cmd_run_def tunnel_run_def redial_def Let_def del: sample_config_sel split: prod.splits sum.splits)
  then obtain r ls w' where run: "cmd_run service_sample_deps (sample_network [ResolveFailed ''dns''])
      sample_config paired_world = Some (r, ls, w')" by auto
  from daemon_ends_in_error [OF run] run show ?thesis by blast
qed

end
