(* ===== verification/Cli.thy ===== *)
theory Cli
  imports Daemon
begin

text \<open>
  \<^verbatim>\<open>membrane-daemon/src/main.rs\<close>: the commands other than \<^verbatim>\<open>run\<close>, and their dispatch.
  Parameters: \<^verbatim>\<open>current_exe\<close>, the Unicode tables behind \<^verbatim>\<open>to_lowercase\<close> (for text that is not
  ASCII), \<^verbatim>\<open>chrono\<close>'s parsing and printing of times, JSON, and the HTTP client.
\<close>

datatype json = JNull | JBool bool | JNumber string | JString string | JArray "json list"
  | JObject "(string \<times> json) list"

fun json_get :: "string \<Rightarrow> json \<Rightarrow> json option" where
  "json_get k (JObject kvs) = map_of kvs k"
| "json_get k _ = None"

fun json_as_str :: "json \<Rightarrow> string option" where
  "json_as_str (JString s) = Some s"
| "json_as_str _ = None"

record http_response =
  resp_status :: u16
  resp_body :: "string + bytes"

record 'k cli_deps = "'k service_deps" +
  dep_current_exe :: "io_error + string"
  dep_unicode_lower :: "string \<Rightarrow> string"
  dep_rfc3339 :: "string \<Rightarrow> string + int"
  dep_entry_parse :: "string \<Rightarrow> string + Entry"
  dep_event_print :: "Event \<Rightarrow> string + string"
  dep_show_time :: "int \<Rightarrow> string"
  dep_json_value :: "bytes \<Rightarrow> string + json"
  dep_json_show :: "json \<Rightarrow> string"
  dep_status_show :: "u16 \<Rightarrow> string"
  dep_http_client :: "string + unit"
  dep_http_post :: "string \<Rightarrow> string \<Rightarrow> json \<Rightarrow> world \<Rightarrow> (string + http_response) \<times> world"

datatype Command =
    CmdRun
  | CmdRunStdio
  | CmdStatus
  | CmdMode string "string list" "string list"
  | CmdAudit "string option" u64
  | CmdPair "string option" "string option" "string option" "string option"
  | CmdInstall "string option"
  | CmdUninstall
  | CmdStart
  | CmdStop

section \<open>Service management\<close>

text \<open>The back end the build selects.\<close>

definition os_install :: "('k, 'z) service_deps_scheme \<Rightarrow> string \<Rightarrow> unit cmd" where
  "os_install x exe = (case dep_platform x of Linux \<Rightarrow> service_install x exe | MacOS \<Rightarrow> launchd_install x exe)"

definition os_uninstall :: "('k, 'z) service_deps_scheme \<Rightarrow> unit cmd" where
  "os_uninstall x = (case dep_platform x of Linux \<Rightarrow> service_uninstall x | MacOS \<Rightarrow> launchd_uninstall x)"

definition os_start :: "('k, 'z) service_deps_scheme \<Rightarrow> unit cmd" where
  "os_start x = (case dep_platform x of Linux \<Rightarrow> service_start x | MacOS \<Rightarrow> launchd_start x)"

definition os_stop :: "('k, 'z) service_deps_scheme \<Rightarrow> unit cmd" where
  "os_stop x = (case dep_platform x of Linux \<Rightarrow> service_stop x | MacOS \<Rightarrow> launchd_stop x)"

definition os_status :: "('k, 'z) service_deps_scheme \<Rightarrow> ServiceStatus cmd" where
  "os_status x = (case dep_platform x of Linux \<Rightarrow> service_status x | MacOS \<Rightarrow> launchd_status x)"

definition status_or_unknown :: "('k, 'z) service_deps_scheme \<Rightarrow> ServiceStatus cmd" where
  "status_or_unknown x w =
     (case os_status x w of (r, ls, w1) \<Rightarrow> (Inr (unwrap_or r (Unknown ''?'')), ls, w1))"

definition cmd_install :: "('k, 'z) cli_deps_scheme \<Rightarrow> string option \<Rightarrow> unit cmd" where
  "cmd_install x exe =
     seq (case exe of
            Some e \<Rightarrow> ret e
          | None \<Rightarrow> lift (map_sum (\<lambda>e. ''locate daemon executable'') id (dep_current_exe x))) (\<lambda>exe.
     seq (say [Err (''installing service using executable: '' @ exe)]) (\<lambda>_.
     seq (os_install x exe) (\<lambda>_.
     seq (status_or_unknown x) (\<lambda>status.
     say [Err (''status: '' @ service_status_text status)]))))"

definition cmd_uninstall :: "('k, 'z) cli_deps_scheme \<Rightarrow> unit cmd" where
  "cmd_uninstall x = os_uninstall x"

definition cmd_start :: "('k, 'z) cli_deps_scheme \<Rightarrow> unit cmd" where
  "cmd_start x = seq (os_start x) (\<lambda>_. say [Err ''started''])"

definition cmd_stop :: "('k, 'z) cli_deps_scheme \<Rightarrow> unit cmd" where
  "cmd_stop x = seq (os_stop x) (\<lambda>_. say [Err ''stopped''])"

section \<open>\<^verbatim>\<open>status\<close>\<close>

definition config_lines :: "Config \<Rightarrow> line list" where
  "config_lines cfg =
     [Out ''Configuration:'',
      Out (''  endpoint:           '' @ endpoint cfg),
      Out (''  policy mode:        '' @ policy_name (policy cfg))]
     @ (case roots (policy cfg) of
          None \<Rightarrow> []
        | Some rs \<Rightarrow> Out ''  workspace roots:'' # List.map (\<lambda>r. Out (''    - '' @ r)) rs)
     @ (case policy cfg of
          WorkspaceAllowlistExec rs exec_allowlist \<Rightarrow>
            Out ''  exec allowlist:'' # List.map (\<lambda>a. Out (''    - '' @ a)) exec_allowlist
        | _ \<Rightarrow> [])
     @ [Out (''  max exec timeout:   '' @ show_nat (unat (max_exec_timeout_ms cfg)) @ '' ms''),
        Out (''  max output:         '' @ show_nat (unat (max_output_bytes cfg)) @ '' bytes''),
        Out (''  max single read:    '' @ show_nat (unat (max_read_bytes cfg)) @ '' bytes''),
        Out []]"

definition cmd_status :: "('k, 'z) cli_deps_scheme \<Rightarrow> Config \<Rightarrow> unit cmd" where
  "cmd_status x cfg w =
     (let env = env_vars w;
          cert_status = (if readable w (cert_path x env) then ''present'' else ''missing (run `pair`)'')
      in seq (say (config_lines cfg @
             [Out ''Paths:'',
              Out (''  user dir:           '' @ user_dir x env),
              Out (''  user policy:        '' @ user_policy x env),
              Out (''  system policy:      '' @ system_policy x),
              Out (''  cert:               '' @ cert_path x env),
              Out (''  audit dir:          '' @ audit_dir x env),
              Out (''  cert status:        '' @ cert_status)])) (\<lambda>_.
         seq (status_or_unknown x) (\<lambda>svc.
         say [Out (''  service status:     '' @ service_status_text svc)])) w)"

section \<open>\<^verbatim>\<open>mode\<close>\<close>

definition to_lowercase :: "('k, 'z) cli_deps_scheme \<Rightarrow> string \<Rightarrow> string" where
  "to_lowercase x s = (if is_ascii s then List.map ascii_lower s else dep_unicode_lower x s)"

definition new_policy :: "string \<Rightarrow> string list \<Rightarrow> string list \<Rightarrow> string + PolicyMode" where
  "new_policy name rs allow_bins =
     (if name = ''unrestricted'' then Inr Unrestricted
      else if name = ''workspace'' then
        if rs = [] then Inl ''workspace mode requires at least one --root'' else Inr (Workspace rs)
      else if name = ''allowlist'' \<or> name = ''workspaceallowlistexec'' then
        if rs = [] then Inl ''allowlist mode requires at least one --root''
        else if allow_bins = [] then Inl ''allowlist mode requires at least one --allow-bin''
        else Inr (WorkspaceAllowlistExec rs allow_bins)
      else if name = ''readonly'' then
        if rs = [] then Inl ''readonly mode requires at least one --root'' else Inr (ReadOnly rs)
      else Inl (''unknown mode '' @ [CHR 0x27] @ name @ [CHR 0x27]
             @ ''; use: unrestricted, workspace, allowlist, readonly''))"

definition cmd_mode ::
    "('k, 'z) cli_deps_scheme \<Rightarrow> Config \<Rightarrow> string \<Rightarrow> string list \<Rightarrow> string list \<Rightarrow> unit cmd" where
  "cmd_mode x cfg name rs allow_bins =
     seq (lift (new_policy (to_lowercase x name) rs allow_bins)) (\<lambda>p.
     let cfg1 = cfg\<lparr>policy := p\<rparr> in
     seq (perform id (save_user x cfg1)) (\<lambda>_.
     say [Out (''Policy updated to '' @ policy_name (policy cfg1) @ ''.''),
          Out ''(daemon must be restarted for new policy to take effect)'']))"

section \<open>\<^verbatim>\<open>audit\<close>\<close>

definition since_time :: "('k, 'z) cli_deps_scheme \<Rightarrow> string option \<Rightarrow> int cmd" where
  "since_time x since w =
     (case since of
        Some s \<Rightarrow> lift (map_sum (\<lambda>e. ''invalid --since: '' @ e) id (dep_rfc3339 x s)) w
      | None \<Rightarrow> (case utc_now w of (t, w1) \<Rightarrow> (Inr (t - 24 * 3600 * 10 ^ 9), [], w1)))"

fun entry_path :: "string \<Rightarrow> io_error + string list \<Rightarrow> string option" where
  "entry_path dir (Inl _) = None"
| "entry_path dir (Inr q) = Some (path_join dir (last q))"

definition log_files :: "string \<Rightarrow> (io_error + string list) list \<Rightarrow> string list" where
  "log_files dir read_dir = sort (List.map_filter (entry_path dir) read_dir)"

definition entry_since :: "('k, 'z) cli_deps_scheme \<Rightarrow> int \<Rightarrow> string \<Rightarrow> Entry option" where
  "entry_since x since_ts l =
     (case dep_entry_parse x l of
        Inl _ \<Rightarrow> None
      | Inr e \<Rightarrow> if ts e < since_ts then None else Some e)"

definition file_entries :: "('k, 'z) cli_deps_scheme \<Rightarrow> world \<Rightarrow> int \<Rightarrow> string \<Rightarrow> Entry list" where
  "file_entries x w since_ts f =
     (case fs_read_to_string w f of
        Inl _ \<Rightarrow> []
      | Inr text \<Rightarrow> List.map_filter (entry_since x since_ts) (str_lines text))"

definition entry_line :: "('k, 'z) cli_deps_scheme \<Rightarrow> Entry \<Rightarrow> line" where
  "entry_line x e =
     Out (dep_show_time x (ts e) @ ''  ['' @ mode e @ '']  '' @ unwrap_or (dep_event_print x (event e)) [])"

definition audit_report :: "('k, 'z) cli_deps_scheme \<Rightarrow> string \<Rightarrow> u64 \<Rightarrow> int \<Rightarrow> unit cmd" where
  "audit_report x dir limit since_ts =
     seq (inspect io_to_string (\<lambda>w. fs_read_dir w dir)) (\<lambda>read_dir.
     seq (ask (\<lambda>w. concat (List.map (file_entries x w since_ts) (log_files dir read_dir)))) (\<lambda>entries.
     let n = length entries in
     seq (say (List.map (entry_line x) (rev (take (unat limit) (rev entries))))) (\<lambda>_.
     say [Err (if unat limit < n
               then ''('' @ show_nat (min (unat limit) n) @ '' entries shown of '' @ show_nat n
                 @ '' total; use --limit to widen)''
               else ''('' @ show_nat n @ '' entries)'')])))"

definition cmd_audit :: "('k, 'z) cli_deps_scheme \<Rightarrow> string option \<Rightarrow> u64 \<Rightarrow> unit cmd" where
  "cmd_audit x since limit w =
     (let dir = audit_dir x (env_vars w) in
      if \<not> path_exists w dir then
        say [Out (''(no audit log yet '' @ em_dash @ '' daemon hasn't started)'')] w
      else seq (since_time x since) (audit_report x dir limit) w)"

section \<open>\<^verbatim>\<open>pair\<close>\<close>

definition strip_suffixes :: "string list" where
  "strip_suffixes =
     [''/v1/mcp'', ''/v1/agent/enroll'', ''/v1/agent'', ''/v1'',
      ''/account/agents'', ''/account/signup'', ''/account/login'', ''/account'',
      ''/admin/tenants'', ''/admin'', ''/docs'']"

text \<open>One pass of the loop: the first suffix of the list that fits goes, with the slashes before it.\<close>

definition strip_once :: "string \<Rightarrow> string" where
  "strip_once s =
     (case find (ends_with_str s) strip_suffixes of
        None \<Rightarrow> s
      | Some suf \<Rightarrow> trim_end_matches (CHR ''/'') (take (length s - length suf) s))"

fun strip_rounds :: "nat \<Rightarrow> string \<Rightarrow> string" where
  "strip_rounds 0 s = s"
| "strip_rounds (Suc k) s =
     (let s' = strip_once s in if length s' = length s then s' else strip_rounds k s')"

definition normalise_cloud_url :: "string \<Rightarrow> string" where
  "normalise_cloud_url input = strip_rounds 6 (trim_end_matches (CHR ''/'') (trim input))"

text \<open>What the cloud's answer to an enrolment means: the token and the certificate's handle.\<close>

definition not_json_error :: "('k, 'z) cli_deps_scheme \<Rightarrow> u16 \<Rightarrow> bytes \<Rightarrow> string \<Rightarrow> string" where
  "not_json_error x status body_bytes e =
     unlines
       [''enrolment endpoint returned non-JSON response (status '' @ dep_status_show x status @ '')'',
        [],
        ''This usually means the --enrol URL is wrong. Make sure you're'',
        ''passing the cloud's base URL (e.g. https://mcp.example.com),'',
        ''not the MCP endpoint (e.g. https://mcp.example.com/v1/mcp).'',
        [],
        ''Server returned: '' @ take_chars 200 (from_utf8_lossy body_bytes)]
     @ ''Parse error: '' @ e"

definition str_field :: "string \<Rightarrow> json \<Rightarrow> string option" where
  "str_field k body = Option.bind (json_get k body) json_as_str"

definition enrol_answer ::
    "('k, 'z) cli_deps_scheme \<Rightarrow> u16 \<Rightarrow> bytes \<Rightarrow> string + string \<times> string" where
  "enrol_answer x status body_bytes =
     (case dep_json_value x body_bytes of
        Inl e \<Rightarrow> Inl (not_json_error x status body_bytes e)
      | Inr body \<Rightarrow>
          if \<not> (200 \<le> status \<and> status < 300) then
            Inl (''enrolment rejected ('' @ dep_status_show x status @ ''): ''
              @ (case str_field ''error'' body of Some e \<Rightarrow> e | None \<Rightarrow> ''(unknown error)''))
          else
            (case str_field ''token'' body of
               None \<Rightarrow> Inl (''response missing `token` field: '' @ dep_json_show x body)
             | Some token \<Rightarrow>
                 Inr (token,
                   case str_field ''cert_handle'' body of Some h \<Rightarrow> h | None \<Rightarrow> ''(unknown)'')))"

definition key_line :: "bool \<Rightarrow> string \<Rightarrow> line" where
  "key_line was_new key_file =
     Err ((if was_new then ''generated new daemon keypair at ''
           else ''reusing existing daemon keypair at '') @ key_file)"

definition paired_lines :: "string \<Rightarrow> PairingToken \<Rightarrow> string \<Rightarrow> string \<Rightarrow> string option \<Rightarrow> line list" where
  "paired_lines headline parsed cert_file pin_file prev_endpoint =
     [Err headline,
      Err (''  daemon cert: '' @ cert_file),
      Err (''  cloud pin:   '' @ pin_file),
      Err (''  endpoint:    '' @ pt_endpoint parsed)]
     @ (case prev_endpoint of
          None \<Rightarrow> []
        | Some prev \<Rightarrow> [Err (''  (previous endpoint was: '' @ prev @ '')'')])"

definition restart_lines :: "line list" where
  "restart_lines = [Err [], Err ''Restart the daemon to begin using the new credentials.'']"

definition cmd_pair_enrol ::
    "('k, 'z) cli_deps_scheme \<Rightarrow> Config \<Rightarrow> string \<Rightarrow> string \<Rightarrow> string \<Rightarrow> string \<Rightarrow> string \<Rightarrow> unit cmd" where
  "cmd_pair_enrol x cfg cloud_url api_key key_file cert_file pin_file =
     seq (perform id (ensure_keypair x key_file)) (\<lambda>(kp, was_new).
     seq (say [key_line was_new key_file]) (\<lambda>_.
     seq (lift (build_csr x kp)) (\<lambda>csr_pem.
     let base = normalise_cloud_url cloud_url;
         url = base @ ''/v1/agent/enroll'' in
     seq (say ((if base \<noteq> trim_end_matches (CHR ''/'') cloud_url
                then [Err (''note: stripped trailing path from --enrol; using base URL '' @ base)]
                else []) @ [Err (''enrolling against '' @ url)])) (\<lambda>_.
     seq (lift (map_sum (\<lambda>e. ''build HTTP client'') id (dep_http_client x))) (\<lambda>_.
     seq (perform (\<lambda>e. ''POST '' @ url)
           (dep_http_post x url (''Bearer '' @ api_key) (JObject [(''csr_pem'', JString csr_pem)]))) (\<lambda>resp.
     seq (lift (map_sum (\<lambda>e. ''read response body from '' @ url) id (resp_body resp))) (\<lambda>body_bytes.
     seq (lift (enrol_answer x (resp_status resp) body_bytes)) (\<lambda>(token_b64, cert_handle).
     seq (say [Err (''cloud issued cert '' @ cert_handle)]) (\<lambda>_.
     seq (lift (token_decode x (trim token_b64))) (\<lambda>parsed.
     seq (perform id (install_token x parsed cfg cert_file pin_file)) (\<lambda>prev_endpoint.
     seq (say (Err [] # paired_lines ''paired:'' parsed cert_file pin_file prev_endpoint)) (\<lambda>_.
     seq (perform io_to_string (audit_write x (audit_new (policy_name (policy cfg)))
           (EvLifecycle ''paired_via_enrol''
              (''endpoint='' @ pt_endpoint parsed @ '' cert='' @ cert_handle)))) (\<lambda>_.
     say restart_lines)))))))))))))"

text \<open>Without a token: the certificate signing request, to a file or to the output.\<close>

definition pair_csr :: "('k, 'z) cli_deps_scheme \<Rightarrow> string option \<Rightarrow> string \<Rightarrow> unit cmd" where
  "pair_csr x out key_file =
     seq (perform id (ensure_keypair x key_file)) (\<lambda>(kp, was_new).
     seq (say [key_line was_new key_file]) (\<lambda>_.
     seq (lift (build_csr x kp)) (\<lambda>csr_pem.
     seq (case out of
            Some p \<Rightarrow> seq (perform io_to_string (fs_write p (as_bytes csr_pem))) (\<lambda>_.
              say [Err (''wrote CSR to '' @ p)])
          | None \<Rightarrow> say [Raw csr_pem]) (\<lambda>_.
     say [Err [],
          Err ''Next: send the CSR to the operator.'',
          Err ''They will return a pairing token. Run:'',
          Err ''  membrane-daemon pair --token <TOKEN>'',
          Err [],
          Err ''Or skip the manual relay: use --enrol with an API key to'',
          Err ''POST the CSR to the cloud and install the token in one go:'',
          Err ''  membrane-daemon pair --enrol <URL> --api-key <KEY>'']))))"

definition token_text :: "string \<Rightarrow> string cmd" where
  "token_text t =
     (case strip_prefix_str ''@'' t of
        Some rest \<Rightarrow> inspect (\<lambda>e. ''read token file '' @ rest) (\<lambda>w. fs_read_to_string w rest)
      | None \<Rightarrow> ret t)"

definition no_key_error :: "string \<Rightarrow> string" where
  "no_key_error key_file =
     ''no daemon keypair at '' @ key_file @ '' '' @ em_dash
       @ '' run `membrane-daemon pair` (no args) first to generate one and produce a CSR''"

definition pair_decoded ::
    "('k, 'z) cli_deps_scheme \<Rightarrow> Config \<Rightarrow> PairingToken \<Rightarrow> string \<Rightarrow> string \<Rightarrow> unit cmd" where
  "pair_decoded x cfg parsed cert_file pin_file =
     seq (perform id (install_token x parsed cfg cert_file pin_file)) (\<lambda>prev_endpoint.
     seq (say (paired_lines ''pairing token installed:'' parsed cert_file pin_file prev_endpoint
           @ (case pt_customer_label parsed of
                None \<Rightarrow> []
              | Some label \<Rightarrow> [Err (''  label:       '' @ label)]))) (\<lambda>_.
     seq (perform io_to_string (audit_write x (audit_new (policy_name (policy cfg)))
           (EvLifecycle ''paired'' (''endpoint='' @ pt_endpoint parsed)))) (\<lambda>_.
     say restart_lines)))"

definition pair_token ::
    "('k, 'z) cli_deps_scheme \<Rightarrow> Config \<Rightarrow> string \<Rightarrow> string \<Rightarrow> string \<Rightarrow> string \<Rightarrow> unit cmd" where
  "pair_token x cfg t key_file cert_file pin_file =
     seq (token_text t) (\<lambda>token_str.
     seq (ask (\<lambda>w. path_exists w key_file)) (\<lambda>have_key.
     if \<not> have_key then fail (no_key_error key_file)
     else seq (lift (token_decode x (trim token_str))) (\<lambda>parsed.
          pair_decoded x cfg parsed cert_file pin_file)))"

definition cmd_pair ::
    "('k, 'z) cli_deps_scheme \<Rightarrow> Config \<Rightarrow> string option \<Rightarrow> string option \<Rightarrow> string option
      \<Rightarrow> string option \<Rightarrow> unit cmd" where
  "cmd_pair x cfg token out enrol api_key w =
     (let key_file = key_path x (env_vars w);
          cert_file = cert_path x (env_vars w);
          pin_file = cloud_pin_path x (env_vars w)
      in
      if token \<noteq> None \<and> enrol \<noteq> None then fail ''--token and --enrol are mutually exclusive'' w
      else if enrol \<noteq> None \<and> api_key = None then fail ''--enrol requires --api-key'' w
      else
       (case (enrol, api_key) of
          (Some cloud_url, Some key) \<Rightarrow> cmd_pair_enrol x cfg cloud_url key key_file cert_file pin_file w
        | _ \<Rightarrow>
            (case token of
               None \<Rightarrow> pair_csr x out key_file w
             | Some t \<Rightarrow> pair_token x cfg t key_file cert_file pin_file w)))"

section \<open>Dispatch\<close>

text \<open>What the process is connected to: the network, and the streams of \<^verbatim>\<open>run-stdio\<close>.\<close>

record surroundings = network +
  io_codec :: codec
  io_stdout :: sink
  io_stdin :: "(io_error + bytes) list"

definition finished :: "unit cmd \<Rightarrow> world \<Rightarrow> ((string + unit) \<times> line list \<times> bytes \<times> world) option" where
  "finished m w = (case m w of (r, ls, w1) \<Rightarrow> Some (r, ls, [], w1))"

definition main_cmd ::
    "('k, 'z) cli_deps_scheme \<Rightarrow> surroundings \<Rightarrow> Command option \<Rightarrow> world
      \<Rightarrow> ((string + unit) \<times> line list \<times> bytes \<times> world) option" where
  "main_cmd x io command w =
     (case load x w of
        Inl e \<Rightarrow> Some (Inl e, [], [], w)
      | Inr cfg \<Rightarrow>
          (case (case command of None \<Rightarrow> CmdRun | Some c \<Rightarrow> c) of
             CmdRun \<Rightarrow> map_option (\<lambda>(r, ls, w1). (r, ls, [], w1)) (cmd_run x (network.truncate io) cfg w)
           | CmdRunStdio \<Rightarrow> cmd_run_stdio x (io_codec io) (io_stdout io) (io_stdin io) cfg w
           | CmdStatus \<Rightarrow> finished (cmd_status x cfg) w
           | CmdMode name rs allow_bins \<Rightarrow> finished (cmd_mode x cfg name rs allow_bins) w
           | CmdAudit since limit \<Rightarrow> finished (cmd_audit x since limit) w
           | CmdPair token out enrol api_key \<Rightarrow> finished (cmd_pair x cfg token out enrol api_key) w
           | CmdInstall exe \<Rightarrow> finished (cmd_install x exe) w
           | CmdUninstall \<Rightarrow> finished (cmd_uninstall x) w
           | CmdStart \<Rightarrow> finished (cmd_start x) w
           | CmdStop \<Rightarrow> finished (cmd_stop x) w))"

end
