(* ===== verification/CliProps.thy ===== *)
theory CliProps
  imports Cli
begin

text \<open>What the commands of \<open>Cli\<close> guarantee.\<close>

section \<open>Enrolment addresses\<close>

lemma suffixes_antichain: "\<forall>a \<in> set strip_suffixes. \<forall>b \<in> set strip_suffixes. suffix a b \<longrightarrow> a = b"
  by (simp add: strip_suffixes_def suffix_def Cons_eq_append_conv)

lemma suffixes_proper: "suf \<in> set strip_suffixes \<Longrightarrow> suf \<noteq> [] \<and> last suf \<noteq> CHR ''/'' \<and> list_all printable suf"
  by (auto simp: strip_suffixes_def printable_def)

lemma strip_once_clean: "\<forall>suf \<in> set strip_suffixes. \<not> suffix suf s \<Longrightarrow> strip_once s = s"
  by (simp add: strip_once_def ends_with_str_def find_None_iff [THEN iffD2])

lemma strip_once_suffix:
  assumes suf: "suf \<in> set strip_suffixes" and b: "b = [] \<or> last b \<noteq> CHR ''/''"
  shows "strip_once (b @ suf) = b"
proof -
  have fits: "ends_with_str (b @ suf) suf" by (auto simp: ends_with_str_def suffix_def)
  obtain s where s: "find (ends_with_str (b @ suf)) strip_suffixes = Some s"
    using suf fits by (cases "find (ends_with_str (b @ suf)) strip_suffixes") (auto simp: find_None_iff)
  then have "s \<in> set strip_suffixes" "suffix s (b @ suf)"
    by (auto simp: find_Some_iff ends_with_str_def)
  moreover have "suffix s suf \<or> suffix suf s"
    using \<open>suffix s (b @ suf)\<close> suffix_same_cases [of s "b @ suf" suf] by (auto simp: suffix_def)
  ultimately have "s = suf" using suffixes_antichain suf by blast
  with s b show ?thesis by (simp add: strip_once_def trim_end_matches_id)
qed

lemma strip_once_prefix: "prefix (strip_once s) s"
proof (cases "find (ends_with_str s) strip_suffixes")
  case (Some suf)
  have "prefix (strip_once s) (take (length s - length suf) s)"
    using Some trim_end_matches_prefix by (simp add: strip_once_def)
  then show ?thesis using take_is_prefix prefix_order.trans by blast
qed (simp add: strip_once_def)

lemma strip_once_slash: "s = [] \<or> last s \<noteq> CHR ''/'' \<Longrightarrow> strip_once s = [] \<or> last (strip_once s) \<noteq> CHR ''/''"
  using trim_end_matches_last by (auto simp: strip_once_def split: option.splits)

lemma strip_rounds_prefix: "prefix (strip_rounds k s) s"
proof (induction k arbitrary: s)
  case (Suc k)
  show ?case
    using strip_once_prefix [of s] Suc.IH [of "strip_once s"] prefix_order.trans
    by (auto simp: Let_def)
qed simp

lemma strip_rounds_slash:
  "s = [] \<or> last s \<noteq> CHR ''/'' \<Longrightarrow> strip_rounds k s = [] \<or> last (strip_rounds k s) \<noteq> CHR ''/''"
proof (induction k arbitrary: s)
  case (Suc k)
  from Suc.IH [OF strip_once_slash [OF Suc.prems]] strip_once_slash [OF Suc.prems]
  show ?case by (simp add: Let_def)
qed simp

lemma strip_rounds_clean: "strip_once s = s \<Longrightarrow> strip_rounds k s = s"
  by (cases k) simp_all

lemma trim_slashes: "s = [] \<or> last s \<noteq> c \<Longrightarrow> trim_end_matches c (s @ replicate k c) = s"
proof -
  assume s: "s = [] \<or> last s \<noteq> c"
  have "dropWhile (\<lambda>x. x = c) (replicate k c @ xs) = dropWhile (\<lambda>x. x = c) xs" for xs
    by (induction k) simp_all
  then have "trim_end_matches c (s @ replicate k c) = trim_end_matches c s"
    by (simp add: trim_end_matches_def)
  with s show ?thesis by (simp add: trim_end_matches_id)
qed

text \<open>A base address: printable, not ending in a slash or in one of the known paths.\<close>

definition base_address :: "string \<Rightarrow> bool" where
  "base_address b \<longleftrightarrow> b \<noteq> [] \<and> last b \<noteq> CHR ''/'' \<and> list_all printable b
     \<and> list_all (\<lambda>suf. \<not> suffix suf b) strip_suffixes"

text \<open>Enrolment addresses: what is used is a prefix of what was typed, without surrounding
  white space or trailing slashes; and a base address pasted with one of the known paths and any
  number of slashes behind it comes out as the base address.\<close>

theorem normalise_strips:
  "prefix (normalise_cloud_url input) (trim input)
    \<and> (normalise_cloud_url input = [] \<or> last (normalise_cloud_url input) \<noteq> CHR ''/'')
    \<and> (base_address b \<and> suf \<in> insert [] (set strip_suffixes) \<longrightarrow>
         normalise_cloud_url (b @ suf @ replicate k (CHR ''/'')) = b)"
proof (intro conjI impI)
  show "prefix (normalise_cloud_url input) (trim input)"
    unfolding normalise_cloud_url_def
    using strip_rounds_prefix trim_end_matches_prefix prefix_order.trans by blast
  show "normalise_cloud_url input = [] \<or> last (normalise_cloud_url input) \<noteq> CHR ''/''"
    unfolding normalise_cloud_url_def by (rule strip_rounds_slash [OF trim_end_matches_last])
next
  assume a: "base_address b \<and> suf \<in> insert [] (set strip_suffixes)"
  then have b: "b \<noteq> []" "last b \<noteq> CHR ''/''" "list_all printable b" "strip_once b = b"
    by (auto simp: base_address_def list_all_iff strip_once_clean)
  have p: "list_all printable suf" using a suffixes_proper by auto
  have "printable (CHR ''/'')" by (simp add: printable_def)
  then have "list_all printable (b @ suf @ replicate k (CHR ''/''))"
    using b(3) p by (auto simp: list_all_iff)
  then have "trim (b @ suf @ replicate k (CHR ''/'')) = (b @ suf) @ replicate k (CHR ''/'')"
    by (simp add: trim_printable)
  moreover have "last (b @ suf) \<noteq> CHR ''/''" using a b suffixes_proper by (auto simp: last_append)
  ultimately have norm: "normalise_cloud_url (b @ suf @ replicate k (CHR ''/'')) = strip_rounds 6 (b @ suf)"
    using trim_slashes [of "b @ suf"] by (simp add: normalise_cloud_url_def)
  show "normalise_cloud_url (b @ suf @ replicate k (CHR ''/'')) = b"
  proof (cases "suf = []")
    case True
    then show ?thesis unfolding norm by (simp add: strip_rounds_clean b)
  next
    case False
    with a have "strip_once (b @ suf) = b" using strip_once_suffix [of suf b] b by simp
    moreover have "strip_rounds 6 (b @ suf) = strip_rounds (Suc 5) (b @ suf)" by simp
    ultimately show ?thesis
      unfolding norm using False b by (simp only: strip_rounds.simps(2) Let_def) (simp add: strip_rounds_clean)
  qed
qed

theorem normalise_strips_witness:
  "normalise_cloud_url ''https://mcp.example.com/v1/mcp//'' = ''https://mcp.example.com''"
proof -
  have "base_address ''https://mcp.example.com''" "''/v1/mcp'' \<in> insert [] (set strip_suffixes)"
    by (simp_all add: base_address_def strip_suffixes_def printable_def suffix_def Cons_eq_append_conv)
  then show ?thesis
    using normalise_strips [of "[]" "''https://mcp.example.com''" "''/v1/mcp''" 2]
    by (simp add: numeral_2_eq_2)
qed

section \<open>Changing the mode\<close>

definition cli_sample_deps :: "string cli_deps" where
  "cli_sample_deps =
     service_deps.extend (service_sample_deps
         \<lparr>dep_toml_parse := (\<lambda>t. Inr (sample_config\<lparr>policy := ReadOnly [''/u'']\<rparr>))\<rparr>)
       \<lparr>dep_current_exe = Inr ''/bin/d'', dep_unicode_lower = (\<lambda>s. s), dep_rfc3339 = (\<lambda>s. Inr 0),
        dep_entry_parse = (\<lambda>l. if l = [] then Inl ''empty'' else
           Inr \<lparr>ts = int (length l), mode = l, event = EvLifecycle l []\<rparr>),
        dep_event_print = (\<lambda>e. Inr (ev_event e)), dep_show_time = show_int,
        dep_json_value = (\<lambda>b. Inr (JObject [(''token'', JString ''00'')])), dep_json_show = (\<lambda>j. []),
        dep_status_show = (\<lambda>n. show_nat (unat n)), dep_http_client = Inr (),
        dep_http_post = (\<lambda>url auth body w. (Inr \<lparr>resp_status = 200, resp_body = Inr []\<rparr>, w))\<rparr>"

lemma cli_sample_sel [simp]:
  "dep_config_dir cli_sample_deps = (\<lambda>env. Some ''/cfg'')" "dep_platform cli_sample_deps = Linux"
  "dep_toml_parse cli_sample_deps = (\<lambda>t. Inr (sample_config\<lparr>policy := ReadOnly [''/u'']\<rparr>))"
  "dep_toml_print cli_sample_deps = (\<lambda>c. Inr ''c'')"
  "dep_rfc3339 cli_sample_deps = (\<lambda>s. Inr 0)" "dep_show_time cli_sample_deps = show_int"
  "dep_event_print cli_sample_deps = (\<lambda>e. Inr (ev_event e))"
  "dep_entry_parse cli_sample_deps = (\<lambda>l. if l = [] then Inl ''empty'' else
     Inr \<lparr>ts = int (length l), mode = l, event = EvLifecycle l []\<rparr>)"
  by (simp_all add: cli_sample_deps_def service_deps.defs service_sample_deps_def pairing_deps.defs
      pairing_sample_deps_def tunnel_deps.defs tunnel_sample_deps_def exec_deps.defs exec_sample_deps_def
      tmp_deps.defs sample_deps_def)

lemma tempfile_ok_cli [simp]: "tempfile_ok cli_sample_deps"
  by (rule tempfile_ok_simple)
    (simp_all add: cli_sample_deps_def service_deps.defs service_sample_deps_def pairing_deps.defs
      pairing_sample_deps_def tunnel_deps.defs tunnel_sample_deps_def exec_deps.defs exec_sample_deps_def
      tmp_deps.defs sample_deps_def)

lemma cmd_mode_saved:
  assumes "cmd_mode x cfg name rs allow_bins w = (Inr (), ls, w')"
  obtains p where "new_policy (to_lowercase x name) rs allow_bins = Inr p"
    and "save_user x (cfg\<lparr>policy := p\<rparr>) w = (Inr (), w')"
  using assms
  by (auto simp: cmd_mode_def seq_lift seq_perform fail_def say_def Let_def
      split: sum.splits prod.splits)

text \<open>C32. A mode change takes effect at the next start: after a successful \<^verbatim>\<open>mode\<close>, loading yields
  the mode that was asked for if there is no system policy, or one that leaves the mode
  \<open>Unrestricted\<close>; under a system policy with another mode it yields that mode, although the
  command reported its own.\<close>

theorem mode_takes_effect:
  assumes "wf_world w" and "reliable_reads w"
    and run: "cmd_mode x cfg name rs allow_bins w = (Inr (), ls, w')"
    and new: "new_policy (to_lowercase x name) rs allow_bins = Inr p"
    and toml: "\<forall>t. dep_toml_print x (cfg\<lparr>policy := p\<rparr>) = Inr t \<longrightarrow>
      valid_utf8_str t \<and> dep_toml_parse x t = Inr (cfg\<lparr>policy := p\<rparr>)"
  shows "(read_optional x w' (system_policy x) = Inr None \<longrightarrow> (\<exists>c. load x w' = Inr c \<and> policy c = p))
    \<and> (\<forall>s. read_optional x w' (system_policy x) = Inr (Some s) \<longrightarrow>
        (\<exists>c. load x w' = Inr c \<and> policy c = (if policy s = Unrestricted then p else policy s)))"
proof -
  from cmd_mode_saved [OF run] new have "save_user x (cfg\<lparr>policy := p\<rparr>) w = (Inr (), w')"
    by (metis sum.inject(2))
  from save_user_read [OF assms(1,2) this toml]
  have "read_optional x w' (user_policy x (env_vars w')) = Inr (Some (cfg\<lparr>policy := p\<rparr>))" .
  then show ?thesis by (auto simp: load_def merge_into_def default_config_def Let_def)
qed

theorem mode_takes_effect_witness:
  "\<exists>ls w' c. cmd_mode cli_sample_deps sample_config ''ReadOnly'' [''/u''] [] empty_world = (Inr (), ls, w')
    \<and> load cli_sample_deps w' = Inr c \<and> policy c = ReadOnly [''/u'']"
proof -
  let ?out = "cmd_mode cli_sample_deps sample_config ''ReadOnly'' [''/u''] [] empty_world"
  have p: "new_policy (to_lowercase cli_sample_deps ''ReadOnly'') [''/u''] [] = Inr (ReadOnly [''/u''])"
  proof -
    have "char_of (114 :: nat) = CHR ''r''" "char_of (111 :: nat) = CHR ''o''" by code_simp+
    then show ?thesis by (simp add: to_lowercase_def is_ascii_def ascii_lower_def new_policy_def)
  qed
  have "fst ?out = Inr ()" and sys: "\<not> path_exists (snd (snd ?out)) (system_policy cli_sample_deps)"
    using p by (simp_all add: cmd_mode_def seq_lift seq_perform say_def pairing_eval empty_world_def
        system_policy_def system_dir_def)
  then obtain ls where run: "?out = (Inr (), ls, snd (snd ?out))" by (metis prod.collapse)
  have "read_optional cli_sample_deps (snd (snd ?out)) (system_policy cli_sample_deps) = Inr None"
    using sys by (simp add: read_optional_def)
  with mode_takes_effect [OF empty_world_ok run p] run show ?thesis by (auto simp: valid_utf8_str_def)
qed

text \<open>The policy file is overwritten in place: when it was opened but the write failed, what it held
  is gone, and it holds the part of the new text that was written.\<close>

theorem failed_save_tears:
  assumes t: "dep_toml_print x cfg = Inr t" "t \<noteq> []"
    and p: "lookup w (user_policy x (env_vars w)) = Inr p" "node_at w p = Some (FileN old m)"
    and dirs: "\<forall>d. path_parent (user_policy x (env_vars w)) = Some d \<longrightarrow> is_ok (fst (fs_create_dir_all d w))"
    and opened: "fs_faults w OpOpen p = None" and failed: "fs_faults w OpWrite p = Some e"
  shows "\<exists>w' m'. save_user x cfg w = (Inl (io_to_string e), w')
    \<and> node_at w' p = Some (FileN (take (fs_partial w p) (as_bytes t)) m')"
proof -
  let ?path = "user_policy x (env_vars w)"
  obtain w1 where mk: "(case path_parent ?path of None \<Rightarrow> (Inr (), w)
      | Some d \<Rightarrow> fs_create_dir_all d w) = (Inr (), w1)"
    using dirs by (cases "path_parent ?path") (auto simp: is_ok_def prod_eq_iff split: sum.splits)
  then have k: "keeps_nodes w w1" and s: "same_machine w w1"
    using keeps_nodes_create_dir_all [of w] same_machine_create_dir_all [of w]
    by (auto split: option.splits) (metis snd_conv)+
  from p(1) have "lookup_create w1 ?path = Inr p"
    using walk_creating [OF walk_keeps [OF k s]] s
    by (auto simp: lookup_def lookup_create_def start_dir_def same_machine_def split: if_splits)
  moreover have "node_at w1 p = Some (FileN old m)" using k p(2) by (simp add: keeps_nodes_def)
  moreover have "write_fault w1 p (as_bytes t) = Some e" "fs_faults w1 OpOpen p = None" "fs_partial w1 = fs_partial w"
    using s opened failed t(2) by (simp_all add: same_machine_def write_fault_def as_bytes_def)
  ultimately show ?thesis
    using t(1) mk by (auto simp: save_user_def Let_def fs_write_def fs_open_write_def write_node_def
        write_result_def landed_def)
qed

section \<open>Reading the log\<close>

text \<open>The time asked for: that of \<^verbatim>\<open>--since\<close>, or 24 hours (in ns) before now.\<close>

definition asked_since :: "('k, 'z) cli_deps_scheme \<Rightarrow> string option \<Rightarrow> world \<Rightarrow> int \<Rightarrow> bool" where
  "asked_since x since w t \<longleftrightarrow>
     (case since of Some s \<Rightarrow> dep_rfc3339 x s = Inr t | None \<Rightarrow> t = now w - 24 * 3600 * 10 ^ 9)"

lemma since_time_world:
  "since_time x since w = (Inr t, ls, w1) \<Longrightarrow> ls = [] \<and> (w1 = w \<or> w1 = tick w) \<and> asked_since x since w t"
  by (cases since; cases "dep_rfc3339 x (the since)")
    (auto simp: since_time_def asked_since_def lift_def utc_now_def)

lemma entry_since_Some: "entry_since x t l = Some e \<longleftrightarrow> dep_entry_parse x l = Inr e \<and> t \<le> ts e"
  by (auto simp: entry_since_def split: sum.splits)

lemma file_entries_set:
  "e \<in> set (file_entries x w t f) \<longleftrightarrow>
    (\<exists>text l. fs_read_to_string w f = Inr text \<and> l \<in> set (str_lines text)
      \<and> dep_entry_parse x l = Inr e \<and> t \<le> ts e)"
  by (cases "fs_read_to_string w f") (auto simp: file_entries_def map_filter_set entry_since_Some)

lemma log_files_set: "f \<in> set (log_files dir rd) \<longleftrightarrow> (\<exists>q. Inr q \<in> set rd \<and> f = path_join dir (last q))"
proof -
  have "entry_path dir e = Some f \<longleftrightarrow> (\<exists>q. e = Inr q \<and> f = path_join dir (last q))" for e
    by (cases e) auto
  then show ?thesis by (auto simp: log_files_def map_filter_set)
qed

lemma log_files_bex:
  "(\<exists>f \<in> set (log_files dir rd). P f) \<longleftrightarrow> (\<exists>q. Inr q \<in> set rd \<and> P (path_join dir (last q)))"
  by (auto simp: log_files_set Bex_def)

lemma rev_take_rev: "rev (take n (rev xs)) = drop (length xs - n) xs"
  by (simp add: rev_take)

text \<open>The entries of the log since a time: those of every readable file of the directory.\<close>

definition logged_since :: "('k, 'z) cli_deps_scheme \<Rightarrow> world \<Rightarrow> (io_error + string list) list \<Rightarrow> int \<Rightarrow> Entry \<Rightarrow> bool" where
  "logged_since x w read_dir t e \<longleftrightarrow>
     (\<exists>q text l. Inr q \<in> set read_dir
        \<and> fs_read_to_string w (path_join (audit_dir x (env_vars w)) (last q)) = Inr text
        \<and> l \<in> set (str_lines text) \<and> dep_entry_parse x l = Inr e \<and> t \<le> ts e)"

lemma entries_logged:
  "e \<in> set (concat (List.map (file_entries x w t) (log_files (audit_dir x (env_vars w)) read_dir)))
    \<longleftrightarrow> logged_since x w read_dir t e"
  by (simp add: logged_since_def file_entries_set log_files_bex)

text \<open>What is said of their number, when \<open>n\<close> were found.\<close>

definition count_line :: "u64 \<Rightarrow> nat \<Rightarrow> line" where
  "count_line limit n = Err
     (if unat limit < n
      then ''('' @ show_nat (unat limit) @ '' entries shown of '' @ show_nat n @ '' total; use --limit to widen)''
      else ''('' @ show_nat n @ '' entries)'')"

text \<open>C36. \<^verbatim>\<open>audit\<close> shows the end of the log: of all the entries of the log directory that are not
  older than the time given by \<^verbatim>\<open>--since\<close>, or than 24 hours when none is given, in the order of the
  file names and of the lines, it prints the last \<open>limit\<close>, then how many there are and whether
  some were left out; it changes nothing but the clock.\<close>

theorem audit_shows_latest:
  assumes run: "cmd_audit x since limit w = (Inr (), ls, w')"
    and dir: "path_exists w (audit_dir x (env_vars w))"
  shows "\<exists>t read_dir es. asked_since x since w t \<and> fs_read_dir w' (audit_dir x (env_vars w')) = Inr read_dir
    \<and> (\<forall>e. e \<in> set es \<longleftrightarrow> logged_since x w' read_dir t e)
    \<and> es = concat (List.map (file_entries x w' t) (log_files (audit_dir x (env_vars w')) read_dir))
    \<and> ls = List.map (entry_line x) (drop (length es - unat limit) es) @ [count_line limit (length es)]
    \<and> (w' = w \<or> w' = tick w)"
proof -
  let ?dir = "audit_dir x (env_vars w)"
  from run dir have "seq (since_time x since) (audit_report x ?dir limit) w = (Inr (), ls, w')"
    by (simp add: cmd_audit_def Let_def)
  then obtain t l1 l2 w1 where 1: "since_time x since w = (Inr t, l1, w1)"
    and rest: "ls = l1 @ l2" "audit_report x ?dir limit t w1 = (Inr (), l2, w')"
    by (auto elim: seq_Inr)
  from since_time_world [OF 1] have l1: "l1 = []" and w1: "w1 = w \<or> w1 = tick w" and t: "asked_since x since w t"
    by simp_all
  then have env: "env_vars w1 = env_vars w" by auto
  from rest(2) obtain read_dir where rd: "fs_read_dir w1 ?dir = Inr read_dir"
    by (cases "fs_read_dir w1 ?dir") (auto simp: audit_report_def seq_inspect)
  let ?es = "concat (List.map (file_entries x w1 t) (log_files ?dir read_dir))"
  from rest(2) rd have "w' = w1"
    and "l2 = List.map (entry_line x) (drop (length ?es - unat limit) ?es) @ [count_line limit (length ?es)]"
    by (auto simp: audit_report_def seq_inspect Let_def seq_say say_def rev_take_rev count_line_def min_def)
  with rd env w1 l1 t rest(1) entries_logged [of _ x w1 t read_dir] show ?thesis
    by (intro exI [of _ t] exI [of _ read_dir]) auto
qed

definition logged_world :: world where
  "logged_world = sample_world
     \<lparr>fs_nodes := [([], DirN 4096 None), ([''cfg''], DirN 4096 None), ([''cfg'', ''audit''], DirN 4096 None),
        ([''cfg'', ''audit'', ''d.jsonl''], FileN (as_bytes (''a'' @ [CHR 0x0A] @ ''bb'' @ [CHR 0x0A])) None)]\<rparr>"

theorem audit_shows_latest_witness:
  "\<exists>ls w' es. cmd_audit cli_sample_deps (Some ''t'') 1 logged_world = (Inr (), ls, w')
    \<and> ls = List.map (entry_line cli_sample_deps) (drop (length es - 1) es) @ [count_line 1 (length es)]
    \<and> fs_nodes w' = fs_nodes logged_world"
proof -
  have dir: "audit_dir cli_sample_deps env = ''/cfg/audit''" for env
    by (simp add: audit_dir_def user_dir_def path_join_def is_absolute_def suffix_def)
  have ex: "path_exists logged_world (audit_dir cli_sample_deps (env_vars logged_world))"
    by (simp add: dir world_eval logged_world_def)
  have since: "since_time cli_sample_deps (Some ''t'') = ret 0"
    by (simp add: fun_eq_iff since_time_def lift_def ret_def)
  obtain rd where "fs_read_dir logged_world ''/cfg/audit'' = Inr rd"
    by (simp add: world_eval logged_world_def)
  then obtain ls w' where run: "cmd_audit cli_sample_deps (Some ''t'') 1 logged_world = (Inr (), ls, w')"
    using ex since by (simp add: cmd_audit_def audit_report_def seq_inspect dir Let_def seq_say say_def)
  from audit_shows_latest [OF run ex] obtain es
    where "ls = List.map (entry_line cli_sample_deps) (drop (length es - unat (1 :: u64)) es) @ [count_line 1 (length es)]"
    and "w' = logged_world \<or> w' = tick logged_world" by blast
  with run show ?thesis by (intro exI [of _ ls] exI [of _ w'] exI [of _ es]) auto
qed

section \<open>Installing a token from the command line\<close>

lemma token_text_world: "\<exists>r. token_text t w = (r, [], w)"
  by (auto simp: token_text_def inspect_def ret_def split: option.splits)

lemma pair_token_cases:
  assumes "pair_token x cfg t key_file cert_file pin_file w = (r, ls, w')"
  obtains (unread) e where "token_text t w = (Inl e, [], w)" "r = Inl e" "w' = w"
  | (no_key) s e where "token_text t w = (Inr s, [], w)" "\<not> path_exists w key_file" "r = Inl e" "w' = w"
  | (bad) s e where "token_text t w = (Inr s, [], w)" "path_exists w key_file"
      "token_decode x (trim s) = Inl e" "r = Inl e" "w' = w"
  | (decoded) s parsed where "token_text t w = (Inr s, [], w)" "path_exists w key_file"
      "token_decode x (trim s) = Inr parsed"
      "pair_decoded x cfg parsed cert_file pin_file w = (r, ls, w')"
proof -
  obtain tr where tt: "token_text t w = (tr, [], w)" using token_text_world by blast
  show thesis
  proof (cases tr)
    case (Inl e)
    with tt assms have "r = Inl e" "w' = w" by (simp_all add: pair_token_def seq_def)
    with tt Inl show thesis by (intro unread) simp_all
  next
    case (Inr s)
    with tt have step: "pair_token x cfg t key_file cert_file pin_file w
        = (if \<not> path_exists w key_file then fail (no_key_error key_file) w
           else seq (lift (token_decode x (trim s)))
                  (\<lambda>parsed. pair_decoded x cfg parsed cert_file pin_file) w)"
      by (simp add: pair_token_def seq_def [of "token_text t"] split: prod.splits)
    show thesis
    proof (cases "path_exists w key_file")
      case False
      with step assms have "r = Inl (no_key_error key_file)" "w' = w" by (simp_all add: fail_def)
      with tt Inr False show thesis by (intro no_key) simp_all
    next
      case True
      show thesis
      proof (cases "token_decode x (trim s)")
        case (Inl e)
        with step assms True have "r = Inl e" "w' = w" by (simp_all add: seq_lift fail_def)
        with tt \<open>tr = Inr s\<close> True Inl show thesis by (intro bad) simp_all
      next
        case (Inr parsed)
        with step assms True have "pair_decoded x cfg parsed cert_file pin_file w = (r, ls, w')"
          by (simp add: seq_lift)
        with tt \<open>tr = Inr s\<close> True Inr show thesis by (intro decoded) simp_all
      qed
    qed
  qed
qed

lemma pair_decoded_done:
  assumes "pair_decoded x cfg parsed cert_file pin_file w = (Inr (), ls, w')"
  obtains prev w3 where "install_token x parsed cfg cert_file pin_file w = (Inr prev, w3)"
    and "audit_write x (audit_new (policy_name (policy cfg)))
      (EvLifecycle ''paired'' (''endpoint='' @ pt_endpoint parsed)) w3 = (Inr (), w')"
  using assms
  by (auto simp: pair_decoded_def seq_perform seq_say say_def split: prod.splits sum.splits)

text \<open>C31. \<^verbatim>\<open>pair --token\<close>: without a key on disk, or with a token that does not decode, it fails and
  changes nothing; it succeeds only with a fit token of version 1, and has then replaced the
  certificate and the pin atomically by the token's, saved the token's endpoint and recorded
  the pairing.\<close>

theorem pair_token_effects:
  assumes ok: "tempfile_ok x" and run: "cmd_pair x cfg (Some t) out None api_key w = (r, ls, w')"
  shows "(\<not> path_exists w (key_path x (env_vars w)) \<longrightarrow> (\<exists>e. r = Inl e) \<and> w' = w)
    \<and> (\<forall>s e. token_text t w = (Inr s, [], w) \<and> token_decode x (trim s) = Inl e \<longrightarrow> (\<exists>e. r = Inl e) \<and> w' = w)
    \<and> (r = Inr () \<longrightarrow>
        (\<exists>s parsed. token_text t w = (Inr s, [], w) \<and> token_decode x (trim s) = Inr parsed
          \<and> pt_v parsed = 1 \<and> check_token x parsed = None
          \<and> (\<exists>w1 w2 w3 q1 q2.
               replaced (cert_path x (env_vars w)) (as_bytes (pt_daemon_cert_pem parsed)) w w1 q1
             \<and> replaced (cloud_pin_path x (env_vars w)) (as_bytes (pt_cloud_pin_hex parsed)) w1 w2 q2
             \<and> save_user x (cfg\<lparr>endpoint := pt_endpoint parsed\<rparr>) w2 = (Inr (), w3)
             \<and> audit_write x (audit_new (policy_name (policy cfg)))
                 (EvLifecycle ''paired'' (''endpoint='' @ pt_endpoint parsed)) w3 = (Inr (), w'))))"
proof -
  let ?cert = "cert_path x (env_vars w)" and ?pin = "cloud_pin_path x (env_vars w)"
  from run have "pair_token x cfg t (key_path x (env_vars w)) ?cert ?pin w = (r, ls, w')"
    by (simp add: cmd_pair_def Let_def)
  then show ?thesis
  proof (cases rule: pair_token_cases)
    case (decoded s parsed)
    have "\<exists>w1 w2 w3 q1 q2. replaced ?cert (as_bytes (pt_daemon_cert_pem parsed)) w w1 q1
        \<and> replaced ?pin (as_bytes (pt_cloud_pin_hex parsed)) w1 w2 q2
        \<and> save_user x (cfg\<lparr>endpoint := pt_endpoint parsed\<rparr>) w2 = (Inr (), w3)
        \<and> audit_write x (audit_new (policy_name (policy cfg)))
            (EvLifecycle ''paired'' (''endpoint='' @ pt_endpoint parsed)) w3 = (Inr (), w')
        \<and> check_token x parsed = None" if "r = Inr ()"
    proof -
      from decoded(4) that obtain prev w3
        where i: "install_token x parsed cfg ?cert ?pin w = (Inr prev, w3)"
        and a: "audit_write x (audit_new (policy_name (policy cfg)))
            (EvLifecycle ''paired'' (''endpoint='' @ pt_endpoint parsed)) w3 = (Inr (), w')"
        by (auto elim: pair_decoded_done)
      from install_token_effects [OF ok i] a show ?thesis by blast
    qed
    with decoded token_decoded_complete [OF decoded(3)] show ?thesis by auto
  qed auto
qed

theorem pair_token_effects_witness:
  "\<exists>e. fst (cmd_pair cli_sample_deps sample_config (Some ''T'') None None None empty_world) = Inl e"
proof -
  obtain r ls w' where run: "cmd_pair cli_sample_deps sample_config (Some ''T'') None None None empty_world
      = (r, ls, w')" by (metis prod_cases3)
  have "\<not> path_exists empty_world (key_path cli_sample_deps (env_vars empty_world))"
    by (simp add: key_path_def user_dir_def path_join_def world_eval empty_world_def)
  with pair_token_effects [OF tempfile_ok_cli run] run show ?thesis by simp
qed

end
