(* ===== verification/Linkless.thy ===== *)
theory Linkless
  imports WorldFacts
begin

text \<open>
  Machines without symbolic links: where a path leads is then told by its names, so that what
  is written under one name spares the files of another.
\<close>

section \<open>Names\<close>

definition name_end :: "string list \<Rightarrow> char" where
  "name_end p = (if p = [] \<or> last p = [] then CHR ''/'' else last (last p))"

definition proper_end :: "string \<Rightarrow> bool" where
  "proper_end s \<longleftrightarrow> s \<noteq> [] \<and> last s \<noteq> CHR ''/'' \<and> last s \<noteq> CHR ''.''"

lemma last_split_on: "s \<noteq> [] \<Longrightarrow> last s \<noteq> c \<Longrightarrow>
    last (split_on c s) \<noteq> [] \<and> last (last (split_on c s)) = last s"
proof (induction s)
  case (Cons x s)
  show ?case
  proof (cases "s = []")
    case False
    with Cons have ih: "last (split_on c s) \<noteq> []" "last (last (split_on c s)) = last s" by auto
    obtain t ts where t: "split_on c s = t # ts" by (cases "split_on c s") auto
    with ih False show ?thesis by (cases ts) auto
  qed (use Cons in auto)
qed simp

lemma last_os_names:
  assumes "proper_end s"
  shows "os_names s \<noteq> [] \<and> valid_name (last (os_names s)) \<and> name_end (p @ [last (os_names s)]) = last s"
proof -
  have s: "s \<noteq> []" "last s \<noteq> CHR ''/''" "last s \<noteq> CHR ''.''" using assms by (auto simp: proper_end_def)
  let ?ps = "split_on (CHR ''/'') s"
  from last_split_on [OF s(1,2)] have l: "last ?ps \<noteq> []" "last (last ?ps) = last s" by auto
  have "filter (\<lambda>x. x \<noteq> []) (butlast ?ps @ [last ?ps]) = filter (\<lambda>x. x \<noteq> []) (butlast ?ps) @ [last ?ps]"
    unfolding filter_append using l(1) by simp
  then have "path_segments s = filter (\<lambda>x. x \<noteq> []) (butlast ?ps) @ [last ?ps]"
    by (simp add: path_segments_def)
  moreover have "\<not> suffix ''/'' s" using s by (auto simp: suffix_def)
  ultimately have os: "os_names s = filter (\<lambda>x. x \<noteq> []) (butlast ?ps) @ [last ?ps]"
    by (simp add: os_names_def)
  have "CHR ''/'' \<notin> set (last ?ps)" by (rule split_on_free [of _ _ s]) simp
  moreover have "last ?ps \<noteq> ''.''" "last ?ps \<noteq> ''..''" using l s by auto
  ultimately show ?thesis using os l by (simp add: valid_name_def name_end_def)
qed

lemma last_path_join: "b \<noteq> [] \<Longrightarrow> path_join a b \<noteq> [] \<and> last (path_join a b) = last b"
  by (auto simp: path_join_def)

lemma last_os_names_text:
  assumes "proper_end s"
  shows "last (os_names s) = last (split_on (CHR ''/'') s)"
proof -
  have s: "s \<noteq> []" "last s \<noteq> CHR ''/''" using assms by (auto simp: proper_end_def)
  let ?ps = "split_on (CHR ''/'') s"
  from last_split_on [OF s] have l: "last ?ps \<noteq> []" "?ps \<noteq> []" by auto
  then have "path_segments s = filter (\<lambda>x. x \<noteq> []) (butlast ?ps) @ [last ?ps]"
    using filter_append [of "\<lambda>x. x \<noteq> []" "butlast ?ps" "[last ?ps]"] by (simp add: path_segments_def)
  moreover have "\<not> suffix ''/'' s" using s by (auto simp: suffix_def)
  ultimately show ?thesis by (simp add: os_names_def)
qed

lemma last_split_on_append:
  assumes b: "c \<notin> set b"
  shows "last (split_on c (a @ b)) = last (split_on c a) @ b"
proof (cases "c \<in> set a")
  case True
  then obtain u v where "a = u @ c # v" "c \<notin> set v" using split_list_last by fastforce
  with b show ?thesis by (simp add: split_on_append split_on_id)
qed (use b in \<open>simp add: split_on_id\<close>)

text \<open>The files of the log are known by their ending.\<close>

definition log_named :: "string \<Rightarrow> bool" where
  "log_named n \<longleftrightarrow> suffix ''.jsonl'' n"

lemma log_named_path: "log_named s \<Longrightarrow> proper_end s \<and> log_named (last (os_names s))"
proof -
  assume "log_named s"
  then obtain a where s: "s = a @ ''.jsonl''" by (auto simp: log_named_def suffix_def)
  then have "proper_end s" by (simp add: proper_end_def)
  moreover from this have "last (os_names s) = last (split_on (CHR ''/'') a) @ ''.jsonl''"
    using last_split_on_append [of "CHR ''/''" "''.jsonl''" a] s by (simp add: last_os_names_text)
  ultimately show ?thesis by (auto simp: log_named_def suffix_def)
qed

section \<open>Changes that spare other names\<close>

definition linkless :: "world \<Rightarrow> bool" where
  "linkless w \<longleftrightarrow> (\<forall>p t m. node_at w p \<noteq> Some (LinkN t m))"

text \<open>Directories stay, no link appears, and only files whose names end in \<open>c\<close> may change.\<close>

definition gentle :: "char \<Rightarrow> world \<Rightarrow> world \<Rightarrow> bool" where
  "gentle c w w' \<longleftrightarrow> same_machine w w' \<and> (linkless w \<longrightarrow> linkless w')
     \<and> (\<forall>p nd. node_at w p = Some nd \<longrightarrow> is_dir_node (Some nd) \<or> name_end p \<noteq> c \<longrightarrow>
          node_at w' p = Some nd)"

lemma gentle_refl [simp, intro]: "gentle c w w"
  by (simp add: gentle_def)

lemma gentle_trans: "gentle c w w' \<Longrightarrow> gentle c w' w'' \<Longrightarrow> gentle c w w''"
  unfolding gentle_def using same_machine_trans by blast

lemma gentle_tick [simp]: "gentle c w (tick w') = gentle c w w'"
  by (simp add: gentle_def linkless_def)

lemma gentle_new: "node_at w p = None \<Longrightarrow> \<not> is_link_node (Some nd) \<Longrightarrow> gentle c w (put_node p nd (tick w))"
  by (auto simp: gentle_def linkless_def)

lemma gentle_mkdir: "gentle c w (snd (fs_mkdir s w))"
  by (auto simp: fs_mkdir_def intro: gentle_new split: sum.splits option.splits)

lemma gentle_create_dir_all: "gentle c w (snd (fs_create_dir_all s w))"
  by (rule create_dir_all_keeps [where P = "gentle c w"]) (auto intro: gentle_trans gentle_mkdir)

lemma gentle_machine: "gentle c w w' \<Longrightarrow> same_machine w w'"
  by (simp add: gentle_def)

lemma gentle_linkless: "gentle c w w' \<Longrightarrow> linkless w \<Longrightarrow> linkless w'"
  by (simp add: gentle_def)

section \<open>Resolution without links\<close>

definition dirs_kept :: "world \<Rightarrow> world \<Rightarrow> bool" where
  "dirs_kept w v \<longleftrightarrow> same_machine w v
     \<and> (\<forall>p nd. node_at w p = Some nd \<longrightarrow> is_dir_node (Some nd) \<longrightarrow> node_at v p = Some nd)"

lemma gentle_dirs: "gentle c w v \<Longrightarrow> dirs_kept w v"
  by (simp add: gentle_def dirs_kept_def)

text \<open>A walk that succeeded still does, as long as its goal is there.\<close>

lemma walk_kept:
  "walk w False n cur ns = Inr q \<Longrightarrow> linkless w \<Longrightarrow> linkless v \<Longrightarrow> dirs_kept w v \<Longrightarrow>
    node_at v q \<noteq> None \<Longrightarrow> walk v False n cur ns = Inr q"
proof (induction w False n cur ns rule: walk.induct)
  case (1 w n cur)
  then show ?case by simp
next
  case (2 w n cur x xs)
  obtain nc where nc: "node_at w cur = Some nc" "is_dir_node (Some nc)"
    using "2.prems"(1) by (cases "node_at w cur") (auto split: if_splits)
  then have dir: "node_at w cur \<noteq> None" "\<not> \<not> is_dir_node (node_at w cur)" by simp_all
  have nf: "fs_faults w OpLookup cur = None" using "2.prems"(1) nc by (auto split: option.splits)
  have here: "node_at v cur = Some nc" "fs_faults v OpLookup cur = None"
    using "2.prems"(4) nc nf by (auto simp: dirs_kept_def same_machine_def)
  note step = nc nf here
  consider (dot) "x = ''.''" | (up) "x \<noteq> ''.''" "x = ''..''" | (name) "x \<noteq> ''.''" "x \<noteq> ''..''" by blast
  then show ?case
  proof cases
    case dot
    from "2.hyps"(1) [OF dir nf dot _ "2.prems"(2-5)] step dot "2.prems"(1) show ?thesis by simp
  next
    case up
    from "2.hyps"(2) [OF dir nf up _ "2.prems"(2-5)] step up "2.prems"(1) show ?thesis by simp
  next
    case name
    then obtain nd where nd: "node_at w (cur @ [x]) = Some nd"
      using "2.prems"(1) step by (auto split: option.splits)
    have go: "walk w False n (cur @ [x]) xs = Inr q"
      using "2.prems"(1,2) step name nd by (cases nd) (auto simp: linkless_def)
    have "node_at v (cur @ [x]) \<noteq> None"
    proof (cases "is_dir_node (Some nd)")
      case True
      with "2.prems"(4) nd show ?thesis by (auto simp: dirs_kept_def)
    next
      case False
      with go nd have "q = cur @ [x]" by (cases xs) auto
      with "2.prems"(5) show ?thesis by simp
    qed
    then obtain nd' where nd': "node_at v (cur @ [x]) = Some nd'" by blast
    have "walk v False n (cur @ [x]) xs = Inr q"
      using "2.hyps"(3-5) [OF dir nf name nd _ go "2.prems"(2-5)] "2.prems"(2) nd
      by (cases nd) (auto simp: linkless_def)
    with step name nd' "2.prems"(3) show ?thesis by (cases nd') (auto simp: linkless_def)
  qed
qed

lemma walk_append:
  "walk w False n cur xs = Inr e \<Longrightarrow> linkless w \<Longrightarrow> walk w False n cur (xs @ ys) = walk w False n e ys"
proof (induction w False n cur xs rule: walk.induct)
  case (1 w n cur)
  then have "e = cur" by simp
  then show ?case unfolding append_Nil by (rule arg_cong [OF sym])
next
  case (2 w n cur x xs)
  obtain nc where nc: "node_at w cur = Some nc" "is_dir_node (Some nc)"
    using "2.prems"(1) by (cases "node_at w cur") (auto split: if_splits)
  then have dir: "node_at w cur \<noteq> None" "\<not> \<not> is_dir_node (node_at w cur)" by simp_all
  have nf: "fs_faults w OpLookup cur = None" using "2.prems"(1) nc by (auto split: option.splits)
  consider (dot) "x = ''.''" | (up) "x \<noteq> ''.''" "x = ''..''" | (name) "x \<noteq> ''.''" "x \<noteq> ''..''" by blast
  then show ?case
  proof cases
    case dot
    from "2.hyps"(1) [OF dir nf dot _ "2.prems"(2)] nc nf dot "2.prems"(1) show ?thesis by simp
  next
    case up
    from "2.hyps"(2) [OF dir nf up _ "2.prems"(2)] nc nf up "2.prems"(1) show ?thesis by simp
  next
    case name
    then obtain nd where nd: "node_at w (cur @ [x]) = Some nd"
      using "2.prems"(1) nc nf by (auto split: option.splits)
    from "2.hyps"(3-5) [OF dir nf name nd _ _ "2.prems"(2)] nc nf name nd "2.prems"
    show ?thesis by (cases nd) (auto simp: linkless_def)
  qed
qed

lemma lookup_gentle:
  "lookup w s = Inr q \<Longrightarrow> linkless w \<Longrightarrow> gentle c w v \<Longrightarrow> node_at v q \<noteq> None \<Longrightarrow> lookup v s = Inr q"
  using walk_kept [of w max_symlinks _ "os_names s" q v] gentle_linkless [of c w v] gentle_dirs [of c w v]
  by (auto simp: lookup_def start_dir_def gentle_def same_machine_def split: if_splits)

text \<open>Where a walk ends, the last name is that of the path.\<close>

lemma walk_end:
  "walk w mk n cur (xs @ [x]) = Inr q \<Longrightarrow> linkless w \<Longrightarrow> valid_name x \<Longrightarrow> \<exists>p. q = p @ [x]"
proof (induction w mk n cur "xs @ [x]" arbitrary: xs rule: walk.induct)
  case (2 w mk n cur y ys)
  note walk = "2.prems"(1) [folded "2.hyps"(7)]
  obtain nc where nc: "node_at w cur = Some nc" "is_dir_node (Some nc)"
    using walk by (cases "node_at w cur") (auto split: if_splits)
  then have dir: "node_at w cur \<noteq> None" "\<not> \<not> is_dir_node (node_at w cur)" by simp_all
  have nf: "fs_faults w OpLookup cur = None" using walk nc by (auto split: option.splits)
  show ?case
  proof (cases xs)
    case Nil
    with "2.hyps"(7) "2.prems"(2,3) walk nc nf show ?thesis
      by (auto simp: linkless_def valid_name_def split: option.splits node.splits if_splits)
  next
    case (Cons z zs)
    with "2.hyps"(7) have ys: "y = z" "ys = zs @ [x]" by simp_all
    consider (dot) "y = ''.''" | (up) "y \<noteq> ''.''" "y = ''..''" | (name) "y \<noteq> ''.''" "y \<noteq> ''..''" by blast
    then show ?thesis
    proof cases
      case dot
      from "2.hyps"(1) [OF dir nf dot ys(2)] walk nc nf dot ys "2.prems"(2,3) show ?thesis by simp
    next
      case up
      from "2.hyps"(2) [OF dir nf up ys(2)] walk nc nf up ys "2.prems"(2,3) show ?thesis by simp
    next
      case name
      then obtain nd where nd: "node_at w (cur @ [y]) = Some nd"
        using walk nc nf ys by (auto split: option.splits if_splits)
      from "2.hyps"(3-5) [OF dir nf name nd _ ys(2)] walk nc nf name nd ys "2.prems"(2,3)
      show ?thesis by (cases nd) (auto simp: linkless_def)
    qed
  qed
qed simp

lemma walk_names_end:
  assumes "proper_end s" and "linkless w" and "walk w mk n cur (os_names s) = Inr q"
  shows "name_end q = last s"
proof -
  let ?ns = "os_names s"
  from last_os_names [OF assms(1)] have ns: "?ns \<noteq> []" "valid_name (last ?ns)" by simp_all
  with assms(3) have "walk w mk n cur (butlast ?ns @ [last ?ns]) = Inr q" by simp
  from walk_end [OF this assms(2) ns(2)] obtain p where "q = p @ [last ?ns]" by blast
  with last_os_names [OF assms(1), of p] show ?thesis by simp
qed

lemma lookup_end:
  assumes "proper_end s" and "linkless w"
  shows "lookup w s = Inr q \<Longrightarrow> name_end q = last s" "lookup_create w s = Inr q \<Longrightarrow> name_end q = last s"
  using walk_names_end [OF assms] by (auto simp: lookup_def lookup_create_def split: if_splits)

lemma lookup_create_last:
  assumes "proper_end s" and "linkless w" and "lookup_create w s = Inr q"
  shows "q \<noteq> [] \<and> last q = last (os_names s)"
proof -
  from last_os_names [OF assms(1)] have ns: "os_names s \<noteq> []" "valid_name (last (os_names s))" by simp_all
  with assms(3) have "walk w True max_symlinks (start_dir w s) (butlast (os_names s) @ [last (os_names s)]) = Inr q"
    by (simp add: lookup_create_def split: if_splits)
  from walk_end [OF this assms(2) ns(2)] show ?thesis by auto
qed

lemma lookup_kept:
  "lookup w s = Inr q \<Longrightarrow> linkless w \<Longrightarrow> linkless v \<Longrightarrow> dirs_kept w v \<Longrightarrow> node_at v q \<noteq> None \<Longrightarrow>
    lookup v s = Inr q"
  using walk_kept [of w max_symlinks _ "os_names s" q v]
  by (auto simp: lookup_def start_dir_def dirs_kept_def same_machine_def split: if_splits)

text \<open>An entry that a path named is what the path leads to, once there is a file.\<close>

lemma entry_resolves:
  assumes q: "lookup_entry v s = Inr q" and l: "linkless v" "linkless w" and k: "dirs_kept v w"
    and nd: "node_at w q = Some nd"
  shows "lookup w s = Inr q"
proof -
  let ?ns = "os_names s"
  from q obtain e where e: "walk v False max_symlinks (start_dir v s) (butlast ?ns) = Inr e"
    "is_dir_node (node_at v e)" "q = e @ [last ?ns]" "fs_faults v OpLookup e = None"
    and ns: "?ns \<noteq> []" "valid_name (last ?ns)" "s \<noteq> []"
    by (auto simp: lookup_entry_def Let_def split: if_splits sum.splits option.splits)
  from e(2) obtain j m where de: "node_at v e = Some (DirN j m)" by (rule is_dir_nodeE)
  then have we: "node_at w e = Some (DirN j m)" using k by (auto simp: dirs_kept_def)
  have st: "start_dir w s = start_dir v s" "fs_faults w = fs_faults v"
    using k by (simp_all add: start_dir_def dirs_kept_def same_machine_def)
  have "walk w False max_symlinks (start_dir v s) (butlast ?ns) = Inr e"
    using walk_kept [OF e(1) l k] we by simp
  from walk_append [OF this l(2), of "[last ?ns]"]
  have "walk w False max_symlinks (start_dir v s) ?ns = walk w False max_symlinks e [last ?ns]"
    using ns(1) by simp
  also have "\<dots> = Inr q"
    using we e(3,4) st(2) nd ns(2) l(2) by (cases nd) (auto simp: valid_name_def linkless_def)
  finally show ?thesis using ns(3) st(1) by (simp add: lookup_def)
qed

end
