(* ===== verification/PairRun.thy ===== *)
theory PairRun
  imports CliProps Linkless
begin

text \<open>
  From pairing to connecting: what \<^verbatim>\<open>pair --token\<close> leaves on disk is what the tunnel reads when
  the daemon starts.  The files are told apart by the last character of their names: \<open>t\<close> for
  \<^verbatim>\<open>daemon.crt\<close>, \<open>n\<close> for \<^verbatim>\<open>cloud.pin\<close>, \<open>y\<close> for \<^verbatim>\<open>daemon.key\<close>, \<open>l\<close> for \<^verbatim>\<open>policy.toml\<close> and for
  the log.
\<close>

section \<open>What the writes of the daemon spare\<close>

lemma gentle_open_write:
  assumes "proper_end s" and "linkless w"
  shows "gentle (last s) w (snd (fs_open_write app s d w))"
proof (cases "lookup_create w s")
  case (Inr p)
  have "name_end p = last s" using lookup_end(2) [OF assms Inr] .
  then have "gentle (last s) w (put_node p nd (tick w))"
    if "write_node app c (now w) (node_at w p) = Inr nd" for c nd
    using that by (auto simp: gentle_def linkless_def write_node_def split: option.splits node.splits)
  then show ?thesis using Inr by (simp add: fs_open_write_def split: option.splits sum.splits)
qed (simp add: fs_open_write_def)

lemma gentle_made:
  "gentle c w (snd (case q of None \<Rightarrow> (Inr (), w) | Some parent \<Rightarrow> fs_create_dir_all parent w))"
  using gentle_create_dir_all by (simp split: option.splits)

lemma gentle_append_line:
  assumes "proper_end s" and "linkless w"
  shows "gentle (last s) w (snd (append_line s l w))"
proof -
  obtain r w1 where a: "fs_append s (as_bytes l) w = (r, w1)" by fastforce
  with gentle_open_write [OF assms, of True] have g: "gentle (last s) w w1"
    by (metis fs_append_def snd_conv)
  from gentle_open_write [OF assms(1) gentle_linkless [OF g assms(2)], of True]
  have "gentle (last s) w (snd (fs_append s [byte_of_char (CHR 0x0A)] w1))"
    using gentle_trans [OF g] by (simp add: fs_append_def)
  with a g show ?thesis by (cases r) (simp_all add: append_line_def as_bytes_def)
qed

lemma proper_join: "proper_end b \<Longrightarrow> proper_end (path_join a b) \<and> last (path_join a b) = last b"
  using last_path_join [of b a] by (simp add: proper_end_def)

lemma gentle_audit_write:
  assumes "linkless w"
  shows "gentle (CHR ''l'') w (snd (audit_write x a ev w))"
proof -
  let ?path = "audit_log_for x (env_vars w) (dep_day x (now w))"
  have path: "proper_end ?path" "last ?path = CHR ''l''"
    using proper_join [of "dep_day x (now w) @ ''.jsonl''" "audit_dir x (env_vars w)"]
    by (simp_all add: audit_log_for_def proper_end_def)
  obtain made w2 where mk: "(case path_parent ?path of None \<Rightarrow> (Inr (), tick w)
      | Some parent \<Rightarrow> fs_create_dir_all parent (tick w)) = (made, w2)" by fastforce
  with gentle_made [of "CHR ''l''" "tick w" "path_parent ?path"]
  have "gentle (CHR ''l'') (tick w) w2" by simp
  then have g: "gentle (CHR ''l'') w w2" by (simp add: gentle_def linkless_def same_machine_def)
  have "gentle (CHR ''l'') w (snd (append_line ?path line w2))" for line
    using gentle_append_line [OF path(1) gentle_linkless [OF g assms], of line] path(2) gentle_trans [OF g]
    by simp
  with mk g show ?thesis
    by (cases made) (simp_all add: audit_write_def utc_now_def Let_def split: sum.splits)
qed

lemma gentle_save_user:
  assumes "linkless w"
  shows "gentle (CHR ''l'') w (snd (save_user x cfg w))"
proof -
  let ?path = "user_policy x (env_vars w)"
  have path: "proper_end ?path" "last ?path = CHR ''l''"
    using proper_join [of "''policy.toml''" "user_dir x (env_vars w)"]
    by (simp_all add: user_policy_def proper_end_def)
  obtain made w1 where mk: "(case path_parent ?path of None \<Rightarrow> (Inr (), w)
      | Some parent \<Rightarrow> fs_create_dir_all parent w) = (made, w1)" by fastforce
  with gentle_made [of "CHR ''l''" w "path_parent ?path"] have g: "gentle (CHR ''l'') w w1" by simp
  have "gentle (CHR ''l'') w (snd (fs_write ?path d w1))" for d
    using gentle_open_write [OF path(1) gentle_linkless [OF g assms], of False d] path(2) gentle_trans [OF g]
    by (simp add: fs_write_def)
  moreover have "snd (save_user x cfg w) = w1
      \<or> (\<exists>d. snd (save_user x cfg w) = snd (fs_write ?path d w1))"
    using mk by (auto simp: save_user_def Let_def split: sum.splits prod.splits) (metis snd_conv)+
  ultimately show ?thesis using g by auto
qed

text \<open>A successful replacement: its path then names a file with the data, other names are spared.\<close>

lemma replace_via_temp_done:
  assumes "tempfile_ok x" and "replace_via_temp x dir path d w = (Inr (), w')"
  obtains t v where "staged w t d v" and "os_rename t path v = (Inr (), w')"
proof -
  from assms(2) obtain t w1 w2 where n: "dep_tmp_new_in x dir w = (Inr t, w1)"
    and wr: "file_write_all t d w1 = (Inr (), w2)" and p: "dep_tmp_persist x t path w2 = (Inr (), w')"
    by (auto simp: replace_via_temp_def split: prod.splits sum.splits)
  from tmp_new_in_cases [OF assms(1) n] obtain q m where "os_create_new q m w = (Inr t, w1)" by auto
  from staged_write [OF staged_new [OF this] wr] have st: "staged w t d w2" by simp
  then have "\<not> is_dir_node (node_at w2 t)" by (auto simp: staged_def)
  with tmp_persist_cases [OF assms(1) p] st that show thesis by auto
qed

lemma renamed:
  assumes st: "staged w t d v" and rn: "os_rename t s v = (Inr (), w')"
    and w: "linkless w" and s: "proper_end s"
  shows "gentle (last s) w w' \<and> (\<exists>q m. lookup w' s = Inr q \<and> node_at w' q = Some (FileN d m))"
proof -
  from st obtain m where t: "node_at v t = Some (FileN d m)" "node_at w t = None"
    and same: "same_machine w v" and rest: "\<And>p. p \<noteq> t \<Longrightarrow> node_at v p = node_at w p"
    by (auto simp: staged_def)
  from os_rename_ok [OF rn] t obtain q where q: "lookup_entry v s = Inr q" "\<not> is_dir_node (node_at v q)"
    and w': "w' = put_node q (FileN d m) (del_node t v)" by auto
  have lv: "linkless v" unfolding linkless_def
  proof (intro allI)
    fix p u k show "node_at v p \<noteq> Some (LinkN u k)"
      using w t(1) rest [of p] by (cases "p = t") (simp_all add: linkless_def)
  qed
  obtain e where "q = e @ [last (os_names s)]"
    using q(1) by (auto simp: lookup_entry_def Let_def split: if_splits sum.splits option.splits)
  then have qe: "name_end q = last s" using last_os_names [OF s, of e] by simp
  have at: "node_at w' p = (if p = q then Some (FileN d m) else if p = t then None else node_at w p)" for p
    using w' rest [of p] by simp
  have lw: "linkless w'" using w by (auto simp: linkless_def at)
  have g: "gentle (last s) w w'"
    unfolding gentle_def
  proof (intro conjI impI allI)
    show "same_machine w w'" using same w' by simp
    fix p nd assume p: "node_at w p = Some nd" and "is_dir_node (Some nd) \<or> name_end p \<noteq> last s"
    moreover have "p \<noteq> t" using p t by auto
    ultimately show "node_at w' p = Some nd" using q(2) qe rest [of p] at [of p] by auto
  qed (rule lw)
  have "dirs_kept v w'"
    unfolding dirs_kept_def
  proof (intro conjI impI allI)
    show "same_machine v w'" using w' by simp
    fix p nd assume "node_at v p = Some nd" "is_dir_node (Some nd)"
    moreover from this have "p \<noteq> t" "p \<noteq> q" using t(1) q(2) by auto
    ultimately show "node_at w' p = Some nd" using at [of p] rest [of p] by simp
  qed
  from entry_resolves [OF q(1) lv lw this] at [of q] have "lookup w' s = Inr q" by simp
  with g at [of q] show ?thesis by auto
qed

lemma write_atomic_done:
  assumes ok: "tempfile_ok x" and run: "write_atomic x s d w = (Inr (), w')"
    and w: "linkless w" and s: "proper_end s"
  shows "gentle (last s) w w' \<and> (\<exists>q m. lookup w' s = Inr q \<and> node_at w' q = Some (FileN d m))"
proof -
  obtain made w1 where mk: "(case path_parent s of None \<Rightarrow> (Inr (), w)
      | Some parent \<Rightarrow> fs_create_dir_all parent w) = (made, w1)" by fastforce
  with gentle_made [of "last s" w "path_parent s"] have g: "gentle (last s) w w1" by simp
  from run mk have "replace_via_temp x (case path_parent s of None \<Rightarrow> ''.'' | Some p \<Rightarrow> p) s d w1 = (Inr (), w')"
    by (cases made) (simp_all add: write_atomic_def)
  from ok this obtain t v where "staged w1 t d v" "os_rename t s v = (Inr (), w')"
    by (rule replace_via_temp_done)
  from renamed [OF this gentle_linkless [OF g w] s] gentle_trans [OF g] show ?thesis by blast
qed

section \<open>What is on disk stays there\<close>

definition holds :: "world \<Rightarrow> string \<Rightarrow> bytes \<Rightarrow> bool" where
  "holds w s d \<longleftrightarrow> (\<exists>q m. lookup w s = Inr q \<and> node_at w q = Some (FileN d m))"

definition present :: "world \<Rightarrow> string \<Rightarrow> bool" where
  "present w s \<longleftrightarrow> (\<exists>q. lookup w s = Inr q \<and> node_at w q \<noteq> None)"

lemma spared:
  assumes "linkless w" and "proper_end s" and "gentle c w w'" and "last s \<noteq> c"
  shows "holds w s d \<Longrightarrow> holds w' s d" and "present w s \<Longrightarrow> present w' s"
proof -
  have "lookup w' s = Inr q \<and> node_at w' q = Some nd" if "lookup w s = Inr q" "node_at w q = Some nd" for q nd
  proof -
    have "node_at w' q = Some nd"
      using that lookup_end(1) [OF assms(2,1) that(1)] assms(3,4) by (simp add: gentle_def)
    with lookup_gentle [OF that(1) assms(1,3)] show ?thesis by simp
  qed
  then show "holds w s d \<Longrightarrow> holds w' s d" and "present w s \<Longrightarrow> present w' s"
    unfolding holds_def present_def by blast+
qed

lemma spared_read:
  assumes "linkless w" and "proper_end s" and "gentle c w w'" and "last s \<noteq> c" and "present w s"
  shows "fs_read w' s = fs_read w s"
proof -
  from assms(5) obtain q nd where q: "lookup w s = Inr q" "node_at w q = Some nd" by (auto simp: present_def)
  then have "node_at w' q = Some nd"
    using lookup_end(1) [OF assms(2,1) q(1)] assms(3,4) by (simp add: gentle_def)
  with q lookup_gentle [OF q(1) assms(1,3)] assms(3) show ?thesis
    by (simp add: fs_read_def gentle_def same_machine_def split: option.split)
qed

definition readable_world :: "world \<Rightarrow> bool" where
  "readable_world w \<longleftrightarrow> (\<forall>p. fs_faults w OpStat p = None \<and> fs_faults w OpRead p = None)"

lemma held: "holds w s d \<Longrightarrow> readable_world w \<Longrightarrow> fs_read w s = Inr d \<and> path_exists w s"
  by (auto simp: holds_def readable_world_def fs_read_def path_exists_def fs_metadata_def)

lemma present_iff: "readable_world w \<Longrightarrow> present w s = path_exists w s"
  by (auto simp: present_def readable_world_def path_exists_def fs_metadata_def is_ok_def
      split: sum.splits option.splits)

lemma readable_machine: "same_machine w w' \<Longrightarrow> readable_world w \<Longrightarrow> readable_world w'"
  by (simp add: same_machine_def readable_world_def)

lemma daemon_paths:
  "proper_end (cert_path x env)" "last (cert_path x env) = CHR ''t''"
  "proper_end (key_path x env)" "last (key_path x env) = CHR ''y''"
  "proper_end (cloud_pin_path x env)" "last (cloud_pin_path x env) = CHR ''n''"
  using proper_join [of "''daemon.crt''" "user_dir x env"] proper_join [of "''daemon.key''" "user_dir x env"]
    proper_join [of "''cloud.pin''" "user_dir x env"]
  by (simp_all add: cert_path_def key_path_def cloud_pin_path_def proper_end_def)

lemma install_token_steps:
  assumes "install_token x token cfg certp pinp w = (Inr prev, w3)"
  obtains w1 w2 where "write_atomic x certp (as_bytes (pt_daemon_cert_pem token)) w = (Inr (), w1)"
    and "write_atomic x pinp (as_bytes (pt_cloud_pin_hex token)) w1 = (Inr (), w2)"
    and "save_user x (cfg\<lparr>endpoint := pt_endpoint token\<rparr>) w2 = (Inr (), w3)"
  using assms by (auto simp: install_token_def Let_def split: option.splits prod.splits sum.splits if_splits)

text \<open>What the code does after a token is decoded: install it, then log an event.\<close>

lemma installed_files:
  assumes ok: "tempfile_ok x" and w: "linkless w" "readable_world w"
    and i: "install_token x parsed cfg (cert_path x (env_vars w)) (cloud_pin_path x (env_vars w)) w = (Inr prev, w3)"
    and a: "audit_write x log ev w3 = (Inr (), w')"
    and key: "path_exists w (key_path x (env_vars w))"
  shows "readable_world w' \<and> env_vars w' = env_vars w
    \<and> fs_read w' (key_path x (env_vars w)) = fs_read w (key_path x (env_vars w))
    \<and> path_exists w' (key_path x (env_vars w))
    \<and> holds w' (cert_path x (env_vars w)) (as_bytes (pt_daemon_cert_pem parsed))
    \<and> holds w' (cloud_pin_path x (env_vars w)) (as_bytes (pt_cloud_pin_hex parsed))"
proof -
  let ?cert = "cert_path x (env_vars w)" and ?pin = "cloud_pin_path x (env_vars w)"
    and ?key = "key_path x (env_vars w)"
  note paths = daemon_paths [of x "env_vars w"]
  from i obtain w1 w2 where 1: "write_atomic x ?cert (as_bytes (pt_daemon_cert_pem parsed)) w = (Inr (), w1)"
    and 2: "write_atomic x ?pin (as_bytes (pt_cloud_pin_hex parsed)) w1 = (Inr (), w2)"
    and 3: "save_user x (cfg\<lparr>endpoint := pt_endpoint parsed\<rparr>) w2 = (Inr (), w3)"
    by (rule install_token_steps)
  from write_atomic_done [OF ok 1 w(1) paths(1)] paths(2) have g1: "gentle (CHR ''t'') w w1"
    and c1: "holds w1 ?cert (as_bytes (pt_daemon_cert_pem parsed))" by (auto simp: holds_def)
  note l1 = gentle_linkless [OF g1 w(1)]
  from write_atomic_done [OF ok 2 l1 paths(5)] paths(6) have g2: "gentle (CHR ''n'') w1 w2"
    and p2: "holds w2 ?pin (as_bytes (pt_cloud_pin_hex parsed))" by (auto simp: holds_def)
  note l2 = gentle_linkless [OF g2 l1]
  have g3: "gentle (CHR ''l'') w2 w3" using gentle_save_user [OF l2] 3 by (metis snd_conv)
  have "gentle (CHR ''l'') w3 w'"
    using gentle_audit_write [OF gentle_linkless [OF g3 l2]] a by (metis snd_conv)
  with g3 have g: "gentle (CHR ''l'') w2 w'" by (rule gentle_trans)
  have m: "same_machine w w'"
    using gentle_machine [OF g1] gentle_machine [OF g2] gentle_machine [OF g] same_machine_trans by blast
  from key w(2) have k0: "present w ?key" by (simp add: present_iff)
  from spared(2) [OF w(1) paths(3) g1 _ k0] paths(4) have k1: "present w1 ?key" by simp
  from spared(2) [OF l1 paths(3) g2 _ k1] paths(4) have k2: "present w2 ?key" by simp
  from spared(2) [OF l2 paths(3) g _ k2] paths(4) have k: "present w' ?key" by simp
  have r: "fs_read w' ?key = fs_read w ?key"
    using spared_read [OF w(1) paths(3) g1 _ k0] spared_read [OF l1 paths(3) g2 _ k1]
      spared_read [OF l2 paths(3) g _ k2] paths(4) by simp
  from spared(1) [OF l1 paths(1) g2 _ c1] paths(2)
  have "holds w2 ?cert (as_bytes (pt_daemon_cert_pem parsed))" by simp
  from spared(1) [OF l2 paths(1) g _ this] paths(2)
  have c: "holds w' ?cert (as_bytes (pt_daemon_cert_pem parsed))" by simp
  from spared(1) [OF l2 paths(5) g _ p2] paths(6)
  have p: "holds w' ?pin (as_bytes (pt_cloud_pin_hex parsed))" by simp
  from readable_machine [OF m w(2)] m k r c p present_iff [of w' ?key] show ?thesis
    by (simp add: same_machine_def)
qed

lemma installed_connects:
  assumes ok: "tempfile_ok x" and w: "linkless w" "readable_world w"
    and i: "install_token x parsed cfg (cert_path x (env_vars w)) (cloud_pin_path x (env_vars w)) w = (Inr prev, w3)"
    and a: "audit_write x log ev w3 = (Inr (), w')"
    and key: "path_exists w (key_path x (env_vars w))"
  shows "fs_read w' (cert_path x (env_vars w')) = Inr (as_bytes (pt_daemon_cert_pem parsed))
    \<and> tunnel_setup x w' = build_client_config x w' (cert_path x (env_vars w')) (key_path x (env_vars w'))
        (Some (as_bytes (pt_cloud_pin_hex parsed)))
    \<and> (\<forall>c der. tunnel_setup x w' = Inr c \<and> pt_cloud_pin_hex parsed = pin_hex x der \<longrightarrow>
         (\<forall>cert msg sig. trusts_server x (cc_verifier c) cert msg sig \<longleftrightarrow> dep_blake3 x cert = dep_blake3 x der))"
proof -
  from installed_files [OF ok w i a key] have r: "readable_world w'" and env: "env_vars w' = env_vars w"
    and k: "path_exists w' (key_path x (env_vars w))"
    and c: "holds w' (cert_path x (env_vars w)) (as_bytes (pt_daemon_cert_pem parsed))"
    and p: "holds w' (cloud_pin_path x (env_vars w)) (as_bytes (pt_cloud_pin_hex parsed))" by blast+
  have found: "tunnel_setup x w' = build_client_config x w' (cert_path x (env_vars w'))
      (key_path x (env_vars w')) (Some (as_bytes (pt_cloud_pin_hex parsed)))"
    using held [OF c r] held [OF p r] k by (simp add: tunnel_setup_def env Let_def)
  have pin: "cc_verifier c = \<lparr>pin = as_bytes (pt_cloud_pin_hex parsed)\<rparr>" if "tunnel_setup x w' = Inr c" for c
    using that unfolding found by (auto simp: build_client_config_def split: sum.splits)
  show ?thesis
    using held [OF c r] found pin env by (auto simp: trusts_pinned)
qed

section \<open>Property\<close>

text \<open>C5. Pairing makes the daemon connect, and only to the pinned cloud: on a machine without
  symbolic links, after a successful \<^verbatim>\<open>pair --token\<close> the tunnel's start-up finds certificate,
  key and pin, hands on exactly the token's certificate and pin, and, if the token's pin is that
  of a certificate \<open>der\<close>, every verifier it makes trusts exactly the servers whose certificate
  has the hash of \<open>der\<close>.\<close>

theorem paired_daemon_connects:
  assumes ok: "tempfile_ok x" and w: "linkless w" "readable_world w"
    and run: "cmd_pair x cfg (Some t) out None api_key w = (Inr (), ls, w')"
  shows "\<exists>s parsed. token_text t w = (Inr s, [], w) \<and> token_decode x (trim s) = Inr parsed
    \<and> fs_read w' (cert_path x (env_vars w')) = Inr (as_bytes (pt_daemon_cert_pem parsed))
    \<and> tunnel_setup x w' = build_client_config x w' (cert_path x (env_vars w')) (key_path x (env_vars w'))
        (Some (as_bytes (pt_cloud_pin_hex parsed)))
    \<and> (\<forall>c der. tunnel_setup x w' = Inr c \<and> pt_cloud_pin_hex parsed = pin_hex x der \<longrightarrow>
         (\<forall>cert msg sig. trusts_server x (cc_verifier c) cert msg sig \<longleftrightarrow> dep_blake3 x cert = dep_blake3 x der))"
proof -
  from run have "pair_token x cfg t (key_path x (env_vars w)) (cert_path x (env_vars w))
      (cloud_pin_path x (env_vars w)) w = (Inr (), ls, w')"
    by (simp add: cmd_pair_def Let_def)
  then obtain s parsed where t: "token_text t w = (Inr s, [], w)" "token_decode x (trim s) = Inr parsed"
    and key: "path_exists w (key_path x (env_vars w))"
    and go: "pair_decoded x cfg parsed (cert_path x (env_vars w)) (cloud_pin_path x (env_vars w)) w
      = (Inr (), ls, w')"
    by (cases rule: pair_token_cases) auto
  from go obtain prev w3 where i: "install_token x parsed cfg (cert_path x (env_vars w)) (cloud_pin_path x (env_vars w)) w
      = (Inr prev, w3)"
    and a: "audit_write x (audit_new (policy_name (policy cfg)))
      (EvLifecycle ''paired'' (''endpoint='' @ pt_endpoint parsed)) w3 = (Inr (), w')"
    by (rule pair_decoded_done)
  from installed_connects [OF ok w i a key] t show ?thesis by blast
qed
text \<open>The daemon of the sample machine, paired again with the sample token.\<close>

lemma cli_pair_sel [simp]:
  "dep_b64_decode cli_sample_deps
     = (\<lambda>s. case hex_decode (as_bytes s) of None \<Rightarrow> Inl ''bad'' | Some b \<Rightarrow> Inr b)"
  "dep_token_parse cli_sample_deps = (\<lambda>b. Inr sample_token)"
  "dep_first_cert cli_sample_deps = (\<lambda>b. Some (Inr b))"
  "dep_tmp_new_in cli_sample_deps = simple_new_in"
  "dep_tmp_persist cli_sample_deps = simple_persist" "dep_tmp_drop cli_sample_deps = simple_drop"
  "dep_json_entry cli_sample_deps = (\<lambda>e. Inr ''e'')" "dep_day cli_sample_deps = (\<lambda>t. ''d'')"
  by (simp_all add: cli_sample_deps_def service_deps.defs service_sample_deps_def pairing_deps.defs
      pairing_sample_deps_def tunnel_deps.defs tunnel_sample_deps_def exec_deps.defs exec_sample_deps_def
      tmp_deps.defs sample_deps_def)

lemma paired_world_facts: "linkless paired_world" "readable_world paired_world"
  by (simp_all add: linkless_def readable_world_def paired_world_def)

lemma decoded: "token_decode cli_sample_deps (trim ''00'') = Inr sample_token"
proof -
  have "trim ''00'' = ''00''" by (rule trim_printable) (simp_all add: printable_def)
  moreover have "hex_decode (as_bytes ''00'') = Some [0]" by code_simp
  ultimately show ?thesis by (simp add: token_decode_def) (simp add: sample_token_def)
qed

lemma checked: "check_token cli_sample_deps sample_token = None"
  by (simp add: check_token_def sample_token_def is_ascii_hexdigit_def list_all_iff)

lemma sample_paths: "key_path cli_sample_deps e = ''/cfg/daemon.key''" "cert_path cli_sample_deps e = ''/cfg/daemon.crt''"
  "cloud_pin_path cli_sample_deps e = ''/cfg/cloud.pin''"
  by (simp_all add: key_path_def cert_path_def cloud_pin_path_def user_dir_def path_join_def path_eval)

lemma sample_pairing: "fst (cmd_pair cli_sample_deps sample_config (Some ''00'') None None None paired_world) = Inr ()"
proof -
  have "path_exists paired_world ''/cfg/daemon.key''" by (simp add: paired_world_def world_eval)
  then show ?thesis
    by (simp add: cmd_pair_def pair_token_def token_text_def strip_prefix_str_def sample_paths decoded
        seq_lift seq_perform seq_say pair_decoded_def say_def install_token_def checked daemon_eval)
qed

theorem paired_daemon_connects_witness:
  "\<exists>ls w'. cmd_pair cli_sample_deps sample_config (Some ''00'') None None None paired_world = (Inr (), ls, w')
    \<and> fs_read w' ''/cfg/daemon.crt'' = Inr (as_bytes ''PEM'')"
proof -
  obtain ls w' where run: "cmd_pair cli_sample_deps sample_config (Some ''00'') None None None paired_world
      = (Inr (), ls, w')" using sample_pairing by (metis prod.collapse)
  from paired_daemon_connects [OF tempfile_ok_cli paired_world_facts this] obtain s parsed
    where "token_text ''00'' paired_world = (Inr s, [], paired_world)"
      and "token_decode cli_sample_deps (trim s) = Inr parsed"
      and "fs_read w' (cert_path cli_sample_deps (env_vars w')) = Inr (as_bytes (pt_daemon_cert_pem parsed))"
    by blast
  then have "fs_read w' ''/cfg/daemon.crt'' = Inr (as_bytes ''PEM'')"
    using decoded by (simp add: token_text_def strip_prefix_str_def ret_def sample_paths)
      (simp add: sample_token_def)
  with run show ?thesis by blast
qed

end
