(* ===== verification/EnrolRun.thy ===== *)
theory EnrolRun
  imports PairRun
begin

text \<open>
  From enrolling to connecting: what \<^verbatim>\<open>pair --enrol\<close> asks the cloud for, and what the tunnel
  reads afterwards.  The request itself is made by a library; all that is used of it is that it
  changes no file.
\<close>

section \<open>The steps of an enrolment\<close>

definition http_quiet :: "('k, 'z) cli_deps_scheme \<Rightarrow> bool" where
  "http_quiet x \<longleftrightarrow> (\<forall>url auth body w. let w' = snd (dep_http_post x url auth body w) in
     same_machine w w' \<and> (\<forall>p. node_at w' p = node_at w p))"

lemma map_sum_Inr: "map_sum f id r = Inr b \<longleftrightarrow> r = Inr b"
  by (cases r) simp_all

lemma enrol_done:
  assumes "cmd_pair_enrol x cfg cloud_url api_key key_file cert_file pin_file w = (Inr (), ls, w')"
  obtains kp was_new w1 csr resp w2 body_bytes token handle parsed prev w3
    where "ensure_keypair x key_file w = (Inr (kp, was_new), w1)" and "build_csr x kp = Inr csr"
    and "dep_http_post x (normalise_cloud_url cloud_url @ ''/v1/agent/enroll'') (''Bearer '' @ api_key)
      (JObject [(''csr_pem'', JString csr)]) w1 = (Inr resp, w2)"
    and "resp_body resp = Inr body_bytes" and "enrol_answer x (resp_status resp) body_bytes = Inr (token, handle)"
    and "token_decode x (trim token) = Inr parsed"
    and "install_token x parsed cfg cert_file pin_file w2 = (Inr prev, w3)"
    and "audit_write x (audit_new (policy_name (policy cfg)))
      (EvLifecycle ''paired_via_enrol'' (''endpoint='' @ pt_endpoint parsed @ '' cert='' @ handle)) w3 = (Inr (), w')"
  using assms
  by (auto simp: cmd_pair_enrol_def seq_perform seq_lift seq_say say_def fail_def Let_def map_sum_Inr
      split: prod.splits sum.splits)

lemma quiet_post:
  assumes "http_quiet x" and "dep_http_post x url auth body w = (r, w')"
  shows "gentle c w w'" and "same_machine w w'"
proof -
  have "same_machine w w'" "\<forall>p. node_at w' p = node_at w p"
    using assms by (auto simp: http_quiet_def Let_def) (metis snd_conv)+
  then show "gentle c w w'" "same_machine w w'" by (simp_all add: linkless_def gentle_def)
qed

text \<open>The key file an enrolment starts from holds the key that is certified, new or old.\<close>

definition key_bytes :: "('k, 'z) pairing_deps_scheme \<Rightarrow> 'k \<Rightarrow> bool \<Rightarrow> bytes \<Rightarrow> bool" where
  "key_bytes x kp was_new d \<longleftrightarrow>
     (if was_new then d = as_bytes (dep_key_pem x kp)
      else \<exists>pem. from_utf8 d = Some pem \<and> dep_key_from_pem x pem = Inr kp)"

lemma keypair_on_disk:
  assumes w: "wf_world w" "reliable_reads w" "linkless w" and path: "proper_end path"
    and run: "ensure_keypair x path w = (Inr (kp, was_new), w1)"
  shows "linkless w1 \<and> same_machine w w1 \<and> path_exists w1 path
    \<and> (\<exists>d. fs_read w1 path = Inr d \<and> key_bytes x kp was_new d) \<and> (\<not> was_new \<longrightarrow> w1 = w)"
proof (cases "path_exists w path")
  case True
  with run w show ?thesis
    by (auto simp: ensure_keypair_def fs_read_to_string_def key_bytes_def split: sum.splits option.splits)
next
  case False
  obtain made v where mk: "(case path_parent path of None \<Rightarrow> (Inr (), w)
      | Some parent \<Rightarrow> fs_create_dir_all parent w) = (made, v)" by fastforce
  from run False mk have new: "was_new" and wr: "fs_write path (as_bytes (dep_key_pem x kp)) v = (Inr (), w1)"
    by (auto simp: ensure_keypair_def Let_def split: sum.splits prod.splits)
  have g: "gentle (last path) w v"
    using mk gentle_made [of "last path" w "path_parent path"] by simp
  have g2: "gentle (last path) v w1"
    using gentle_open_write [OF path gentle_linkless [OF g w(3)], of False] wr
    by (metis fs_write_def snd_conv)
  from key_written [OF w(1,2) mk wr] new gentle_linkless [OF gentle_trans [OF g g2] w(3)] gentle_machine [OF gentle_trans [OF g g2]]
  show ?thesis by (simp add: key_bytes_def)
qed

text \<open>C6. An enrolment makes the daemon connect with the very key the cloud certified: on a machine
  without symbolic links, after a successful \<^verbatim>\<open>pair --enrol\<close> the cloud was sent a signing
  request, for a key that is in the key file afterwards, under the caller's API key; it answered
  with status 2xx and a token that decodes; and the tunnel's start-up finds that key, the token's
  certificate and its pin, and trusts exactly the servers the pin names.\<close>

theorem enrolled_daemon_connects:
  assumes ok: "tempfile_ok x" "http_quiet x" and w: "wf_world w" "reliable_reads w" "linkless w"
    and run: "cmd_pair x cfg token out (Some cloud_url) (Some api_key) w = (Inr (), ls, w')"
  shows "\<exists>kp was_new w1 csr resp w2 body tok handle parsed key.
      ensure_keypair x (key_path x (env_vars w)) w = (Inr (kp, was_new), w1) \<and> build_csr x kp = Inr csr
    \<and> dep_http_post x (normalise_cloud_url cloud_url @ ''/v1/agent/enroll'') (''Bearer '' @ api_key)
        (JObject [(''csr_pem'', JString csr)]) w1 = (Inr resp, w2)
    \<and> resp_body resp = Inr body \<and> 200 \<le> resp_status resp \<and> resp_status resp < 300
    \<and> enrol_answer x (resp_status resp) body = Inr (tok, handle) \<and> token_decode x (trim tok) = Inr parsed
    \<and> fs_read w' (key_path x (env_vars w')) = Inr key \<and> key_bytes x kp was_new key
    \<and> fs_read w' (cert_path x (env_vars w')) = Inr (as_bytes (pt_daemon_cert_pem parsed))
    \<and> tunnel_setup x w' = build_client_config x w' (cert_path x (env_vars w')) (key_path x (env_vars w'))
        (Some (as_bytes (pt_cloud_pin_hex parsed)))
    \<and> (\<forall>c der. tunnel_setup x w' = Inr c \<and> pt_cloud_pin_hex parsed = pin_hex x der \<longrightarrow>
         (\<forall>cert msg sig. trusts_server x (cc_verifier c) cert msg sig \<longleftrightarrow> dep_blake3 x cert = dep_blake3 x der))"
proof -
  let ?key = "key_path x (env_vars w)" and ?cert = "cert_path x (env_vars w)"
    and ?pin = "cloud_pin_path x (env_vars w)"
  from run have "cmd_pair_enrol x cfg cloud_url api_key ?key ?cert ?pin w = (Inr (), ls, w')"
    by (auto simp: cmd_pair_def Let_def fail_def split: if_splits)
  then obtain kp was_new w1 csr resp w2 body tok handle parsed prev w3
    where k: "ensure_keypair x ?key w = (Inr (kp, was_new), w1)" and csr: "build_csr x kp = Inr csr"
    and post: "dep_http_post x (normalise_cloud_url cloud_url @ ''/v1/agent/enroll'') (''Bearer '' @ api_key)
      (JObject [(''csr_pem'', JString csr)]) w1 = (Inr resp, w2)"
    and b: "resp_body resp = Inr body" and an: "enrol_answer x (resp_status resp) body = Inr (tok, handle)"
    and t: "token_decode x (trim tok) = Inr parsed"
    and i: "install_token x parsed cfg ?cert ?pin w2 = (Inr prev, w3)"
    and a: "audit_write x (audit_new (policy_name (policy cfg)))
      (EvLifecycle ''paired_via_enrol'' (''endpoint='' @ pt_endpoint parsed @ '' cert='' @ handle)) w3 = (Inr (), w')"
    by (rule enrol_done)
  have status: "200 \<le> resp_status resp" "resp_status resp < 300"
    using an by (auto simp: enrol_answer_def split: sum.splits if_splits)
  note paths = daemon_paths [of x "env_vars w"]
  from keypair_on_disk [OF w paths(3) k] obtain key where l1: "linkless w1" and m1: "same_machine w w1"
    and e1: "path_exists w1 ?key" and r1: "fs_read w1 ?key = Inr key" "key_bytes x kp was_new key" by blast
  have rw1: "readable_world w1"
    using w(2) m1 by (simp add: reliable_reads_def readable_world_def same_machine_def)
  note q = quiet_post [OF ok(2) post]
  have l2: "linkless w2" using gentle_linkless [OF q(1) l1] .
  have rw2: "readable_world w2" using readable_machine [OF q(2) rw1] .
  have env: "env_vars w2 = env_vars w" using m1 q(2) by (simp add: same_machine_def)
  have p1: "present w1 ?key" using e1 rw1 by (simp add: present_iff)
  from spared(2) [OF l1 paths(3) q(1) [of "CHR ''l''"] _ p1] paths(4) rw2
  have e2: "path_exists w2 ?key" by (simp add: present_iff)
  from spared_read [OF l1 paths(3) q(1) [of "CHR ''l''"] _ p1] paths(4) r1
  have r2: "fs_read w2 ?key = Inr key" by simp
  from installed_files [OF ok(1) l2 rw2, unfolded env, OF i a e2] r2
  have "fs_read w' (key_path x (env_vars w')) = Inr key" by simp
  with installed_connects [OF ok(1) l2 rw2, unfolded env, OF i a e2] k csr post b status an t r1
  show ?thesis by blast
qed

text \<open>An enrolment on a machine that has no key yet.\<close>

lemma enrol_sel [simp]:
  "dep_http_post cli_sample_deps = (\<lambda>url auth body w. (Inr \<lparr>resp_status = 200, resp_body = Inr []\<rparr>, w))"
  "dep_http_client cli_sample_deps = Inr ()"
  "dep_json_value cli_sample_deps = (\<lambda>b. Inr (JObject [(''token'', JString ''00'')]))"
  "dep_key_generate cli_sample_deps = (\<lambda>w. Inr ''KEY'')" "dep_key_pem cli_sample_deps = (\<lambda>k. k)"
  "build_csr cli_sample_deps k = Inr ''CSR''"
  by (simp_all add: build_csr_def cli_sample_deps_def service_deps.defs service_sample_deps_def
      pairing_deps.defs pairing_sample_deps_def tunnel_deps.defs exec_deps.defs)

lemma answered: "enrol_answer cli_sample_deps 200 [] = Inr (''00'', ''(unknown)'')"
  by (simp add: enrol_answer_def str_field_def)

lemma http_quiet_cli: "http_quiet cli_sample_deps"
  by (simp add: http_quiet_def)

lemma sample_enrolment:
  "fst (cmd_pair cli_sample_deps sample_config None None (Some ''https://c'') (Some ''K'') empty_world) = Inr ()"
  by (simp add: cmd_pair_def cmd_pair_enrol_def sample_paths answered decoded ensure_keypair_def
      seq_lift seq_perform seq_say say_def install_token_def checked daemon_eval empty_world_def
      fs_set_permissions_def Let_def)

theorem enrolled_daemon_connects_witness:
  "\<exists>ls w'. cmd_pair cli_sample_deps sample_config None None (Some ''https://c'') (Some ''K'') empty_world
      = (Inr (), ls, w')
    \<and> fs_read w' ''/cfg/daemon.key'' = Inr (as_bytes ''KEY'')
    \<and> fs_read w' ''/cfg/daemon.crt'' = Inr (as_bytes ''PEM'')"
proof -
  obtain ls w' where run: "cmd_pair cli_sample_deps sample_config None None (Some ''https://c'') (Some ''K'')
      empty_world = (Inr (), ls, w')" using sample_enrolment by (metis prod.collapse)
  have "linkless empty_world" by (simp add: linkless_def empty_world_def)
  from enrolled_daemon_connects [OF tempfile_ok_cli http_quiet_cli empty_world_ok this run]
  obtain kp was_new w1 and resp :: http_response and body tok handle parsed key
    where k: "ensure_keypair cli_sample_deps (key_path cli_sample_deps (env_vars empty_world)) empty_world
        = (Inr (kp, was_new), w1)"
      and an: "enrol_answer cli_sample_deps (resp_status resp) body = Inr (tok, handle)"
      and t: "token_decode cli_sample_deps (trim tok) = Inr parsed"
      and key: "fs_read w' (key_path cli_sample_deps (env_vars w')) = Inr key"
        "key_bytes cli_sample_deps kp was_new key"
      and cert: "fs_read w' (cert_path cli_sample_deps (env_vars w')) = Inr (as_bytes (pt_daemon_cert_pem parsed))"
    by blast
  have "tok = ''00''" using an by (auto simp: enrol_answer_def str_field_def split: if_splits)
  with t decoded have "parsed = sample_token" by simp
  then have c: "fs_read w' ''/cfg/daemon.crt'' = Inr (as_bytes ''PEM'')"
    using cert by (simp add: sample_paths) (simp add: sample_token_def)
  have "was_new \<and> kp = ''KEY''"
    using k by (simp add: sample_paths ensure_keypair_def pairing_eval empty_world_def fs_set_permissions_def)
  with key have "fs_read w' ''/cfg/daemon.key'' = Inr (as_bytes ''KEY'')"
    by (simp add: sample_paths key_bytes_def)
  with c run show ?thesis by blast
qed

end
