(* ===== verification/Process.thy ===== *)
theory Process
  imports World
begin

text \<open>
  Operations that other operations may interrupt.  A process is a tree of atomic actions on
  the world, each of which ends with the process that remains; an action with no result never
  ends.  A pool runs its processes one action at a time, in any order.
\<close>

datatype 'r proc = Done 'r | Act "world \<Rightarrow> ('r proc \<times> world) option"

definition act :: "(world \<Rightarrow> 'a \<times> world) \<Rightarrow> ('a \<Rightarrow> 'r proc) \<Rightarrow> 'r proc" where
  "act f k = Act (\<lambda>w. case f w of (a, w') \<Rightarrow> Some (k a, w'))"

definition look :: "(world \<Rightarrow> 'a) \<Rightarrow> ('a \<Rightarrow> 'r proc) \<Rightarrow> 'r proc" where
  "look f = act (\<lambda>w. (f w, w))"

text \<open>A process with nothing in between its actions.\<close>

primrec run_proc :: "'r proc \<Rightarrow> world \<Rightarrow> ('r \<times> world) option" where
  "run_proc (Done r) = (\<lambda>w. Some (r, w))"
| "run_proc (Act f) =
     (\<lambda>w. case (map_option (map_prod run_proc id) \<circ> f) w of
        None \<Rightarrow> None
      | Some (g, w') \<Rightarrow> g w')"

primrec then_proc :: "('a \<Rightarrow> 'b proc) \<Rightarrow> 'a proc \<Rightarrow> 'b proc" where
  "then_proc k (Done r) = k r"
| "then_proc k (Act f) = Act (map_option (map_prod (then_proc k) id) \<circ> f)"

section \<open>Laws\<close>

lemma run_Act: "run_proc (Act f) w = (case f w of None \<Rightarrow> None | Some (p, w') \<Rightarrow> run_proc p w')"
  by (simp split: option.splits)

lemma run_act [simp]: "run_proc (act f k) w = (case f w of (a, w') \<Rightarrow> run_proc (k a) w')"
  by (simp add: act_def split: prod.splits)

lemma run_look [simp]: "run_proc (look f k) w = run_proc (k (f w)) w"
  by (simp add: look_def)

lemma proc_induct [case_names Done Act, induct type: proc]:
  assumes "\<And>r. P (Done r)" and step: "\<And>f. (\<And>w p w'. f w = Some (p, w') \<Longrightarrow> P p) \<Longrightarrow> P (Act f)"
  shows "P p"
proof (induction p rule: proc.induct)
  case (Act f)
  show ?case
  proof (rule step)
    fix w p w' assume "f w = Some (p, w')"
    then have "Some (p, w') \<in> range f" by (metis rangeI)
    from Act [OF this, of "(p, w')" p] show "P p" by (simp add: fsts.intros)
  qed
qed (rule assms(1))

lemma run_then:
  "run_proc (then_proc k p) w = (case run_proc p w of None \<Rightarrow> None | Some (a, w') \<Rightarrow> run_proc (k a) w')"
proof (induction p arbitrary: w)
  case (Act f)
  then show ?case by (cases "f w") auto
qed simp

text \<open>What every action of a process respects, with the results it may end with.\<close>

inductive obeys :: "(world \<Rightarrow> world \<Rightarrow> bool) \<Rightarrow> ('r \<Rightarrow> bool) \<Rightarrow> 'r proc \<Rightarrow> bool" for R Q where
  obeys_Done: "Q r \<Longrightarrow> obeys R Q (Done r)"
| obeys_Act: "(\<And>w p w'. f w = Some (p, w') \<Longrightarrow> R w w' \<and> obeys R Q p) \<Longrightarrow> obeys R Q (Act f)"

inductive_simps obeys_simps [simp]: "obeys R Q (Done r)" "obeys R Q (Act f)"

lemma obeys_act:
  "obeys R Q (act f k) \<longleftrightarrow> (\<forall>w. R w (snd (f w)) \<and> obeys R Q (k (fst (f w))))"
  by (simp add: act_def split_beta)

lemma obeys_look: "reflp R \<Longrightarrow> (\<And>w. obeys R Q (k (f w))) \<Longrightarrow> obeys R Q (look f k)"
  by (simp add: look_def obeys_act reflp_def)

lemma obeys_then: "obeys R P p \<Longrightarrow> (\<And>a. P a \<Longrightarrow> obeys R Q (k a)) \<Longrightarrow> obeys R Q (then_proc k p)"
  by (induction p rule: obeys.induct) auto

lemma obeys_mono: "obeys R P p \<Longrightarrow> (\<And>w w'. R w w' \<Longrightarrow> S w w') \<Longrightarrow> (\<And>r. P r \<Longrightarrow> Q r) \<Longrightarrow> obeys S Q p"
  by (induction p rule: obeys.induct) auto

section \<open>Pools\<close>

type_synonym 'r pool = "'r proc list \<times> world"

inductive pool_step :: "'r pool \<Rightarrow> 'r pool \<Rightarrow> bool" where
  go: "i < length ps \<Longrightarrow> ps ! i = Act f \<Longrightarrow> f w = Some (p, w') \<Longrightarrow> pool_step (ps, w) (ps[i := p], w')"

inductive_cases pool_stepE: "pool_step (ps, w) c"

abbreviation pool_steps :: "'r pool \<Rightarrow> 'r pool \<Rightarrow> bool" where
  "pool_steps \<equiv> pool_step\<^sup>*\<^sup>*"

text \<open>A schedule names the process that moves next.\<close>

fun schedule :: "nat list \<Rightarrow> 'r pool \<Rightarrow> 'r pool option" where
  "schedule [] c = Some c"
| "schedule (i # is) (ps, w) =
     (if i < length ps then
        (case ps ! i of
           Done r \<Rightarrow> None
         | Act f \<Rightarrow> (case f w of None \<Rightarrow> None | Some (p, w') \<Rightarrow> schedule is (ps[i := p], w')))
      else None)"

lemma schedule_steps: "schedule is c = Some c' \<Longrightarrow> pool_steps c c'"
proof (induction "is" c rule: schedule.induct)
  case (2 i js ps w)
  then obtain f p w' where "i < length ps" "ps ! i = Act f" "f w = Some (p, w')"
    and "schedule js (ps[i := p], w') = Some c'"
    by (auto split: if_splits proc.splits option.splits)
  from go [OF this(1-3)] "2.IH" [OF this(1,2,3) refl this(4)] show ?case
    by (rule converse_rtranclp_into_rtranclp)
qed simp

lemma schedule_append:
  "schedule (is @ js) c = (case schedule is c of None \<Rightarrow> None | Some c' \<Rightarrow> schedule js c')"
  by (induction "is" c rule: schedule.induct) (auto split: proc.splits option.splits)

lemma steps_schedule: "pool_steps c c' \<Longrightarrow> \<exists>is. schedule is c = Some c'"
proof (induction rule: rtranclp_induct)
  case base
  have "schedule [] c = Some c" by simp
  then show ?case by blast
next
  case (step c1 c2)
  then obtain js where js: "schedule js c = Some c1" by blast
  obtain ps w where c1: "c1 = (ps, w)" by fastforce
  from step.hyps(2) obtain i where "schedule [i] c1 = Some c2"
    unfolding c1 by (elim pool_stepE) (metis (no_types, lifting) c1 option.simps(5) prod.simps(2) proc.simps(6) schedule.simps)
  with js have "schedule (js @ [i]) c = Some c2" by (simp add: schedule_append)
  then show ?case by blast
qed


text \<open>Whatever the order, a pool moves the world by its processes' actions and nothing else.\<close>

definition pool_obeys :: "(world \<Rightarrow> world \<Rightarrow> bool) \<Rightarrow> (nat \<Rightarrow> 'r \<Rightarrow> bool) \<Rightarrow> 'r proc list \<Rightarrow> bool" where
  "pool_obeys R Q ps \<longleftrightarrow> (\<forall>i < length ps. obeys R (Q i) (ps ! i))"

lemma pool_step_obeys:
  assumes "pool_step (ps, w) (ps', w')" and "pool_obeys R Q ps"
  shows "R w w' \<and> pool_obeys R Q ps' \<and> length ps' = length ps"
  using assms(1)
proof (rule pool_stepE)
  fix i f p v
  assume c: "(ps', w') = (ps[i := p], v)" and i: "i < length ps" "ps ! i = Act f" "f w = Some (p, v)"
  from assms(2) i(1) have "obeys R (Q i) (ps ! i)" by (simp add: pool_obeys_def)
  with i have "R w v" "obeys R (Q i) p" by auto
  with c assms(2) i(1) show ?thesis by (simp add: pool_obeys_def nth_list_update)
qed

lemma pool_steps_obeys:
  assumes "pool_steps c c'" and "pool_obeys R Q (fst c)"
  shows "R\<^sup>*\<^sup>* (snd c) (snd c') \<and> pool_obeys R Q (fst c') \<and> length (fst c') = length (fst c)"
  using assms
proof (induction rule: rtranclp_induct)
  case (step c1 c2)
  then show ?case using pool_step_obeys [of "fst c1" "snd c1" "fst c2" "snd c2" R Q]
    by (auto intro: rtranclp.rtrancl_into_rtrancl)
qed simp

lemma rtranclp_keeps: "R\<^sup>*\<^sup>* w w' \<Longrightarrow> (\<And>v v'. R v v' \<Longrightarrow> P v \<Longrightarrow> P v') \<Longrightarrow> P w \<Longrightarrow> P w'"
  by (induction rule: rtranclp_induct) auto

text \<open>Processes that end whatever the others do to the world.\<close>

inductive ends :: "'r proc \<Rightarrow> bool" where
  ends_Done: "ends (Done r)"
| ends_Act: "(\<And>w. \<exists>p w'. f w = Some (p, w') \<and> ends p) \<Longrightarrow> ends (Act f)"

inductive_simps ends_simps [simp]: "ends (Done r)" "ends (Act f)"

lemma ends_act [simp]: "ends (act f k) \<longleftrightarrow> (\<forall>w. ends (k (fst (f w))))"
  by (simp add: act_def split_beta)

lemma ends_look [simp]: "ends (look f k) \<longleftrightarrow> (\<forall>w. ends (k (f w)))"
  by (simp add: look_def)

lemma ends_then: "ends p \<Longrightarrow> (\<And>a. ends (k a)) \<Longrightarrow> ends (then_proc k p)"
proof (induction p rule: ends.induct)
  case (ends_Act f)
  have "\<exists>q w'. map_option (map_prod (then_proc k) id) (f w) = Some (q, w') \<and> ends q" for w
    using ends_Act by (metis (no_types, lifting) id_apply map_prod_simp option.simps(9))
  then show ?case by simp
qed simp

lemma ends_run: "ends p \<Longrightarrow> \<exists>r w'. run_proc p w = Some (r, w')"
proof (induction p arbitrary: w rule: ends.induct)
  case (ends_Act f)
  obtain p v where "f w = Some (p, v)" "\<And>u. \<exists>r w'. run_proc p u = Some (r, w')" using ends_Act by blast
  then show ?case by simp
qed simp

lemma ends_step: "pool_step (ps, w) (ps', w') \<Longrightarrow> i < length ps \<Longrightarrow> ends (ps ! i) \<Longrightarrow> ends (ps' ! i)"
  by (elim pool_stepE) (auto simp: nth_list_update, metis ends_simps(2) option.inject prod.inject)

text \<open>A process can always be run to its end without the others.\<close>

lemma run_alone:
  assumes "run_proc p w = Some (r, w')" and "i < length ps" and "ps ! i = p"
  shows "pool_steps (ps, w) (ps[i := Done r], w')"
  using assms
proof (induction p arbitrary: ps w)
  case (Act f)
  then obtain q v where q: "f w = Some (q, v)" "run_proc q v = Some (r, w')"
    by (auto simp del: run_proc.simps simp: run_Act split: option.splits)
  from Act.IH [OF q, of "ps[i := q]"] Act.prems(2) have "pool_steps (ps[i := q], v) (ps[i := Done r], w')"
    by simp
  with go [OF Act.prems(2,3) q(1)] show ?case by (rule converse_rtranclp_into_rtranclp)
qed (metis list_update_id option.inject prod.inject rtranclp.rtrancl_refl run_proc.simps(1))

text \<open>So can a first part of it.\<close>

lemma run_part:
  assumes "run_proc p w = Some (r, w')" and "i < length ps" and "ps ! i = then_proc k p"
  shows "pool_steps (ps, w) (ps[i := k r], w')"
  using assms
proof (induction p arbitrary: ps w)
  case (Act f)
  then obtain q v where q: "f w = Some (q, v)" "run_proc q v = Some (r, w')"
    by (auto simp del: run_proc.simps simp: run_Act split: option.splits)
  from Act.IH [OF q, of "ps[i := then_proc k q]"] Act.prems(2)
  have "pool_steps (ps[i := then_proc k q], v) (ps[i := k r], w')" by simp
  moreover have "pool_step (ps, w) (ps[i := then_proc k q], v)"
    using go [OF Act.prems(2), of "map_option (map_prod (then_proc k) id) \<circ> f" w "then_proc k q" v]
      Act.prems(3) q(1) by simp
  ultimately show ?case by (rule converse_rtranclp_into_rtranclp [rotated])
qed (metis list_update_id option.inject prod.inject rtranclp.rtrancl_refl run_proc.simps(1) then_proc.simps(1))

lemma then_Done [simp]: "then_proc Done p = p"
proof (induction p)
  case (Act f)
  have "map_option (map_prod (then_proc Done) id) (f w) = f w" for w
    using Act by (cases "f w") auto
  then show ?case by (simp add: comp_def)
qed simp

lemma then_assoc: "then_proc k (then_proc h p) = then_proc (\<lambda>a. then_proc k (h a)) p"
proof (induction p)
  case (Act f)
  have "map_option (map_prod (then_proc k) id) (map_option (map_prod (then_proc h) id) (f w))
      = map_option (map_prod (then_proc (\<lambda>a. then_proc k (h a))) id) (f w)" for w
    using Act by (cases "f w") auto
  then show ?case by (simp add: comp_def)
qed simp

end
