(* ===== verification/Staging.thy ===== *)
theory Staging
  imports Process WriteFile Linkless
begin

text \<open>
  Temporary files under interleaving.  Each process owns at most one temporary file at a time; it
  may rely on the others to leave that file in place, and it leaves every file that is not its
  own with its content, with pieces of the log appended, or with the whole content of a requested
  write.  A pool of such processes keeps the ownership apart, so no file is ever torn.
\<close>

section \<open>What may be added to a file\<close>

text \<open>The names the library gives to temporary files.\<close>

definition temp_names :: "'z tmp_deps_scheme \<Rightarrow> string set" where
  "temp_names x = {last t | t. \<exists>dir w w'. dep_tmp_new_in x dir w = (Inr t, w')}"

text \<open>A piece of one printed entry and its line end, and a run of such pieces.\<close>

definition log_piece :: "'z audit_deps_scheme \<Rightarrow> bytes \<Rightarrow> bool" where
  "log_piece x c \<longleftrightarrow>
     (\<exists>entry line. dep_json_entry x entry = Inr line \<and> sublist c (as_bytes line @ as_bytes [CHR 0x0A]))"

definition log_text :: "'z audit_deps_scheme \<Rightarrow> bytes \<Rightarrow> bool" where
  "log_text x e \<longleftrightarrow> (\<exists>cs. e = concat cs \<and> list_all (log_piece x) cs)"

text \<open>
  What the log may add to the file \<open>q\<close>: with \<open>s\<close>, on a machine without links whose temporary
  files are not named like the log's, only files that are named so grow.
\<close>

definition log_tail :: "'z audit_deps_scheme \<Rightarrow> bool \<Rightarrow> string list \<Rightarrow> bytes \<Rightarrow> bool" where
  "log_tail x s q e \<longleftrightarrow> log_text x e \<and> (s \<longrightarrow> e = [] \<or> log_named (last q))"

definition temps_unlogged :: "'z tmp_deps_scheme \<Rightarrow> bool" where
  "temps_unlogged x \<longleftrightarrow> (\<forall>n \<in> temp_names x. \<not> log_named n)"

lemma temp_name: "dep_tmp_new_in x dir w = (Inr t, w') \<Longrightarrow> last t \<in> temp_names x"
  by (auto simp: temp_names_def)

lemma log_piece_take: "log_piece x c \<Longrightarrow> log_piece x (take n c)"
  unfolding log_piece_def by (meson sublist_order.order_trans sublist_take)

lemma log_piece_drop: "log_piece x c \<Longrightarrow> log_piece x (drop n c)"
  unfolding log_piece_def by (meson sublist_order.order_trans sublist_drop)

lemma log_text_Nil [simp]: "log_text x []"
  unfolding log_text_def by (intro exI [of _ "[]"]) simp

lemma log_text_piece: "log_piece x c \<Longrightarrow> log_text x c"
  unfolding log_text_def by (intro exI [of _ "[c]"]) simp

lemma log_text_append: "log_text x c \<Longrightarrow> log_text x e \<Longrightarrow> log_text x (c @ e)"
  unfolding log_text_def by (metis concat_append list_all_append)

lemma log_text_drop: "log_text x e \<Longrightarrow> log_text x (drop n e)"
proof -
  have "list_all (log_piece x) cs \<Longrightarrow> log_text x (drop n (concat cs))" for cs
    by (induction cs arbitrary: n)
      (auto intro: log_text_append log_text_piece log_piece_drop)
  then show "log_text x e \<Longrightarrow> log_text x (drop n e)" by (auto simp: log_text_def)
qed

lemma log_tail_Nil [simp]: "log_tail x s q []"
  by (simp add: log_tail_def)

lemma log_tail_append: "log_tail x s q c \<Longrightarrow> log_tail x s q e \<Longrightarrow> log_tail x s q (c @ e)"
  by (auto simp: log_tail_def log_text_append)

lemma log_tail_drop: "log_tail x s q e \<Longrightarrow> log_tail x s q (drop n e)"
  by (auto simp: log_tail_def log_text_drop)

lemma log_tail_temp:
  "log_tail x s t e \<Longrightarrow> last t \<in> temp_names x \<Longrightarrow> (s \<longrightarrow> temps_unlogged x) \<Longrightarrow> log_tail x s q e"
  by (auto simp: log_tail_def temps_unlogged_def)

section \<open>Ownership\<close>

text \<open>The temporary file of a process, and how far it has been filled.\<close>

datatype fill = Blank | Broken | Whole

type_synonym own = "(string list \<times> fill) option"

definition begun :: "'z audit_deps_scheme \<Rightarrow> bool \<Rightarrow> bytes set \<Rightarrow> string list \<Rightarrow> bytes \<Rightarrow> bool" where
  "begun x s ds q c \<longleftrightarrow> (\<exists>d rest. d \<in> ds \<and> c = d @ rest \<and> log_tail x s q rest)"

definition filled :: "'z audit_deps_scheme \<Rightarrow> bool \<Rightarrow> bytes set \<Rightarrow> string list \<Rightarrow> fill \<Rightarrow> bytes \<Rightarrow> bool" where
  "filled x s ds t f c =
     (case f of Blank \<Rightarrow> log_tail x s t c | Broken \<Rightarrow> True | Whole \<Rightarrow> begun x s ds t c)"

definition holding :: "'z tmp_deps_scheme \<Rightarrow> bool \<Rightarrow> bytes set \<Rightarrow> own \<Rightarrow> world \<Rightarrow> bool" where
  "holding x s ds ow w \<longleftrightarrow> (s \<longrightarrow> linkless w) \<and>
     (\<forall>t f. ow = Some (t, f) \<longrightarrow> last t \<in> temp_names x
        \<and> (\<exists>c m. node_at w t = Some (FileN c m) \<and> filled x s ds t f c))"

definition owns :: "own \<Rightarrow> string list \<Rightarrow> bool" where
  "owns ow q \<longleftrightarrow> (\<exists>f. ow = Some (q, f))"

definition spares ::
    "'z tmp_deps_scheme \<Rightarrow> bool \<Rightarrow> bytes set \<Rightarrow> own \<Rightarrow> world \<Rightarrow> world \<Rightarrow> bool" where
  "spares x s ds ow w w' \<longleftrightarrow> (s \<longrightarrow> linkless w') \<and>
     (\<forall>q c m. \<not> owns ow q \<longrightarrow> node_at w q = Some (FileN c m) \<longrightarrow>
        (\<exists>c' m'. node_at w' q = Some (FileN c' m')
          \<and> ((\<exists>rest. c' = c @ rest \<and> log_tail x s q rest)
             \<or> (begun x s ds q c' \<and> last q \<notin> temp_names x))))"

definition claims :: "own \<Rightarrow> own \<Rightarrow> world \<Rightarrow> bool" where
  "claims ow ow' w \<longleftrightarrow> (\<forall>t. owns ow' t \<longrightarrow> owns ow t \<or> node_at w t = None)"

lemma begun_in [intro]: "d \<in> ds \<Longrightarrow> log_tail x s q rest \<Longrightarrow> begun x s ds q (d @ rest)"
  by (auto simp: begun_def)

lemma begun_start: "d \<in> ds \<Longrightarrow> begun x s ds q d"
  using begun_in [of d ds x s q "[]"] by simp

lemma begun_append: "begun x s ds q c \<Longrightarrow> log_tail x s q rest \<Longrightarrow> begun x s ds q (c @ rest)"
proof -
  assume "begun x s ds q c" and r: "log_tail x s q rest"
  then obtain d more where d: "d \<in> ds" "c = d @ more" "log_tail x s q more" by (auto simp: begun_def)
  from begun_in [OF d(1) log_tail_append [OF d(3) r]] d(2) show ?thesis by simp
qed

lemma begun_temp:
  "begun x s ds t c \<Longrightarrow> last t \<in> temp_names x \<Longrightarrow> (s \<longrightarrow> temps_unlogged x) \<Longrightarrow> begun x s ds q c"
  unfolding begun_def using log_tail_temp by blast

lemma filled_append: "filled x s ds t f c \<Longrightarrow> log_tail x s t rest \<Longrightarrow> filled x s ds t f (c @ rest)"
  by (cases f) (simp_all add: filled_def log_tail_append begun_append)

lemma owns_simps [simp]: "\<not> owns None q" "owns (Some (t, f)) q \<longleftrightarrow> t = q"
  by (auto simp: owns_def)

lemma holding_None [simp]: "holding x s ds None w \<longleftrightarrow> (s \<longrightarrow> linkless w)"
  by (simp add: holding_def)

lemma holding_Some: "holding x s ds (Some (t, f)) w \<longleftrightarrow> (s \<longrightarrow> linkless w)
    \<and> last t \<in> temp_names x \<and> (\<exists>c m. node_at w t = Some (FileN c m) \<and> filled x s ds t f c)"
  by (auto simp: holding_def)

lemma holding_linkless: "holding x s ds ow w \<Longrightarrow> s \<Longrightarrow> linkless w"
  by (simp add: holding_def)

lemma claims_None [simp]: "claims ow None w" "claims ow ow w"
  by (simp_all add: claims_def)

lemma spares_kept:
  assumes "\<And>q nd. node_at w q = Some nd \<Longrightarrow> \<not> owns ow q \<Longrightarrow> node_at w' q = Some nd" and "s \<longrightarrow> linkless w'"
  shows "spares x s ds ow w w'"
  unfolding spares_def
proof (intro conjI allI impI)
  fix q c m assume "\<not> owns ow q" "node_at w q = Some (FileN c m)"
  from assms(1) [OF this(2,1)] show "\<exists>c' m'. node_at w' q = Some (FileN c' m')
      \<and> ((\<exists>rest. c' = c @ rest \<and> log_tail x s q rest) \<or> (begun x s ds q c' \<and> last q \<notin> temp_names x))"
    by (intro exI [of _ c] exI [of _ m]) simp
qed (use assms(2) in simp)

lemma spares_refl [simp]: "(s \<longrightarrow> linkless w) \<Longrightarrow> spares x s ds ow w w"
  by (rule spares_kept)

lemma spares_linkless: "spares x s ds ow w w' \<Longrightarrow> s \<longrightarrow> linkless w'"
  by (simp add: spares_def)

lemma linkless_tick [simp]: "linkless (tick w) = linkless w"
  by (simp add: linkless_def)

lemma linkless_put: "linkless w \<Longrightarrow> \<not> is_link_node (Some nd) \<Longrightarrow> linkless (put_node p nd w)"
  by (auto simp: linkless_def)

lemma linkless_del: "linkless w \<Longrightarrow> linkless (del_node p w)"
  by (auto simp: linkless_def)

lemma spares_create_dir_all: "(s \<longrightarrow> linkless w) \<Longrightarrow> spares x s ds ow w (snd (fs_create_dir_all d w))"
  using keeps_nodes_create_dir_all [of w d] gentle_linkless [OF gentle_create_dir_all [of undefined w d]]
  by (intro spares_kept) (auto simp: keeps_nodes_def)

text \<open>What a process holds survives the actions of one that owns another file.\<close>

lemma holding_spared:
  assumes "holding x s ds ow w" and "spares x s ds ow2 w w'" and "\<And>t. owns ow t \<Longrightarrow> \<not> owns ow2 t"
  shows "holding x s ds ow w'"
  unfolding holding_def
proof (intro conjI allI impI)
  show "s \<Longrightarrow> linkless w'" using assms(2) by (simp add: spares_def)
  fix t f assume ow: "ow = Some (t, f)"
  with assms(1) obtain c m where t: "last t \<in> temp_names x"
    and c: "node_at w t = Some (FileN c m)" "filled x s ds t f c" by (auto simp: holding_def)
  from ow assms(3) have "\<not> owns ow2 t" by simp
  with assms(2) c(1) t obtain rest m' where "node_at w' t = Some (FileN (c @ rest) m')" "log_tail x s t rest"
    unfolding spares_def by blast
  with filled_append [OF c(2)] show "\<exists>c m. node_at w' t = Some (FileN c m) \<and> filled x s ds t f c" by blast
  show "last t \<in> temp_names x" by (rule t)
qed

section \<open>Processes that guard what is not their own\<close>

inductive guards ::
    "'z tmp_deps_scheme \<Rightarrow> bool \<Rightarrow> bytes set \<Rightarrow> own \<Rightarrow> 'r proc \<Rightarrow> bool" for x s ds where
  guards_Done: "guards x s ds None (Done r)"
| guards_Act: "(\<And>w p w'. f w = Some (p, w') \<Longrightarrow> holding x s ds ow w \<Longrightarrow>
      \<exists>ow'. holding x s ds ow' w' \<and> spares x s ds ow w w' \<and> claims ow ow' w \<and> guards x s ds ow' p)
    \<Longrightarrow> guards x s ds ow (Act f)"

inductive_simps guards_simps [simp]: "guards x s ds ow (Done r)" "guards x s ds ow (Act f)"

lemma guards_act: "guards x s ds ow (act f k) \<longleftrightarrow> (\<forall>w. holding x s ds ow w \<longrightarrow>
    (\<exists>ow'. holding x s ds ow' (snd (f w)) \<and> spares x s ds ow w (snd (f w)) \<and> claims ow ow' w
      \<and> guards x s ds ow' (k (fst (f w)))))"
  by (simp add: act_def split_beta)

lemma guards_actI:
  assumes "\<And>w r w'. f w = (r, w') \<Longrightarrow> holding x s ds ow w \<Longrightarrow>
    \<exists>ow'. holding x s ds ow' w' \<and> spares x s ds ow w w' \<and> claims ow ow' w \<and> guards x s ds ow' (k r)"
  shows "guards x s ds ow (act f k)"
  unfolding guards_act using assms by (metis prod.collapse)

lemma guards_look: "(\<And>w. guards x s ds ow (k (f w))) \<Longrightarrow> guards x s ds ow (look f k)"
  unfolding look_def guards_act
  by (intro allI impI exI [of _ ow]) (auto intro: spares_refl holding_linkless)

lemma guards_then: "guards x s ds ow p \<Longrightarrow> (\<And>a. guards x s ds None (k a)) \<Longrightarrow> guards x s ds ow (then_proc k p)"
proof (induction p rule: guards.induct)
  case (guards_Act f ow)
  show ?case
    unfolding then_proc.simps guards_simps comp_apply
  proof (intro allI impI)
    fix w q w'
    assume "map_option (map_prod (then_proc k) id) (f w) = Some (q, w')" and h: "holding x s ds ow w"
    then obtain p where p: "f w = Some (p, w')" "q = then_proc k p" by auto
    from guards_Act.IH [OF p(1) h] guards_Act.prems p(2)
    show "\<exists>ow'. holding x s ds ow' w' \<and> spares x s ds ow w w' \<and> claims ow ow' w \<and> guards x s ds ow' q" by blast
  qed
qed simp

text \<open>A process whose every action spares the others guards everything.\<close>

lemma guards_obeys:
  "obeys R Q p \<Longrightarrow> (\<And>w w'. R w w' \<Longrightarrow> (s \<longrightarrow> linkless w) \<Longrightarrow> spares x s ds None w w') \<Longrightarrow> guards x s ds None p"
proof (induction p rule: obeys.induct)
  case (obeys_Act f)
  show ?case
    unfolding guards_simps
  proof (intro allI impI exI [of _ None])
    fix w p w' assume p: "f w = Some (p, w')" and h: "holding x s ds None w"
    from obeys_Act.IH p have "R w w'" by blast
    with obeys_Act.prems h have "spares x s ds None w w'" by simp
    with obeys_Act p show "holding x s ds None w' \<and> spares x s ds None w w' \<and> claims None None w \<and> guards x s ds None p"
      by (auto simp: spares_def)
  qed
qed simp

section \<open>Pools\<close>

definition apart :: "own list \<Rightarrow> bool" where
  "apart ows \<longleftrightarrow>
     (\<forall>t i j. i < length ows \<longrightarrow> j < length ows \<longrightarrow> owns (ows ! i) t \<longrightarrow> owns (ows ! j) t \<longrightarrow> i = j)"

definition pool_guards ::
    "'z tmp_deps_scheme \<Rightarrow> bool \<Rightarrow> bytes set \<Rightarrow> own list \<Rightarrow> 'r pool \<Rightarrow> bool" where
  "pool_guards x s ds ows c \<longleftrightarrow> (s \<longrightarrow> linkless (snd c)) \<and> length ows = length (fst c) \<and> apart ows
     \<and> (\<forall>i < length ows. guards x s ds (ows ! i) (fst c ! i) \<and> holding x s ds (ows ! i) (snd c))"

text \<open>A file that holds a whole content and is nobody's temporary file.\<close>

definition kept_whole ::
    "'z audit_deps_scheme \<Rightarrow> bool \<Rightarrow> string list \<Rightarrow> bytes set \<Rightarrow> own list \<Rightarrow> world \<Rightarrow> bool" where
  "kept_whole x s q ds ows w \<longleftrightarrow>
     (\<exists>c m. node_at w q = Some (FileN c m) \<and> begun x s ds q c) \<and> (\<forall>ow \<in> set ows. \<not> owns ow q)"

lemma apart_update:
  assumes "apart ows" and "i < length ows" and cl: "claims (ows ! i) ow' w"
    and ex: "\<And>j t. j < length ows \<Longrightarrow> owns (ows ! j) t \<Longrightarrow> node_at w t \<noteq> None"
  shows "apart (ows[i := ow'])"
proof -
  have new: "\<not> owns ow' t" if "j < length ows" "j \<noteq> i" "owns (ows ! j) t" for j t
  proof
    assume "owns ow' t"
    with cl have "owns (ows ! i) t \<or> node_at w t = None" by (simp add: claims_def)
    with ex [OF that(1,3)] have "owns (ows ! i) t" by (elim disjE) (assumption, elim notE)
    with assms(1,2) that show False by (auto simp: apart_def)
  qed
  show ?thesis
    unfolding apart_def length_list_update
  proof (intro allI impI)
    fix t j k
    assume jk: "j < length ows" "k < length ows" "owns (ows[i := ow'] ! j) t" "owns (ows[i := ow'] ! k) t"
    show "j = k"
    proof (cases "j = i \<or> k = i")
      case True
      with jk new [of j t] new [of k t] assms(2) show ?thesis by (cases "j = i"; cases "k = i") simp_all
    next
      case False
      with jk assms(1) show ?thesis by (simp add: apart_def)
    qed
  qed
qed

lemma pool_step_guards:
  assumes "pool_step (ps, w) (ps', w')" and pg: "pool_guards x s ds ows (ps, w)"
    and q: "kept_whole x s q ds ows w"
  shows "\<exists>ows'. pool_guards x s ds ows' (ps', w') \<and> kept_whole x s q ds ows' w'"
  using assms(1)
proof (rule pool_stepE)
  fix i f p v
  assume c: "(ps', w') = (ps[i := p], v)" and i: "i < length ps" "ps ! i = Act f" "f w = Some (p, v)"
  from pg have len: "length ows = length ps" and ap: "apart ows"
    and g: "\<And>j. j < length ps \<Longrightarrow> guards x s ds (ows ! j) (ps ! j) \<and> holding x s ds (ows ! j) w"
    by (auto simp: pool_guards_def)
  from g [OF i(1)] i(2) have "guards x s ds (ows ! i) (Act f)" and "holding x s ds (ows ! i) w" by simp_all
  with i(3) obtain ow' where h': "holding x s ds ow' v" and sp: "spares x s ds (ows ! i) w v"
    and cl: "claims (ows ! i) ow' w" and g': "guards x s ds ow' p" unfolding guards_simps by blast
  have ex: "node_at w t \<noteq> None" if "j < length ows" "owns (ows ! j) t" for j t
    using g [of j] that len by (auto simp: owns_def holding_def)
  have ap': "apart (ows[i := ow'])" using apart_update [OF ap _ cl] i(1) len ex by simp
  have held: "holding x s ds (ows ! j) v" if "j < length ps" "j \<noteq> i" for j
  proof (rule holding_spared [OF _ sp])
    show "holding x s ds (ows ! j) w" using g that(1) by blast
    fix t assume "owns (ows ! j) t"
    with ap that i(1) len show "\<not> owns (ows ! i) t" unfolding apart_def by metis
  qed
  then have pg': "pool_guards x s ds (ows[i := ow']) (ps', w')"
    using c len ap' g g' h' i(1) held spares_linkless [OF sp] by (simp add: pool_guards_def nth_list_update)
  from q have nq: "\<not> owns (ows ! i) q" using i(1) len by (auto simp: kept_whole_def)
  from q obtain d m where d: "node_at w q = Some (FileN d m)" "begun x s ds q d" by (auto simp: kept_whole_def)
  with sp nq obtain d' m' where d': "node_at v q = Some (FileN d' m')" "begun x s ds q d'"
    unfolding spares_def using begun_append by blast
  have "\<not> owns ow' q" using cl nq d(1) by (auto simp: claims_def)
  then have "\<forall>ow \<in> set (ows[i := ow']). \<not> owns ow q"
    using q set_update_subset_insert [of ows i ow'] by (auto simp: kept_whole_def)
  with d' c have "kept_whole x s q ds (ows[i := ow']) w'"
    unfolding kept_whole_def by blast
  with pg' show ?thesis by blast
qed

text \<open>A process that owns nothing yet may join.\<close>

lemma pool_guards_join:
  assumes "pool_guards x s ds ows (ps, w)" and "guards x s ds None p"
  shows "pool_guards x s ds (ows @ [None]) (ps @ [p], w)"
proof -
  have "apart (ows @ [None])"
    using assms(1) unfolding pool_guards_def apart_def by (auto simp: nth_append split: if_splits)
  with assms show ?thesis by (auto simp: pool_guards_def nth_append)
qed

text \<open>One that has ended may be followed by another.\<close>

lemma pool_guards_put:
  assumes "pool_guards x s ds ows (ps, w)" and "i < length ps" and "ps ! i = Done r" and "guards x s ds None p"
  shows "pool_guards x s ds ows (ps[i := p], w)"
proof -
  have "guards x s ds (ows ! i) (Done r)" using assms(1-3) unfolding pool_guards_def by (metis fst_conv)
  then have "ows ! i = None" by simp
  with assms show ?thesis by (auto simp: pool_guards_def nth_list_update)
qed

lemma kept_whole_join: "kept_whole x s q ds ows w \<Longrightarrow> kept_whole x s q ds (ows @ [None]) w"
  by (auto simp: kept_whole_def)

section \<open>The write through a temporary file, action by action\<close>

text \<open>The file is dropped when a step fails.\<close>

definition give_up :: "'z tmp_deps_scheme \<Rightarrow> string list \<Rightarrow> io_error \<Rightarrow> (io_error + unit) proc" where
  "give_up x t e = act (\<lambda>w. ((), dep_tmp_drop x t w)) (\<lambda>_. Done (Inl e))"

definition persist_proc ::
    "'z tmp_deps_scheme \<Rightarrow> string list \<Rightarrow> string \<Rightarrow> (io_error + unit) proc" where
  "persist_proc x t path =
     look (file_sync_all t) (\<lambda>synced.
     case synced of
       Inl e \<Rightarrow> give_up x t e
     | Inr _ \<Rightarrow> act (dep_tmp_persist x t path) (\<lambda>persisted.
         case persisted of Inl e \<Rightarrow> give_up x t e | Inr _ \<Rightarrow> Done (Inr ())))"

definition replace_via_temp_proc ::
    "'z tmp_deps_scheme \<Rightarrow> string \<Rightarrow> string \<Rightarrow> bytes \<Rightarrow> (io_error + unit) proc" where
  "replace_via_temp_proc x dir path data =
     act (dep_tmp_new_in x dir) (\<lambda>made.
     case made of
       Inl e \<Rightarrow> Done (Inl e)
     | Inr t \<Rightarrow> act (file_write_all t data) (\<lambda>wrote.
         case wrote of Inl e \<Rightarrow> give_up x t e | Inr _ \<Rightarrow> persist_proc x t path))"

definition atomic_write_proc ::
    "'z tmp_deps_scheme \<Rightarrow> string \<Rightarrow> bytes \<Rightarrow> (io_error + unit) proc" where
  "atomic_write_proc x path data =
     (case path_parent path of
        None \<Rightarrow> Done (Inl (IoErr EkInvalidInput ''no parent directory''))
      | Some parent \<Rightarrow>
          look (\<lambda>w. path_exists w parent) (\<lambda>there.
          act (\<lambda>w. if there then (Inr (), w) else fs_create_dir_all parent w) (\<lambda>made.
          case made of
            Inl e \<Rightarrow> Done (Inl e)
          | Inr _ \<Rightarrow> replace_via_temp_proc x parent path data)))"

lemma run_replace_via_temp:
  "run_proc (replace_via_temp_proc x dir path data) w = Some (replace_via_temp x dir path data w)"
  by (simp add: replace_via_temp_proc_def replace_via_temp_def persist_proc_def give_up_def
      split: prod.splits sum.splits)

lemma run_atomic_write: "run_proc (atomic_write_proc x path data) w = Some (atomic_write x path data w)"
  by (simp add: atomic_write_proc_def atomic_write_def Let_def run_replace_via_temp
      split: option.splits prod.splits sum.splits)

lemma ends_atomic_write [simp]: "ends (atomic_write_proc x path data)"
  by (auto simp: atomic_write_proc_def replace_via_temp_proc_def persist_proc_def give_up_def
      split: option.splits sum.splits)

section \<open>It guards every other file\<close>

lemma temp_made:
  assumes "tempfile_ok x" and "dep_tmp_new_in x dir w = (Inr t, w')" and "s \<longrightarrow> linkless w"
  shows "holding x s ds (Some (t, Blank)) w' \<and> spares x s ds None w w' \<and> claims None (Some (t, Blank)) w"
proof -
  from tmp_new_in_cases [OF assms(1,2)] obtain q n where "os_create_new q n w = (Inr t, w')" by auto
  from os_create_new_ok [OF this] have t: "node_at w t = None"
    and w': "w' = put_node t (FileN [] (Some (now w))) (tick w)" by blast+
  have l: "s \<longrightarrow> linkless w'" using assms(3) w' by (simp add: linkless_put)
  moreover have "spares x s ds None w w'" using t w' l by (intro spares_kept) auto
  ultimately show ?thesis
    using t w' temp_name [OF assms(2)] by (simp add: holding_Some claims_def filled_def)
qed

lemma temp_filled:
  assumes "holding x s ds (Some (t, Blank)) w" and "d \<in> ds" and "file_write_all t d w = (r, w')"
  shows "spares x s ds (Some (t, Blank)) w w'
    \<and> holding x s ds (Some (t, if is_ok r then Whole else Broken)) w'"
proof -
  from assms(1) obtain c m where c: "node_at w t = Some (FileN c m)" "log_tail x s t c"
    and t: "last t \<in> temp_names x" and l: "s \<longrightarrow> linkless w" by (auto simp: holding_Some filled_def)
  let ?put = "landed w t d"
  have w': "w' = put_node t (FileN (?put @ drop (length ?put) c) (Some (now w))) (tick w)"
    and r: "r = write_result w t d" using assms(3) c by (simp_all add: file_write_all_def Let_def)
  have l': "s \<longrightarrow> linkless w'" using l w' by (simp add: linkless_put)
  have "begun x s ds t (?put @ drop (length ?put) c)" if "is_ok r"
  proof -
    from that r have "is_ok (write_result w t d)" by simp
    then obtain u where "write_result w t d = Inr u" by (cases "write_result w t d") simp_all
    then have "landed w t d = d" by (simp add: write_result_cases)
    with begun_in [OF assms(2) log_tail_drop [OF c(2)]] show ?thesis by simp
  qed
  with l' t w' have "holding x s ds (Some (t, if is_ok r then Whole else Broken)) w'"
    by (simp add: holding_Some filled_def)
  moreover have "spares x s ds (Some (t, Blank)) w w'" using w' l' by (intro spares_kept) auto
  ultimately show ?thesis by blast
qed

lemma temp_dropped:
  assumes "tempfile_ok x" and "s \<longrightarrow> linkless w"
  shows "spares x s ds (Some (t, f)) w (dep_tmp_drop x t w)"
  using tmp_drop_cases [OF assms(1), of t w] assms(2) by (auto intro!: spares_kept simp: linkless_del)

lemma temp_persisted:
  assumes ok: "tempfile_ok x" and tu: "s \<longrightarrow> temps_unlogged x" and path: "last (os_names path) \<notin> temp_names x"
    and h: "holding x s ds (Some (t, Whole)) w" and run: "dep_tmp_persist x t path w = (r, w')"
  shows "spares x s ds (Some (t, Whole)) w w' \<and> (\<not> is_ok r \<longrightarrow> holding x s ds (Some (t, Whole)) w')"
proof -
  from h obtain c m where t: "node_at w t = Some (FileN c m)" "begun x s ds t c" "last t \<in> temp_names x"
    and l: "s \<longrightarrow> linkless w" by (auto simp: holding_Some filled_def)
  then have "\<not> is_dir_node (node_at w t)" by simp
  from tmp_persist_cases [OF ok run this] show ?thesis
  proof
    assume "r = Inr () \<and> os_rename t path w = (Inr (), w')"
    then have r: "r = Inr ()" and rn: "os_rename t path w = (Inr (), w')" by blast+
    from os_rename_ok [OF rn] t obtain p where p: "lookup_entry w path = Inr p"
      and w': "w' = put_node p (FileN c m) (del_node t w)" by auto
    have "last p = last (os_names path)"
      using p by (auto simp: lookup_entry_def Let_def split: if_splits sum.splits option.splits)
    with path have "last p \<notin> temp_names x" by simp
    moreover have "begun x s ds p c" using begun_temp [OF t(2,3) tu] .
    moreover have "s \<longrightarrow> linkless w'" using l w' by (simp add: linkless_put linkless_del)
    ultimately have "spares x s ds (Some (t, Whole)) w w'"
      unfolding spares_def using w' by (auto intro: exI [of _ "[]"])
    with r show ?thesis by simp
  qed (use h l in auto)
qed

lemma guards_give_up:
  assumes "tempfile_ok x"
  shows "guards x s ds (Some (t, f)) (give_up x t e)"
  unfolding give_up_def guards_act
proof (intro allI impI exI [of _ None])
  fix w assume "holding x s ds (Some (t, f)) w"
  then have "s \<longrightarrow> linkless w" by (simp add: holding_def)
  from temp_dropped [OF assms this, of ds t f] show
    "holding x s ds None (snd ((), dep_tmp_drop x t w)) \<and> spares x s ds (Some (t, f)) w (snd ((), dep_tmp_drop x t w))
      \<and> claims (Some (t, f)) None w \<and> guards x s ds None (Done (Inl e))"
    by (simp add: spares_def)
qed

lemma guards_persist:
  assumes ok: "tempfile_ok x" and tu: "s \<longrightarrow> temps_unlogged x" and path: "last (os_names path) \<notin> temp_names x"
  shows "guards x s ds (Some (t, Whole)) (persist_proc x t path)"
proof -
  let ?k = "\<lambda>persisted. case persisted of Inl e \<Rightarrow> give_up x t e | Inr _ \<Rightarrow> Done (Inr ())"
  have "\<exists>ow'. holding x s ds ow' w' \<and> spares x s ds (Some (t, Whole)) w w' \<and> claims (Some (t, Whole)) ow' w
      \<and> guards x s ds ow' (?k r)"
    if h: "holding x s ds (Some (t, Whole)) w" and run: "dep_tmp_persist x t path w = (r, w')" for w r w'
  proof (cases r)
    case (Inl e)
    with temp_persisted [OF ok tu path h run] guards_give_up [OF ok] show ?thesis
      by (intro exI [of _ "Some (t, Whole)"]) (simp add: is_ok_def)
  next
    case (Inr u)
    with temp_persisted [OF ok tu path h run] show ?thesis
      by (intro exI [of _ None]) (simp add: spares_def)
  qed
  then have "guards x s ds (Some (t, Whole)) (act (dep_tmp_persist x t path) ?k)" by (intro guards_actI)
  then show ?thesis
    unfolding persist_proc_def by (intro guards_look) (auto split: sum.splits intro: guards_give_up [OF ok])
qed

lemma guards_replace_via_temp:
  assumes ok: "tempfile_ok x" and tu: "s \<longrightarrow> temps_unlogged x"
    and path: "last (os_names path) \<notin> temp_names x" and d: "d \<in> ds"
  shows "guards x s ds None (replace_via_temp_proc x dir path d)"
proof -
  let ?k = "\<lambda>t wrote. case wrote of Inl e \<Rightarrow> give_up x t e | Inr _ \<Rightarrow> persist_proc x t path"
  have "\<exists>ow'. holding x s ds ow' w' \<and> spares x s ds (Some (t, Blank)) w w' \<and> claims (Some (t, Blank)) ow' w
      \<and> guards x s ds ow' (?k t r)"
    if "holding x s ds (Some (t, Blank)) w" "file_write_all t d w = (r, w')" for t w r w'
    using temp_filled [OF that(1) d that(2)] guards_persist [OF ok tu path] guards_give_up [OF ok]
    by (intro exI [of _ "Some (t, if is_ok r then Whole else Broken)"])
      (cases r, simp_all add: is_ok_def claims_def)
  then have written: "guards x s ds (Some (t, Blank)) (act (file_write_all t d) (?k t))" for t
    by (intro guards_actI)
  have "\<exists>ow'. holding x s ds ow' w' \<and> spares x s ds None w w' \<and> claims None ow' w
      \<and> guards x s ds ow' (case r of Inl e \<Rightarrow> Done (Inl e) | Inr t \<Rightarrow> act (file_write_all t d) (?k t))"
    if run: "dep_tmp_new_in x dir w = (r, w')" and h: "holding x s ds None w" for w r w'
  proof (cases r)
    case (Inl e)
    with tmp_new_in_cases [OF ok run] h show ?thesis by (intro exI [of _ None]) auto
  next
    case (Inr t)
    with temp_made [OF ok, of dir w t w' s ds] run h written [of t] show ?thesis
      by (intro exI [of _ "Some (t, Blank)"]) simp
  qed
  then show ?thesis
    unfolding replace_via_temp_proc_def by (intro guards_actI)
qed

lemma guards_atomic_write:
  assumes ok: "tempfile_ok x" and tu: "s \<longrightarrow> temps_unlogged x"
    and path: "last (os_names path) \<notin> temp_names x" and d: "d \<in> ds"
  shows "guards x s ds None (atomic_write_proc x path d)"
proof -
  have "guards x s ds None (act (\<lambda>w. if there then (Inr (), w) else fs_create_dir_all parent w) (\<lambda>made.
      case made of Inl e \<Rightarrow> Done (Inl e) | Inr _ \<Rightarrow> replace_via_temp_proc x parent path d))" for there parent
    unfolding guards_act
  proof (intro allI impI exI [of _ None])
    fix w assume "holding x s ds None w"
    then have l: "s \<longrightarrow> linkless w" by simp
    let ?f = "if there then (Inr (), w) else fs_create_dir_all parent w"
    have "spares x s ds None w (snd ?f)" by (simp add: l spares_create_dir_all)
    then show "holding x s ds None (snd ?f) \<and> spares x s ds None w (snd ?f) \<and> claims None None w
      \<and> guards x s ds None (case fst ?f of Inl e \<Rightarrow> Done (Inl e) | Inr _ \<Rightarrow> replace_via_temp_proc x parent path d)"
      using guards_replace_via_temp [OF ok tu path d] by (auto simp: spares_def split: sum.split)
  qed
  then show ?thesis
    by (auto simp: atomic_write_proc_def intro!: guards_look split: option.splits)
qed

end
