(* ===== verification/Stepwise.thy ===== *)
theory Stepwise
  imports Staging Handlers
begin

text \<open>
  The handlers again, one action per look at or change of the machine, as the worker threads
  of the tunnel run them next to each other.  Run without interruption each is the handler of
  its own theory; interleaved, what one checked need not hold when it acts.  The creation, the
  filling and the renaming of a temporary file are actions of their own; the look-ups of the
  entries of one directory, and the making of the directories of one path, are one action.
\<close>

definition append_line_proc :: "string \<Rightarrow> string \<Rightarrow> (io_error + unit) proc" where
  "append_line_proc path line =
     act (fs_append path (as_bytes line)) (\<lambda>wrote.
     case wrote of
       Inl e \<Rightarrow> Done (Inl e)
     | Inr _ \<Rightarrow> act (fs_append path (as_bytes [CHR 0x0A])) Done)"

definition audit_proc :: "'z audit_deps_scheme \<Rightarrow> Audit \<Rightarrow> Event \<Rightarrow> (io_error + unit) proc" where
  "audit_proc x a ev =
     act utc_now (\<lambda>t.
     case dep_json_entry x \<lparr>ts = t, mode = mode_name a, event = ev\<rparr> of
       Inl e \<Rightarrow> Done (Inl (IoErr EkOther e))
     | Inr line \<Rightarrow>
         look (\<lambda>w. audit_log_for x (env_vars w) (dep_day x t)) (\<lambda>path.
         act (case path_parent path of None \<Rightarrow> (\<lambda>w. (Inr (), w)) | Some parent \<Rightarrow> fs_create_dir_all parent)
           (\<lambda>made.
         case made of
           Inl e \<Rightarrow> Done (Inl e)
         | Inr _ \<Rightarrow> append_line_proc path line)))"

text \<open>\<^verbatim>\<open>let _ = audit.write(..)\<close>, then the handler returns.\<close>

definition log_done :: "'z audit_deps_scheme \<Rightarrow> Audit \<Rightarrow> Event \<Rightarrow> 'r \<Rightarrow> 'r proc" where
  "log_done x a ev r = then_proc (\<lambda>_. Done r) (audit_proc x a ev)"

definition never :: "'r proc" where
  "never = Act (\<lambda>w. None)"

section \<open>The handlers, action by action\<close>

definition read_file_proc ::
    "'z audit_deps_scheme \<Rightarrow> ReadFileReq \<Rightarrow> Config \<Rightarrow> Audit \<Rightarrow> (DaemonError + ReadFileResp) proc" where
  "read_file_proc x req cfg a =
     (let path = rf_path req;
          log = (\<lambda>n r. log_done x a (EvRead path n r))
      in
      look (\<lambda>w. path_allowed w (policy cfg) path) (\<lambda>allowed.
      if \<not> allowed then log 0 (OpDenied ''path not in workspace'') (Inl (PathNotAllowed path))
      else
       (let cap = min (rf_max_bytes req) (max_read_bytes cfg) in
        look (\<lambda>w. fs_metadata w path) (\<lambda>stat.
        case stat of
          Inl e \<Rightarrow>
            if io_kind_of e = EkNotFound then log 0 (OpError ''not found'') (Inl (NotFound path))
            else if io_kind_of e = EkPermissionDenied then
              log 0 (OpError ''permission denied'') (Inl (PermissionDenied path))
            else log 0 (OpError (io_to_string e)) (Inl (Io (io_to_string e)))
        | Inr meta \<Rightarrow>
            (let size = md_len meta in
             if size > cap then
               log 0 (OpDenied (''size '' @ show_nat (unat size) @ '' > cap '' @ show_nat (unat cap)))
                 (Inl (SizeLimitExceeded size cap))
             else
               look (\<lambda>w. fs_read w path) (\<lambda>read.
               case read of
                 Inl e \<Rightarrow> log 0 (OpError (io_to_string e)) (Inl (Io (io_to_string e)))
               | Inr data \<Rightarrow>
                   (let mtime_ns = mtime_unix_ns meta; n = (word_of_nat (length data) :: u64) in
                    log n OpOk (Inr \<lparr>rf_data = data, rf_mtime_unix_ns = mtime_ns, rf_size_bytes = n\<rparr>))))))))"

definition list_dir_proc ::
    "'z audit_deps_scheme \<Rightarrow> ListDirReq \<Rightarrow> Config \<Rightarrow> Audit \<Rightarrow> (DaemonError + ListDirResp) proc" where
  "list_dir_proc x req cfg a =
     (let path = ld_path req;
          log = (\<lambda>n r. log_done x a (EvList path n r))
      in
      look (\<lambda>w. path_allowed w (policy cfg) path) (\<lambda>allowed.
      if \<not> allowed then log 0 (OpDenied ''path not in workspace'') (Inl (PathNotAllowed path))
      else
        look (\<lambda>w. fs_read_dir w path) (\<lambda>opened.
        case opened of
          Inl e \<Rightarrow>
            if io_kind_of e = EkNotFound then log 0 (OpError ''not found'') (Inl (NotFound path))
            else if io_kind_of e = EkPermissionDenied then
              log 0 (OpError ''permission denied'') (Inl (PermissionDenied path))
            else log 0 (OpError (io_to_string e)) (Inl (Io (io_to_string e)))
        | Inr read_dir \<Rightarrow>
            look (\<lambda>w. sort_key de_name (List.map_filter (list_entry w) read_dir)) (\<lambda>entries.
            log (word_of_nat (length entries)) OpOk (Inr \<lparr>ld_entries = entries\<rparr>)))))"

definition write_file_proc ::
    "'z tmp_deps_scheme \<Rightarrow> WriteFileReq \<Rightarrow> Config \<Rightarrow> Audit \<Rightarrow> (DaemonError + WriteFileResp) proc" where
  "write_file_proc x req cfg a =
     (let path = wf_path req; log = (\<lambda>r. log_done x a (write_event req r)) in
      if \<not> writes_allowed (policy cfg) then
        log (OpDenied ''read-only mode'') (Inl (PermissionDenied ''read-only mode''))
      else
        look (\<lambda>w. path_allowed w (policy cfg) path) (\<lambda>allowed.
        if \<not> allowed then log (OpDenied ''path not in workspace'') (Inl (PathNotAllowed path))
        else
          look (\<lambda>w. cas_check w req) (\<lambda>cas.
          case cas of
            Some (why, err) \<Rightarrow> log (OpDenied why) (Inl err)
          | None \<Rightarrow>
              then_proc (\<lambda>written.
                case written of
                  Inl e \<Rightarrow> log (OpError (io_to_string e)) (Inl (daemon_error_from_io e path))
                | Inr _ \<Rightarrow>
                    look (\<lambda>w. case fs_metadata w path of Inl _ \<Rightarrow> 0 | Inr m \<Rightarrow> mtime_unix_ns m)
                      (\<lambda>new_mtime. log OpOk (Inr \<lparr>wf_mtime_unix_ns = new_mtime\<rparr>)))
                (atomic_write_proc x path (wf_data req)))))"

definition exec_proc ::
    "'z exec_deps_scheme \<Rightarrow> ExecReq \<Rightarrow> Config \<Rightarrow> Audit \<Rightarrow> (DaemonError + ExecResp) proc" where
  "exec_proc x req cfg a =
     (let cmd = ex_command req in
      if \<not> exec_allowed (policy cfg) cmd then
        (let why = exec_denied_reason (policy cfg) in
         log_done x a (EvExec cmd None 0 False False (OpDenied why)) (Inl (PermissionDenied why)))
      else
       (let timeout = ms (unat (effective_exec_timeout_ms cfg (ex_timeout_ms req)));
            max_output = min (ex_max_output_bytes req) (max_output_bytes cfg)
        in
        look (\<lambda>w. exec_command w (policy cfg) cmd) (\<lambda>c.
        act (dep_spawn x c) (\<lambda>spawned.
        case spawned of
          Inl e \<Rightarrow>
            (let msg = io_to_string e in
             log_done x a (EvExec cmd None 0 False False (OpError msg)) (Inl (Io msg)))
        | Inr ch \<Rightarrow>
            (case wait_with_timeout ch timeout of
               None \<Rightarrow> never
             | Some (WFailed e, t) \<Rightarrow>
                 (let msg = io_to_string e in
                  log_done x a (EvExec cmd None (word_of_nat (t div ms 1)) False False (OpError msg))
                    (Inl (Io msg)))
             | Some (outcome, t) \<Rightarrow>
                 (case (read_capped (ch_stdout ch) (unat max_output),
                        read_capped (ch_stderr ch) (unat max_output)) of
                    (Some (out, out_trunc), Some (err, err_trunc)) \<Rightarrow>
                      (let exit_code = (case outcome of WExited c \<Rightarrow> c | _ \<Rightarrow> None);
                           timed_out = (outcome = WTimedOut);
                           output_truncated = (out_trunc \<or> err_trunc);
                           duration_ms = (word_of_nat (min ((t + ch_join ch) div ms 1) (2 ^ 32 - 1))
                                            :: u32)
                       in log_done x a
                            (EvExec cmd exit_code duration_ms timed_out output_truncated
                               (if timed_out then OpError ''timed out'' else OpOk))
                            (if timed_out then Inl Timeout
                             else Inr \<lparr>ex_stdout = out, ex_stderr = err, ex_exit_code = exit_code,
                                       ex_duration_ms = duration_ms, ex_timed_out = timed_out,
                                       ex_output_truncated = output_truncated\<rparr>))
                  | _ \<Rightarrow> never))))))"

definition dispatch_proc ::
    "'z exec_deps_scheme \<Rightarrow> Request \<Rightarrow> Config \<Rightarrow> Audit \<Rightarrow> Response proc" where
  "dispatch_proc x req cfg a =
     (case req of
        ReqReadFile r \<Rightarrow> then_proc (\<lambda>res. Done (RespReadFile res)) (read_file_proc x r cfg a)
      | ReqWriteFile r \<Rightarrow> then_proc (\<lambda>res. Done (RespWriteFile res)) (write_file_proc x r cfg a)
      | ReqListDir r \<Rightarrow> then_proc (\<lambda>res. Done (RespListDir res)) (list_dir_proc x r cfg a)
      | ReqExec r \<Rightarrow> then_proc (\<lambda>res. Done (RespExec res)) (exec_proc x r cfg a)
      | ReqPing \<Rightarrow> Done RespPong)"

section \<open>Without interruption\<close>

lemma run_append_line: "run_proc (append_line_proc path line) w = Some (append_line path line w)"
  by (simp add: append_line_proc_def append_line_def split: prod.splits sum.splits)

lemma run_audit: "run_proc (audit_proc x a ev) w = Some (audit_write x a ev w)"
  by (simp add: audit_proc_def audit_write_def Let_def run_append_line utc_now_def
      split: prod.splits sum.splits option.splits)

lemma run_log_done [simp]: "run_proc (log_done x a ev r) w = Some (r, audit_log x a ev w)"
  by (simp add: log_done_def run_then run_audit audit_log_def split: prod.splits)

lemma run_never [simp]: "run_proc never w = None"
  by (simp add: never_def)

lemma run_read_file: "run_proc (read_file_proc x req cfg a) w = Some (read_file_handle x req cfg a w)"
  by (simp add: read_file_proc_def read_file_handle_def Let_def split: sum.splits)

lemma run_list_dir: "run_proc (list_dir_proc x req cfg a) w = Some (list_dir_handle x req cfg a w)"
  by (simp add: list_dir_proc_def list_dir_handle_def Let_def split: sum.splits)

lemma run_write_file: "run_proc (write_file_proc x req cfg a) w = Some (write_file_handle x req cfg a w)"
  by (simp add: write_file_proc_def write_file_handle_def Let_def run_then run_atomic_write
      split: sum.splits option.splits prod.splits)

lemma run_exec: "run_proc (exec_proc x req cfg a) w = exec_handle x req cfg a w"
  by (simp add: exec_proc_def exec_handle_def Let_def
      split: sum.splits option.splits prod.splits waited.splits)

lemma run_dispatch: "run_proc (dispatch_proc x req cfg a) w = dispatch x req cfg a w"
  by (cases req)
    (simp_all add: dispatch_proc_def dispatch_def run_then run_read_file run_list_dir run_write_file
      run_exec ping_handle_def split: prod.splits option.splits)

section \<open>What a request's actions do\<close>

text \<open>The log takes the time, makes directories and appends.\<close>

definition log_step :: "'z audit_deps_scheme \<Rightarrow> world \<Rightarrow> world \<Rightarrow> bool" where
  "log_step x w w' \<longleftrightarrow>
     w' = w \<or> w' = tick w \<or> (\<exists>d. w' = snd (fs_create_dir_all d w))
   \<or> (\<exists>env day c. log_piece x c \<and> w' = snd (fs_append (audit_log_for x env day) c w))"

lemma log_step_grows: "log_step x w w' \<Longrightarrow> grows w w'"
  by (auto simp: log_step_def intro: grows_create_dir_all grows_append)

lemma log_step_wf: "log_step x w w' \<Longrightarrow> wf_world w \<Longrightarrow> wf_world w'"
  by (auto simp: log_step_def fs_append_def intro: keeps_wf)

text \<open>What is appended are pieces of the log, to files that are named like it.\<close>

lemma log_named_log: "log_named (audit_log_for x env day)"
proof -
  have "suffix ''.jsonl'' (day @ ''.jsonl'')" by (rule suffixI) simp
  then have "suffix ''.jsonl'' (path_join a (day @ ''.jsonl''))" for a
    by (auto simp: path_join_def intro: suffix_appendI suffix_ConsI)
  then show ?thesis by (simp add: log_named_def audit_log_for_def)
qed

lemma spares_append:
  assumes c: "log_piece x c" and s: "s \<longrightarrow> linkless w" and n: "log_named path"
  shows "spares x s ds None w (snd (fs_append path c w))"
proof -
  have gone: "spares x s ds None w w" using s by simp
  have put: "spares x s ds None w (put_node q nd (tick w))"
    if q: "lookup_create w path = Inr q" and nd: "write_node True (landed w q c) (now w) (node_at w q) = Inr nd" for q nd
  proof -
    obtain k where k: "landed w q c = take k c" using landed_part by blast
    have "log_tail x s q (landed w q c)"
      using log_text_piece [OF log_piece_take [OF c, of k]] k s log_named_path [OF n]
        lookup_create_last [OF conjunct1 [OF log_named_path [OF n]] _ q] by (auto simp: log_tail_def)
    moreover have "linkless (put_node q nd (tick w))" if "linkless w"
      using that nd by (intro linkless_put) (auto simp: write_node_def split: option.splits node.splits)
    moreover have "\<exists>c' m'. (if p = q then Some nd else node_at w p) = Some (FileN c' m')
        \<and> (\<exists>rest. c' = d @ rest \<and> log_tail x s p rest)"
      if "node_at w p = Some (FileN d m)" for p d m
      using that nd calculation(1)
      by (cases "p = q") (auto simp: write_node_def intro: exI [of _ "[]"])
    ultimately show ?thesis using s unfolding spares_def by fastforce
  qed
  show ?thesis
    using gone put by (auto simp: fs_append_def fs_open_write_def split: sum.splits option.splits)
qed

lemma log_step_spares:
  assumes "log_step x w w'" and "s \<longrightarrow> linkless w"
  shows "spares x s ds None w w'"
proof -
  have "spares x s ds None w (tick w)" using assms(2) by (intro spares_kept) simp_all
  with assms show ?thesis
    by (auto simp: log_step_def spares_append [OF _ _ log_named_log] spares_create_dir_all)
qed

lemma obeys_audit: "obeys (log_step x) (\<lambda>_. True) (audit_proc x a ev)"
proof -
  have r: "reflp (log_step x)" by (simp add: reflp_def log_step_def)
  have whole: "log_piece x (as_bytes line)" "log_piece x (as_bytes [CHR 0x0A])"
    if "dep_json_entry x entry = Inr line" for entry line
    using that unfolding log_piece_def by blast+
  have line: "obeys (log_step x) (\<lambda>_. True) (append_line_proc (audit_log_for x env day) line)"
    if "dep_json_entry x entry = Inr line" for env day entry line
    unfolding append_line_proc_def obeys_act log_step_def
    using whole [OF that] by (auto simp: obeys_act log_step_def split: sum.splits)
  have "log_step x w (snd ((case path_parent path of None \<Rightarrow> (\<lambda>w. (Inr (), w)) | Some p \<Rightarrow> fs_create_dir_all p) w))"
    for w path by (auto simp: log_step_def split: option.splits)
  then show ?thesis
    by (auto simp: audit_proc_def obeys_act utc_now_def log_step_def [of x _ "tick _"]
        intro!: obeys_look r line split: sum.splits)
qed

text \<open>A write makes, fills, renames and drops temporary files.\<close>

definition write_step :: "'z tmp_deps_scheme \<Rightarrow> string \<Rightarrow> bytes \<Rightarrow> world \<Rightarrow> world \<Rightarrow> bool" where
  "write_step x path data w w' \<longleftrightarrow>
     (\<exists>dir. w' = snd (dep_tmp_new_in x dir w)) \<or> (\<exists>t. w' = snd (file_write_all t data w))
   \<or> (\<exists>t. w' = snd (dep_tmp_persist x t path w)) \<or> (\<exists>t. w' = dep_tmp_drop x t w)"

lemma write_steps [simp]:
  "write_step x path data w (snd (dep_tmp_new_in x dir w))"
  "write_step x path data w (snd (file_write_all t data w))"
  "write_step x path data w (snd (dep_tmp_persist x t path w))"
  "write_step x path data w (dep_tmp_drop x t w)"
  by (auto simp: write_step_def)

lemma write_step_wf:
  assumes ok: "tempfile_ok x" and w: "wf_world w" and st: "write_step x path data w w'"
  shows "wf_world w'"
proof -
  have "wf_world (snd (dep_tmp_new_in x dir w))" for dir
  proof -
    obtain r v where run: "dep_tmp_new_in x dir w = (r, v)" by fastforce
    from tmp_new_in_cases [OF ok run] w show ?thesis
      using wf_create_new [of w] unfolding run by (metis snd_conv)
  qed
  moreover have "wf_world (snd (dep_tmp_persist x t path w))" for t
  proof -
    obtain r v where run: "dep_tmp_persist x t path w = (r, v)" by fastforce
    have "persist_ok x t path w" using ok unfolding tempfile_ok_def by blast
    with run w wf_rename [OF w, of t path] show ?thesis
      by (cases r) (auto simp: persist_ok_def split: if_splits)
  qed
  moreover have "wf_world (dep_tmp_drop x t w)" for t
    using tmp_drop_cases [OF ok, of t w] w wf_del [OF w] by auto
  ultimately show ?thesis using st wf_write_all [OF w] by (auto simp: write_step_def)
qed

definition moves ::
    "'z exec_deps_scheme \<Rightarrow> Config \<Rightarrow> Audit \<Rightarrow> Request \<Rightarrow> world \<Rightarrow> world \<Rightarrow> bool" where
  "moves x cfg a req w w' \<longleftrightarrow>
     (req \<noteq> ReqPing \<and> log_step x w w')
   \<or> w' = w
   \<or> (\<exists>r. req = ReqWriteFile r \<and> writes_allowed (policy cfg)
        \<and> write_step x (wf_path r) (wf_data r) w w')
   \<or> (\<exists>r c. req = ReqExec r \<and> exec_allowed (policy cfg) (ex_command r) \<and> w' = snd (dep_spawn x c w))"

lemma moves_refl [simp]: "reflp (moves x cfg a req)" "moves x cfg a req w w"
  by (simp_all add: reflp_def moves_def)

lemma obeys_log_done: "req \<noteq> ReqPing \<Longrightarrow> Q r \<Longrightarrow> obeys (moves x cfg a req) Q (log_done x a ev r)"
  unfolding log_done_def
  by (rule obeys_then [OF obeys_mono [OF obeys_audit, where Q = "\<lambda>_. True"]]) (auto simp: moves_def)

lemma obeys_never [simp]: "obeys R Q never"
  by (simp add: never_def)

lemma obeys_read_file: "obeys (moves x cfg a (ReqReadFile r)) (\<lambda>_. True) (read_file_proc x r cfg a)"
  unfolding read_file_proc_def Let_def
  by (intro obeys_look moves_refl) (auto intro!: obeys_log_done obeys_look split: sum.splits)

lemma obeys_list_dir: "obeys (moves x cfg a (ReqListDir r)) (\<lambda>_. True) (list_dir_proc x r cfg a)"
  unfolding list_dir_proc_def Let_def
  by (intro obeys_look moves_refl) (auto intro!: obeys_log_done obeys_look split: sum.splits)

lemma obeys_atomic_write:
  assumes "writes_allowed (policy cfg)"
  shows "obeys (moves x cfg a (ReqWriteFile r)) (\<lambda>_. True) (atomic_write_proc x (wf_path r) (wf_data r))"
proof -
  have step: "moves x cfg a (ReqWriteFile r) w w'" if "write_step x (wf_path r) (wf_data r) w w'" for w w'
    using that assms by (auto simp: moves_def)
  have dirs: "moves x cfg a (ReqWriteFile r) w (snd (fs_create_dir_all s w))" for s w
    by (auto simp: moves_def log_step_def)
  show ?thesis
    by (auto simp: atomic_write_proc_def replace_via_temp_proc_def persist_proc_def give_up_def obeys_act
        dirs intro!: obeys_look step split: option.splits sum.splits)
qed

lemma moves_spawn:
  "exec_allowed (policy cfg) (ex_command r) \<Longrightarrow> moves x cfg a (ReqExec r) w (snd (dep_spawn x c w))"
  by (auto simp: moves_def)

lemma obeys_write_file: "obeys (moves x cfg a (ReqWriteFile r)) (\<lambda>_. True) (write_file_proc x r cfg a)"
  unfolding write_file_proc_def Let_def
  by (auto simp: write_event_def intro!: obeys_log_done obeys_look obeys_then [OF obeys_atomic_write]
      split: sum.splits option.splits)

lemma obeys_exec: "obeys (moves x cfg a (ReqExec r)) (\<lambda>_. True) (exec_proc x r cfg a)"
  unfolding exec_proc_def Let_def
  by (auto simp: obeys_act moves_spawn intro!: obeys_log_done obeys_look
      split: sum.splits option.splits prod.splits waited.splits)

lemma dispatch_obeys: "obeys (moves x cfg a req) (answers req) (dispatch_proc x req cfg a)"
  by (cases req)
    (auto simp: dispatch_proc_def intro!: obeys_then [OF obeys_read_file] obeys_then [OF obeys_list_dir]
      obeys_then [OF obeys_write_file] obeys_then [OF obeys_exec])

lemma ends_log_done [simp]: "ends (log_done x a ev r)"
proof -
  have "ends (append_line_proc path line)" for path line
    by (auto simp: append_line_proc_def split: sum.splits)
  then have "ends (audit_proc x a ev)" by (auto simp: audit_proc_def split: sum.splits)
  then show ?thesis by (auto simp: log_done_def intro: ends_then)
qed

lemma dispatch_ends: "\<not> (\<exists>r. req = ReqExec r) \<Longrightarrow> ends (dispatch_proc x req cfg a)"
  by (cases req)
    (auto simp: dispatch_proc_def read_file_proc_def list_dir_proc_def write_file_proc_def Let_def
      intro!: ends_then split: sum.splits option.splits)

section \<open>What survives every interleaving\<close>

text \<open>All that a request may write; and that it does not name what may be a temporary file.\<close>

fun written_data :: "Request \<Rightarrow> bytes set" where
  "written_data (ReqWriteFile r) = {wf_data r}"
| "written_data _ = {}"

definition spares_temps :: "'z tmp_deps_scheme \<Rightarrow> Request \<Rightarrow> bool" where
  "spares_temps x req \<longleftrightarrow> (\<forall>r. req = ReqWriteFile r \<longrightarrow> last (os_names (wf_path r)) \<notin> temp_names x)"

definition is_exec :: "Request \<Rightarrow> bool" where
  "is_exec req = (case req of ReqExec _ \<Rightarrow> True | _ \<Rightarrow> False)"

lemma guards_write_file:
  assumes "tempfile_ok x" and "s \<longrightarrow> temps_unlogged x" and "last (os_names (wf_path r)) \<notin> temp_names x"
    and "wf_data r \<in> ds"
  shows "guards x s ds None (write_file_proc x r cfg a)"
proof -
  have log: "guards x s ds None (log_done x a ev res)" for ev and res :: "DaemonError + WriteFileResp"
    unfolding log_done_def by (intro guards_then guards_obeys [OF obeys_audit] log_step_spares) simp_all
  then show ?thesis
    unfolding write_file_proc_def Let_def
    by (auto intro!: guards_look guards_then [OF guards_atomic_write [OF assms]] split: sum.splits option.splits)
qed

lemma dispatch_guards:
  assumes "tempfile_ok x" and "s \<longrightarrow> temps_unlogged x" and "\<not> is_exec req" and "spares_temps x req"
    and "written_data req \<subseteq> ds"
  shows "guards x s ds None (dispatch_proc x req cfg a)"
proof (cases "\<exists>r. req = ReqWriteFile r")
  case True
  with assms show ?thesis
    by (auto simp: dispatch_proc_def spares_temps_def intro!: guards_then guards_write_file)
next
  case False
  show ?thesis
  proof (rule guards_obeys [OF dispatch_obeys])
    show "moves x cfg a req w w' \<Longrightarrow> s \<longrightarrow> linkless w \<Longrightarrow> spares x s ds None w w'" for w w'
      using False assms(3) by (auto simp: moves_def is_exec_def intro: log_step_spares)
  qed
qed

lemma moves_wf:
  assumes "tempfile_ok x" and "spawn_ok x" and "moves x cfg a req w w'" and "wf_world w"
  shows "wf_world w'"
  using assms write_step_wf [OF assms(1,4)] log_step_wf by (auto simp: moves_def spawn_ok_def)

lemma moves_readonly: "policy cfg = ReadOnly rs \<Longrightarrow> moves x cfg a req w w' \<Longrightarrow> grows w w'"
  by (auto simp: moves_def intro: log_step_grows)

end
