(* ===== verification/Races.thy ===== *)
theory Races
  imports Stepwise
begin

text \<open>
  What the handlers' checks are worth when another request acts between a check and its use:
  two conditional writes, and a read next to a write.
\<close>

text \<open>Two processes that have come so far end one after the other.\<close>

lemma finish_steps:
  assumes "pool_steps ([p0, p1], w) ([q0, q1], v)"
    and "run_proc q0 v = Some (r0, v0)" and "run_proc q1 v0 = Some (r1, v1)"
  shows "pool_steps ([p0, p1], w) ([Done r0, Done r1], v1)"
proof -
  have "pool_steps ([q0, q1], v) ([Done r0, q1], v0)"
    using run_alone [OF assms(2), of 0 "[q0, q1]"] by simp
  moreover have "pool_steps ([Done r0, q1], v0) ([Done r0, Done r1], v1)"
    using run_alone [OF assms(3), of "Suc 0" "[Done r0, q1]"] by simp
  ultimately show ?thesis using assms(1) by (meson rtranclp_trans)
qed

lemmas proc_eval = look_def act_def

text \<open>A write that passes its checks: what is left of it, and what is left once the file is replaced.\<close>

definition after_write ::
    "'z audit_deps_scheme \<Rightarrow> Audit \<Rightarrow> WriteFileReq \<Rightarrow> io_error + unit \<Rightarrow> (DaemonError + WriteFileResp) proc" where
  "after_write x a r res =
     (case res of
        Inl e \<Rightarrow> log_done x a (write_event r (OpError (io_to_string e))) (Inl (daemon_error_from_io e (wf_path r)))
      | Inr _ \<Rightarrow> look (\<lambda>w. case fs_metadata w (wf_path r) of Inl _ \<Rightarrow> 0 | Inr m \<Rightarrow> mtime_unix_ns m)
          (\<lambda>n. log_done x a (write_event r OpOk) (Inr \<lparr>wf_mtime_unix_ns = n\<rparr>)))"

lemma write_checks:
  assumes "writes_allowed (policy cfg)" "path_allowed w (policy cfg) (wf_path r)" "cas_check w r = None"
    and i: "i < length ps" "ps ! i = then_proc k (write_file_proc x r cfg a)"
  shows "pool_steps (ps, w)
    (ps[i := then_proc (\<lambda>res. then_proc k (after_write x a r res)) (atomic_write_proc x (wf_path r) (wf_data r))], w)"
proof -
  have "schedule [i, i] (ps, w) = Some (ps[i := then_proc k (then_proc (after_write x a r)
      (atomic_write_proc x (wf_path r) (wf_data r)))], w)"
    using assms by (simp add: write_file_proc_def Let_def proc_eval after_write_def [abs_def])
  from schedule_steps [OF this] show ?thesis by (simp only: then_assoc)
qed

lemma write_replaces:
  assumes "atomic_write x path d w = (Inr (), w')"
    and "i < length ps" "ps ! i = then_proc k (atomic_write_proc x path d)"
  shows "pool_steps (ps, w) (ps[i := k (Inr ())], w')"
  by (rule run_part [OF _ assms(2,3)]) (simp add: run_atomic_write assms(1))

lemma after_write_runs: "\<exists>m. run_proc (after_write x a r (Inr ())) v = Some (Inr m, audit_log x a (write_event r OpOk) v)"
  by (simp add: after_write_def)

text \<open>The first process checks, then the second; the first writes, then the second.\<close>

lemma overlapping_writes:
  assumes ok: "writes_allowed (policy cfg)" "path_allowed w (policy cfg) (wf_path r1)"
      "path_allowed w (policy cfg) (wf_path r2)"
    and cas: "cas_check w r1 = None" "cas_check w r2 = None"
    and at: "atomic_write x (wf_path r1) (wf_data r1) w = (Inr (), w1)"
      "atomic_write x (wf_path r2) (wf_data r2) w1 = (Inr (), w2)"
  shows "\<exists>m1 m2. pool_steps ([write_file_proc x r1 cfg a, write_file_proc x r2 cfg a], w)
    ([Done (Inr m1), Done (Inr m2)],
        audit_log x a (write_event r2 OpOk) (audit_log x a (write_event r1 OpOk) w2))"
proof -
  let ?p1 = "write_file_proc x r1 cfg a" and ?p2 = "write_file_proc x r2 cfg a"
    and ?t = "\<lambda>r. then_proc (after_write x a r) (atomic_write_proc x (wf_path r) (wf_data r))"
    and ?q = "\<lambda>r. after_write x a r (Inr ())"
  have "pool_steps ([?p1, ?p2], w) ([?t r1, ?p2], w)"
    using write_checks [OF ok(1,2) cas(1), where i = 0 and ps = "[?p1, ?p2]" and k = Done and x = x and a = a] by simp
  also have "pool_steps ([?t r1, ?p2], w) ([?t r1, ?t r2], w)"
    using write_checks [OF ok(1,3) cas(2), where i = "Suc 0" and ps = "[?t r1, ?p2]" and k = Done and x = x and a = a] by simp
  also have "pool_steps ([?t r1, ?t r2], w) ([?q r1, ?t r2], w1)"
    using write_replaces [OF at(1), of 0 "[?t r1, ?t r2]" "after_write x a r1"] by simp
  also have "pool_steps ([?q r1, ?t r2], w1) ([?q r1, ?q r2], w2)"
    using write_replaces [OF at(2), of "Suc 0" "[?q r1, ?t r2]" "after_write x a r2"] by simp
  finally show ?thesis using finish_steps after_write_runs by meson
qed

section \<open>One write after another\<close>

text \<open>What \<^verbatim>\<open>stat\<close> shows of a file that was written at the \<open>n\<close>-th reading of the clock.\<close>

definition clock_ns :: "world \<Rightarrow> nat \<Rightarrow> i64" where
  "clock_ns w n = (if wall_clock w n < 0 then 0 else word_of_int (wall_clock w n))"

text \<open>Later on the same machine: directories are kept and no link appears.\<close>

definition later :: "world \<Rightarrow> world \<Rightarrow> bool" where
  "later w v \<longleftrightarrow> dirs_kept w v \<and> linkless v \<and> ticks w \<le> ticks v"

lemma later_refl: "linkless w \<Longrightarrow> later w w"
  by (simp add: later_def dirs_kept_def)

lemma later_linkless: "later w v \<Longrightarrow> linkless v"
  by (simp add: later_def)

lemma later_trans: "later w v \<Longrightarrow> later v u \<Longrightarrow> later w u"
  by (auto simp: later_def dirs_kept_def intro: same_machine_trans)

lemma later_tick [simp]: "later w (tick v) \<longleftrightarrow> later w (v\<lparr>ticks := Suc (ticks v)\<rparr>)"
  by (simp add: tick_def)

lemma later_put:
  assumes "linkless w" and "\<not> is_dir_node (node_at w p)" and "\<not> is_link_node (Some nd)"
  shows "later w (put_node p nd (tick w))"
  using assms linkless_put [of "tick w" nd p] by (auto simp: later_def dirs_kept_def)

lemma later_mkdir: "linkless w \<Longrightarrow> later w (snd (fs_mkdir s w))"
  by (auto simp: fs_mkdir_def intro!: later_put later_refl split: sum.splits option.splits)

lemma later_create_dir_all: "linkless w \<Longrightarrow> later w (snd (fs_create_dir_all s w))"
  by (rule create_dir_all_keeps [where P = "later w", OF later_trans [OF _ later_mkdir]])
    (auto intro: later_refl simp: later_linkless)

text \<open>The path leads to a file written since the world \<open>w\<close>.\<close>

definition fresh :: "world \<Rightarrow> string \<Rightarrow> world \<Rightarrow> bool" where
  "fresh w s v \<longleftrightarrow> later w v
     \<and> (\<exists>q d n. lookup v s = Inr q \<and> node_at v q = Some (FileN d (Some (wall_clock w n))) \<and> ticks w \<le> n)"

lemma fresh_mtime:
  assumes "fresh w s v" and "fs_metadata v s = Inr meta"
  shows "\<exists>n \<ge> ticks w. mtime_unix_ns meta = clock_ns w n"
proof -
  from assms(1) obtain q d n where "lookup v s = Inr q" "node_at v q = Some (FileN d (Some (wall_clock w n)))"
    and n: "ticks w \<le> n" by (auto simp: fresh_def)
  with assms(2) have "mtime_unix_ns meta = clock_ns w n"
    by (auto simp: fs_metadata_def mtime_unix_ns_def clock_ns_def split: option.splits)
  with n show ?thesis by blast
qed

text \<open>A write that expects a time before it is refused, and leaves one event.\<close>

lemma stale_write_refused:
  assumes f: "fresh w (wf_path r) v" and al: "writes_allowed (policy cfg)"
    and r: "wf_if_mtime_matches r = Some t" and t: "\<forall>n \<ge> ticks w. clock_ns w n \<noteq> t"
  shows "\<exists>e why. write_file_handle x r cfg a v = (Inl e, audit_log x a (write_event r (OpDenied why)) v)"
proof (cases "path_allowed v (policy cfg) (wf_path r)")
  case True
  show ?thesis
  proof (cases "fs_metadata v (wf_path r)")
    case (Inr meta)
    from fresh_mtime [OF f Inr] t have "mtime_unix_ns meta \<noteq> t" by auto
    with Inr True al r have "write_file_handle x r cfg a v = (Inl (MtimeMismatch t (mtime_unix_ns meta)),
        audit_log x a (write_event r (OpDenied (''mtime mismatch: '' @ show_int (sint t)
          @ '' vs '' @ show_int (sint (mtime_unix_ns meta))))) v)"
      by (simp add: write_file_handle_def cas_check_def Let_def)
    then show ?thesis by blast
  next
    case (Inl e)
    with True al r have "write_file_handle x r cfg a v = (Inl (MtimeMismatch t 0), audit_log x a
        (write_event r (OpDenied (''expected mtime '' @ show_int (sint t) @ '' but file doesn't exist''))) v)"
      by (simp add: write_file_handle_def cas_check_def Let_def)
    then show ?thesis by blast
  qed
next
  case False
  with al have "write_file_handle x r cfg a v = (Inl (PathNotAllowed (wf_path r)),
      audit_log x a (write_event r (OpDenied ''path not in workspace'')) v)"
    by (simp add: write_file_handle_def Let_def)
  then show ?thesis by blast
qed

text \<open>It stays fresh, as long as files are at most written to.\<close>

lemma fresh_later:
  assumes f: "fresh w s v" and l: "later v u"
    and files: "\<And>q d m. node_at v q = Some (FileN d m) \<Longrightarrow>
      \<exists>d'. node_at u q = Some (FileN d' m) \<or> node_at u q = Some (FileN d' (Some (now v)))"
  shows "fresh w s u"
proof -
  from f obtain q d n where q: "lookup v s = Inr q" "node_at v q = Some (FileN d (Some (wall_clock w n)))"
    and n: "ticks w \<le> n" and wv: "later w v" by (auto simp: fresh_def)
  have "now v = wall_clock w (ticks v)" "ticks w \<le> ticks v"
    using wv by (simp_all add: now_def later_def dirs_kept_def same_machine_def)
  with files [OF q(2)] n obtain d' n' where u: "node_at u q = Some (FileN d' (Some (wall_clock w n')))" "ticks w \<le> n'"
    by metis
  have "lookup u s = Inr q"
    using lookup_kept [OF q(1)] wv l u(1) by (simp add: later_def)
  with u later_trans [OF wv l] show ?thesis by (auto simp: fresh_def)
qed

lemma fresh_audit_log:
  assumes "fresh w s v" shows "fresh w s (audit_log x a ev v)"
  unfolding audit_log_def
proof (rule audit_write_keeps [where P = "fresh w s", OF _ _ _ assms])
  fix v assume f: "fresh w s v"
  then have l: "linkless v" by (simp add: fresh_def later_def)
  have "later v (tick v)" using l by (simp add: later_def dirs_kept_def linkless_def)
  from fresh_later [OF f this] show "fresh w s (tick v)" by auto
  fix p
  have "\<exists>d'. node_at (snd (fs_mkdir p v)) q = Some (FileN d' m)
      \<or> node_at (snd (fs_mkdir p v)) q = Some (FileN d' (Some (now v)))"
    if "node_at v q = Some (FileN d m)" for q d m
    using that by (auto simp: fs_mkdir_def split: sum.splits option.splits)
  from fresh_later [OF f later_mkdir [OF l] this] show "fresh w s (snd (fs_mkdir p v))" .
  fix c
  have "later v (snd (fs_append p c v))"
    using l by (auto simp: fs_append_def fs_open_write_def write_node_def intro!: later_put later_refl
        split: sum.splits option.splits node.splits)
  moreover have "\<exists>d'. node_at (snd (fs_append p c v)) q = Some (FileN d' m)
      \<or> node_at (snd (fs_append p c v)) q = Some (FileN d' (Some (now v)))"
    if "node_at v q = Some (FileN d m)" for q d m
    using that by (auto simp: fs_append_def fs_open_write_def write_node_def
        split: sum.splits option.splits node.splits)
  ultimately show "fresh w s (snd (fs_append p c v))" using fresh_later [OF f] by blast
qed

lemma atomic_write_fresh:
  assumes ok: "tempfile_ok x" and run: "atomic_write x path d w = (Inr (), w')" and l: "linkless w"
  shows "fresh w path w'"
proof -
  from run obtain parent w0 where p0: "(if path_exists w parent then (Inr (), w) else fs_create_dir_all parent w) = (Inr (), w0)"
    and rep: "replace_via_temp x parent path d w0 = (Inr (), w')"
    by (auto simp: atomic_write_def split: option.splits prod.splits sum.splits)
  have l0: "later w w0"
    using p0 later_refl [OF l] later_create_dir_all [OF l, of parent] by (auto split: if_splits)
  then have k0: "linkless w0" by (simp add: later_def)
  from rep obtain t w1 w2 where n: "dep_tmp_new_in x parent w0 = (Inr t, w1)"
    and wr: "file_write_all t d w1 = (Inr (), w2)" and pe: "dep_tmp_persist x t path w2 = (Inr (), w')"
    by (auto simp: replace_via_temp_def split: prod.splits sum.splits)
  from tmp_new_in_cases [OF ok n] obtain dir nm where "os_create_new dir nm w0 = (Inr t, w1)" by auto
  from os_create_new_ok [OF this] have t: "node_at w0 t = None"
    and w1: "w1 = put_node t (FileN [] (Some (now w0))) (tick w0)" by blast+
  have "later w0 w1" unfolding w1 using k0 t by (intro later_put) simp_all
  with l0 have l1: "later w w1" by (rule later_trans)
  then have k1: "linkless w1" by (simp add: later_def)
  have w2: "w2 = put_node t (FileN d (Some (now w1))) (tick w1)"
    using wr w1 by (auto simp: file_write_all_def Let_def write_result_cases)
  have "later w1 w2" unfolding w2 using k1 w1 by (intro later_put) simp_all
  with l1 have l2: "later w w2" by (rule later_trans)
  then have k2: "linkless w2" by (simp add: later_def)
  have "\<not> is_dir_node (node_at w2 t)" using w2 by simp
  from tmp_persist_cases [OF ok pe this] have rn: "os_rename t path w2 = (Inr (), w')" by blast
  from os_rename_ok [OF rn] w2 obtain q where q: "lookup_entry w2 path = Inr q" "\<not> is_dir_node (node_at w2 q)"
    and w': "w' = put_node q (FileN d (Some (now w1))) (del_node t w2)" by auto
  have "later w2 w'"
    unfolding w' later_def dirs_kept_def using q(2) k2 w2
    by (auto intro!: linkless_put linkless_del)
  with l2 have l': "later w w'" by (rule later_trans)
  have at: "node_at w' q = Some (FileN d (Some (now w1)))" using w' by simp
  have "dirs_kept w2 w'" "linkless w'" using \<open>later w2 w'\<close> by (simp_all add: later_def)
  from entry_resolves [OF q(1) k2 this(2,1) at] have "lookup w' path = Inr q" .
  moreover have "now w1 = wall_clock w (ticks w1)" "ticks w \<le> ticks w1"
    using l1 by (simp_all add: now_def later_def dirs_kept_def same_machine_def)
  ultimately show ?thesis using at l' unfolding fresh_def by metis
qed

section \<open>A read next to a write\<close>

lemma overlapping_read:
  assumes "path_allowed w (policy cfg) (rf_path rr)" and "fs_metadata w (rf_path rr) = Inr meta"
    and "md_len meta \<le> min (rf_max_bytes rr) (max_read_bytes cfg)"
    and "writes_allowed (policy cfg)" "path_allowed w (policy cfg) (wf_path wr)" "cas_check w wr = None"
    and "atomic_write x (wf_path wr) (wf_data wr) w = (Inr (), w1)"
    and "fs_read w1 (rf_path rr) = Inr data"
  shows "\<exists>m w'. pool_steps ([then_proc (\<lambda>r. Done (RespReadFile r)) (read_file_proc x rr cfg a),
        then_proc (\<lambda>r. Done (RespWriteFile r)) (write_file_proc x wr cfg a)], w)
    ([Done (RespReadFile (Inr \<lparr>rf_data = data, rf_mtime_unix_ns = mtime_unix_ns meta,
          rf_size_bytes = word_of_nat (length data)\<rparr>)), Done (RespWriteFile (Inr m))], w')"
proof -
  define n :: u64 where "n = word_of_nat (length data)"
  let ?rproc = "then_proc (\<lambda>r. Done (RespReadFile r)) (read_file_proc x rr cfg a)"
    and ?wproc = "then_proc (\<lambda>r. Done (RespWriteFile r)) (write_file_proc x wr cfg a)"
    and ?fin = "\<lambda>res. then_proc (\<lambda>r. Done (RespWriteFile r)) (after_write x a wr res)"
    and ?fetch = "then_proc (\<lambda>r. Done (RespReadFile r)) (log_done x a (EvRead (rf_path rr) n OpOk)
      (Inr \<lparr>rf_data = data, rf_mtime_unix_ns = mtime_unix_ns meta, rf_size_bytes = n\<rparr>))"
  have small: "\<not> min (rf_max_bytes rr) (max_read_bytes cfg) < md_len meta" using assms(3) by (simp only: not_less)
  define checked where "checked = then_proc (\<lambda>r. Done (RespReadFile r)) (look (\<lambda>w. fs_read w (rf_path rr)) (\<lambda>read.
    case read of
      Inl e \<Rightarrow> log_done x a (EvRead (rf_path rr) 0 (OpError (io_to_string e))) (Inl (Io (io_to_string e)))
    | Inr data \<Rightarrow>
        log_done x a (EvRead (rf_path rr) (word_of_nat (length data)) OpOk)
          (Inr \<lparr>rf_data = data, rf_mtime_unix_ns = mtime_unix_ns meta, rf_size_bytes = word_of_nat (length data)\<rparr>)))"
  have "schedule [0, 0] ([?rproc, ?wproc], w) = Some ([checked, ?wproc], w)"
    using assms(1,2) small by (simp add: read_file_proc_def Let_def proc_eval checked_def)
  then have "pool_steps ([?rproc, ?wproc], w) ([checked, ?wproc], w)" by (rule schedule_steps)
  also have "pool_steps ([checked, ?wproc], w)
      ([checked, then_proc ?fin (atomic_write_proc x (wf_path wr) (wf_data wr))], w)"
    using write_checks [OF assms(4,5,6), where i = "Suc 0" and ps = "[checked, ?wproc]" and x = x and a = a
        and k = "\<lambda>r. Done (RespWriteFile r)"] by simp
  also have "pool_steps \<dots> ([checked, ?fin (Inr ())], w1)"
    using write_replaces [OF assms(7), of "Suc 0" "[checked, then_proc ?fin (atomic_write_proc x (wf_path wr) (wf_data wr))]" ?fin] by simp
  also have "schedule [0] ([checked, ?fin (Inr ())], w1) = Some ([?fetch, ?fin (Inr ())], w1)"
    using assms(8) by (simp add: checked_def proc_eval n_def)
  then have "pool_steps ([checked, ?fin (Inr ())], w1) ([?fetch, ?fin (Inr ())], w1)" by (rule schedule_steps)
  finally have steps: "pool_steps ([?rproc, ?wproc], w) ([?fetch, ?fin (Inr ())], w1)" .
  obtain v where read: "run_proc ?fetch w1 = Some (RespReadFile (Inr \<lparr>rf_data = data,
      rf_mtime_unix_ns = mtime_unix_ns meta, rf_size_bytes = n\<rparr>), v)" by (simp add: run_then)
  obtain m v' where "run_proc (?fin (Inr ())) v = Some (RespWriteFile (Inr m), v')"
    using after_write_runs [of x a wr v] by (auto simp: run_then)
  from finish_steps [OF steps read this] show ?thesis unfolding n_def by blast
qed

lemma exec_sample_tmp [simp]:
  "dep_tmp_new_in (exec_sample_deps ch) = simple_new_in" "dep_tmp_persist (exec_sample_deps ch) = simple_persist"
  "dep_tmp_drop (exec_sample_deps ch) = simple_drop"
  by (simp_all add: exec_sample_deps_def tmp_deps.defs sample_deps_def)

section \<open>Properties\<close>

text \<open>C10. The compare-and-swap check does not protect overlapping writes: of two writes of one path that
  expect the same modification time and both find it, both succeed under some interleaving, the
  second replacing what the first wrote.  One after the other they are safe, on a machine
  without symbolic links whose clock never again shows the expected time: after a first write
  that succeeded, the second is refused, and leaves nothing but the log entry that says so.\<close>

theorem cas_race:
  assumes ok: "tempfile_ok x" and allowed: "writes_allowed (policy cfg)" "path_allowed w (policy cfg) (wf_path r)"
    and cas: "cas_check w r = None" and expects: "wf_if_mtime_matches r = Some t"
    and first: "atomic_write x (wf_path r) (wf_data r) w = (Inr (), w1)"
    and second: "atomic_write x (wf_path r) d w1 = (Inr (), w2)"
  shows "(\<exists>m1 m2 q1 q2. replaced (wf_path r) (wf_data r) w w1 q1 \<and> replaced (wf_path r) d w1 w2 q2
      \<and> pool_steps ([write_file_proc x r cfg a, write_file_proc x (r\<lparr>wf_data := d\<rparr>) cfg a], w)
          ([Done (Inr m1), Done (Inr m2)], audit_log x a (write_event (r\<lparr>wf_data := d\<rparr>) OpOk)
             (audit_log x a (write_event r OpOk) w2)))
    \<and> (linkless w \<and> (\<forall>n \<ge> ticks w. clock_ns w n \<noteq> t) \<longrightarrow>
        (\<exists>m v e why. write_file_handle x r cfg a w = (Inr m, v)
          \<and> write_file_handle x (r\<lparr>wf_data := d\<rparr>) cfg a v
              = (Inl e, audit_log x a (write_event (r\<lparr>wf_data := d\<rparr>) (OpDenied why)) v)))"
proof -
  have "cas_check w (r\<lparr>wf_data := d\<rparr>) = None" using cas by (simp add: cas_check_None)
  with overlapping_writes [of cfg w r "r\<lparr>wf_data := d\<rparr>" x w1 w2 a] allowed cas first second
  obtain m1 m2 where "pool_steps ([write_file_proc x r cfg a, write_file_proc x (r\<lparr>wf_data := d\<rparr>) cfg a], w)
      ([Done (Inr m1), Done (Inr m2)], audit_log x a (write_event (r\<lparr>wf_data := d\<rparr>) OpOk)
         (audit_log x a (write_event r OpOk) w2))"
    by auto
  moreover from aw.ok_replaces [OF ok first] aw.ok_replaces [OF ok second] obtain q1 q2
    where "replaced (wf_path r) (wf_data r) w w1 q1" "replaced (wf_path r) d w1 w2 q2" by blast
  moreover have "\<exists>m v e why. write_file_handle x r cfg a w = (Inr m, v)
      \<and> write_file_handle x (r\<lparr>wf_data := d\<rparr>) cfg a v
          = (Inl e, audit_log x a (write_event (r\<lparr>wf_data := d\<rparr>) (OpDenied why)) v)"
    if l: "linkless w" and t: "\<forall>n \<ge> ticks w. clock_ns w n \<noteq> t"
  proof -
    let ?v = "audit_log x a (write_event r OpOk) w1"
    obtain m where m: "write_file_handle x r cfg a w = (Inr m, ?v)"
      using allowed cas first by (simp add: write_file_handle_def Let_def)
    have "fresh w (wf_path (r\<lparr>wf_data := d\<rparr>)) ?v"
      using fresh_audit_log [OF atomic_write_fresh [OF ok first l]] by simp
    from stale_write_refused [OF this allowed(1) _ t, of x a] expects m show ?thesis by auto
  qed
  ultimately show ?thesis by blast
qed

text \<open>The sample machine without its links, and with a clock too coarse to advance.\<close>

definition plain_world :: world where
  "plain_world = sample_world
     \<lparr>fs_nodes := [([], DirN 4096 None), ([''ws''], DirN 4096 None), ([''ws'', ''a''], FileN [104, 105] (Some 7))],
      wall_clock := (\<lambda>n. 1000)\<rparr>"

theorem cas_race_witness:
  "(\<exists>m1 m2 w'. pool_steps ([write_file_proc sample_deps sample_write sample_config sample_audit,
      write_file_proc sample_deps (sample_write\<lparr>wf_data := [6]\<rparr>) sample_config sample_audit], plain_world)
    ([Done (Inr m1), Done (Inr m2)], w'))
   \<and> (\<exists>m v e v'. write_file_handle sample_deps sample_write sample_config sample_audit plain_world = (Inr m, v)
      \<and> write_file_handle sample_deps (sample_write\<lparr>wf_data := [6]\<rparr>) sample_config sample_audit v = (Inl e, v'))"
proof -
  let ?w1 = "snd (atomic_write sample_deps ''/ws/a'' [5] plain_world)"
  have first: "atomic_write sample_deps (wf_path sample_write) (wf_data sample_write) plain_world = (Inr (), ?w1)"
    by (intro prod_eqI) (simp_all add: write_eval sample_write_def plain_world_def)
  have second: "atomic_write sample_deps (wf_path sample_write) [6] ?w1
      = (Inr (), snd (atomic_write sample_deps ''/ws/a'' [6] ?w1))"
    by (intro prod_eqI) (simp_all add: write_eval sample_write_def plain_world_def)
  have "writes_allowed (policy sample_config)"
    "path_allowed plain_world (policy sample_config) (wf_path sample_write)"
    "cas_check plain_world sample_write = None" "wf_if_mtime_matches sample_write = Some 7"
    by (simp_all add: write_eval sample_write_def plain_world_def)
  note both = cas_race [OF tempfile_ok_sample this first second, of sample_audit]
  have "linkless plain_world" by (simp add: linkless_def plain_world_def)
  moreover have "clock_ns plain_world n \<noteq> 7" for n
    by (simp add: clock_ns_def plain_world_def)
  ultimately show ?thesis using both by blast
qed

text \<open>C26. A read may return what was written while it ran: the check of the path and of the size and
  the modification time returned are from before the write, the bytes from after it, of any
  length, so neither limit on the size holds for them.\<close>

theorem read_race:
  assumes "path_allowed w (policy cfg) (rf_path rr)" and "fs_metadata w (rf_path rr) = Inr meta"
    and "md_len meta \<le> min (rf_max_bytes rr) (max_read_bytes cfg)"
    and "writes_allowed (policy cfg)" "path_allowed w (policy cfg) (wf_path wr)" "cas_check w wr = None"
    and "atomic_write x (wf_path wr) (wf_data wr) w = (Inr (), w1)"
    and "fs_read w1 (rf_path rr) = Inr data"
  shows "\<exists>m w'. pool_steps ([dispatch_proc x (ReqReadFile rr) cfg a, dispatch_proc x (ReqWriteFile wr) cfg a], w)
    ([Done (RespReadFile (Inr \<lparr>rf_data = data, rf_mtime_unix_ns = mtime_unix_ns meta,
          rf_size_bytes = word_of_nat (length data)\<rparr>)), Done (RespWriteFile (Inr m))], w')"
  using overlapping_read [OF assms] unfolding dispatch_proc_def Request.case by blast

theorem read_race_witness:
  "\<exists>m w' resp. pool_steps ([dispatch_proc (exec_sample_deps sample_child)
        (ReqReadFile \<lparr>rf_path = ''/ws/a'', rf_max_bytes = 2\<rparr>) sample_config sample_audit,
      dispatch_proc (exec_sample_deps sample_child) (ReqWriteFile (sample_write\<lparr>wf_data := [1, 2, 3]\<rparr>))
        sample_config sample_audit], sample_world)
    ([Done (RespReadFile (Inr resp)), Done (RespWriteFile (Inr m))], w')
    \<and> length (rf_data resp) = 3 \<and> rf_mtime_unix_ns resp = 7"
proof -
  let ?x = "exec_sample_deps sample_child" and ?rr = "\<lparr>rf_path = ''/ws/a'', rf_max_bytes = 2\<rparr>"
    and ?wr = "sample_write\<lparr>wf_data := [1, 2, 3]\<rparr>"
  let ?w1 = "snd (atomic_write ?x ''/ws/a'' [1, 2, 3] sample_world)"
  have 1: "atomic_write ?x (wf_path ?wr) (wf_data ?wr) sample_world = (Inr (), ?w1)"
    by (intro prod_eqI) (simp_all add: write_eval sample_write_def)
  have 2: "fs_read ?w1 (rf_path ?rr) = Inr [1, 2, 3]"
    by (simp add: write_eval)
  have 3: "path_allowed sample_world (policy sample_config) (rf_path ?rr)"
    "path_allowed sample_world (policy sample_config) (wf_path ?wr)"
    "cas_check sample_world ?wr = None" "writes_allowed (policy sample_config)"
    by (simp_all add: write_eval sample_write_def)
  obtain meta where 4: "fs_metadata sample_world (rf_path ?rr) = Inr meta" "md_len meta = 2"
    "mtime_unix_ns meta = 7"
    by (simp add: write_eval)
  have "md_len meta \<le> min (rf_max_bytes ?rr) (max_read_bytes sample_config)"
    using 4 by (simp add: DEFAULT_MAX_READ_def)
  from read_race [OF 3(1) 4(1) this 3(4,2,3) 1 2] 4(3) show ?thesis by fastforce
qed

end
