(* ===== verification/Streams.thy ===== *)
theory Streams
  imports Races Tunnel
begin

text \<open>
  \<^verbatim>\<open>serve_streams\<close> of \<^verbatim>\<open>membrane-daemon/src/tunnel.rs\<close>: streams are accepted while the
  connection stands, each is served by a task of its own, and the tasks run interleaved, down to the creation, the
  filling and the renaming of their temporary files.  They
  are detached: the end of the connection ends the acceptance of streams, not the tasks.
\<close>

section \<open>A stream's task\<close>

definition stream_request :: "codec \<Rightarrow> bi_stream \<Rightarrow> string + Request \<times> bi_stream" where
  "stream_request cd st =
     (case read_exact st 4 of
        Inl e \<Rightarrow> Inl (''read length prefix: '' @ e)
      | Inr (len_buf, st1) \<Rightarrow>
          (let len = unat (from_le_bytes len_buf) in
           if len > max_request then Inl (''request too large: '' @ show_nat len @ '' bytes'')
           else
            (case read_exact st1 len of
               Inl e \<Rightarrow> Inl (''read body: '' @ e)
             | Inr (body, st2) \<Rightarrow>
                 (case cd_de cd body of
                    Inl e \<Rightarrow> Inl ''decode request''
                  | Inr req \<Rightarrow> Inr (req, st2)))))"

definition stream_reply :: "codec \<Rightarrow> bi_stream \<Rightarrow> Response \<Rightarrow> (string + unit) \<times> bytes" where
  "stream_reply cd st resp =
     (case encode (cd_ser cd) resp of
        Inl e \<Rightarrow> (Inl ''encode response'', [])
      | Inr frame \<Rightarrow>
          (case st_write st frame of
             Some e \<Rightarrow> (Inl (''write response: '' @ e), [])
           | None \<Rightarrow>
               (case st_finish st of
                  Some e \<Rightarrow> (Inl ''finish send stream'', frame)
                | None \<Rightarrow> (Inr (), frame))))"

definition stream_proc ::
    "'z exec_deps_scheme \<Rightarrow> codec \<Rightarrow> bi_stream \<Rightarrow> Config \<Rightarrow> Audit \<Rightarrow> ((string + unit) \<times> bytes) proc" where
  "stream_proc x cd st cfg a =
     (case stream_request cd st of
        Inl e \<Rightarrow> Done (Inl e, [])
      | Inr (req, st2) \<Rightarrow> then_proc (\<lambda>resp. Done (stream_reply cd st2 resp)) (dispatch_proc x req cfg a))"

section \<open>A connection\<close>

record conn =
  tasks :: "((string + unit) \<times> bytes) proc list"
  conn_end :: "string option option"
  conn_world :: world

definition conn_open :: "world \<Rightarrow> conn" where
  "conn_open w = \<lparr>tasks = [], conn_end = None, conn_world = w\<rparr>"

inductive serve_streams ::
    "'z exec_deps_scheme \<Rightarrow> codec \<Rightarrow> Config \<Rightarrow> Audit \<Rightarrow> world \<Rightarrow> bi_stream list \<Rightarrow> conn \<Rightarrow> bool"
  for x cd cfg a w where
  opened: "serve_streams x cd cfg a w [] (conn_open w)"
| accepted: "serve_streams x cd cfg a w sts c \<Longrightarrow> conn_end c = None \<Longrightarrow>
    serve_streams x cd cfg a w (sts @ [st]) (c\<lparr>tasks := tasks c @ [stream_proc x cd st cfg a]\<rparr>)"
| closed: "serve_streams x cd cfg a w sts c \<Longrightarrow> conn_end c = None \<Longrightarrow>
    serve_streams x cd cfg a w sts (c\<lparr>conn_end := Some (streams_end e)\<rparr>)"
| ran: "serve_streams x cd cfg a w sts c \<Longrightarrow> pool_step (tasks c, conn_world c) (ps, v) \<Longrightarrow>
    serve_streams x cd cfg a w sts (c\<lparr>tasks := ps, conn_world := v\<rparr>)"

section \<open>The task alone\<close>

lemma run_stream:
  "map_option (\<lambda>((r, out), w'). (r, out, w')) (run_proc (stream_proc x cd st cfg a) w)
    = handle_stream x cd st cfg a w"
  by (simp add: stream_proc_def stream_request_def stream_reply_def handle_stream_def Let_def run_then
      run_dispatch split: sum.splits prod.splits option.splits)

section \<open>What every task respects\<close>

text \<open>The request of a stream, if one can be read.\<close>

definition stream_asks :: "codec \<Rightarrow> bi_stream \<Rightarrow> Request option" where
  "stream_asks cd st = (case stream_request cd st of Inl e \<Rightarrow> None | Inr (req, st2) \<Rightarrow> Some req)"

definition stream_moves ::
    "'z exec_deps_scheme \<Rightarrow> codec \<Rightarrow> Config \<Rightarrow> Audit \<Rightarrow> bi_stream list \<Rightarrow> world \<Rightarrow> world \<Rightarrow> bool" where
  "stream_moves x cd cfg a sts w w' \<longleftrightarrow>
     (\<exists>st \<in> set sts. \<exists>req. stream_asks cd st = Some req \<and> moves x cfg a req w w')"

text \<open>How a task may end: with an error before the request was known, or with the reply to it.\<close>

definition stream_ends :: "codec \<Rightarrow> bi_stream \<Rightarrow> (string + unit) \<times> bytes \<Rightarrow> bool" where
  "stream_ends cd st out \<longleftrightarrow>
     (case stream_request cd st of
        Inl e \<Rightarrow> out = (Inl e, [])
      | Inr (req, st2) \<Rightarrow> \<exists>resp. answers req resp \<and> out = stream_reply cd st2 resp)"

lemma stream_obeys:
  assumes "st \<in> set sts"
  shows "obeys (stream_moves x cd cfg a sts) (stream_ends cd st) (stream_proc x cd st cfg a)"
proof (cases "stream_request cd st")
  case (Inl e)
  then show ?thesis by (simp add: stream_proc_def stream_ends_def)
next
  case (Inr q)
  obtain req st2 where q: "q = (req, st2)" by fastforce
  have "obeys (moves x cfg a req) (stream_ends cd st) (stream_proc x cd st cfg a)"
    using Inr q
    by (auto simp: stream_proc_def stream_ends_def intro!: obeys_then [OF dispatch_obeys])
  then show ?thesis
  proof (rule obeys_mono)
    have "stream_asks cd st = Some req" using Inr q by (simp add: stream_asks_def)
    with assms show "moves x cfg a req v v' \<Longrightarrow> stream_moves x cd cfg a sts v v'" for v v'
      by (auto simp: stream_moves_def)
  qed
qed

lemma stream_moves_more: "stream_moves x cd cfg a sts w w' \<Longrightarrow> stream_moves x cd cfg a (sts @ [st]) w w'"
  by (auto simp: stream_moves_def)

lemma serve_streams_obeys:
  assumes "serve_streams x cd cfg a w sts c"
  shows "length (tasks c) = length sts
    \<and> pool_obeys (stream_moves x cd cfg a sts) (\<lambda>i. stream_ends cd (sts ! i)) (tasks c)
    \<and> (stream_moves x cd cfg a sts)\<^sup>*\<^sup>* w (conn_world c)"
  using assms
proof induction
  case opened
  show ?case by (simp add: conn_open_def pool_obeys_def)
next
  case (accepted sts c st)
  have m: "stream_moves x cd cfg a sts v v' \<Longrightarrow> stream_moves x cd cfg a (sts @ [st]) v v'" for v v'
    by (rule stream_moves_more)
  have more: "obeys (stream_moves x cd cfg a (sts @ [st])) Q p" if "obeys (stream_moves x cd cfg a sts) Q p" for Q p
    using that m by (rule obeys_mono)
  have "(stream_moves x cd cfg a (sts @ [st]))\<^sup>*\<^sup>* w (conn_world c)"
    using accepted.IH m mono_rtranclp [of "stream_moves x cd cfg a sts"] by blast
  moreover have "pool_obeys (stream_moves x cd cfg a (sts @ [st])) (\<lambda>i. stream_ends cd ((sts @ [st]) ! i))
      (tasks c @ [stream_proc x cd st cfg a])"
    using accepted.IH stream_obeys [of st "sts @ [st]" x cd cfg a]
    by (auto simp: pool_obeys_def nth_append less_Suc_eq intro: more)
  ultimately show ?case using accepted.IH by simp
next
  case (ran sts c ps v)
  with pool_step_obeys [OF ran.hyps(2)] show ?case by (auto intro: rtranclp.rtrancl_into_rtrancl)
qed simp_all

text \<open>A fact that every action of every accepted request keeps holds in every state of a connection.\<close>

lemma serve_streams_invariant:
  assumes "serve_streams x cd cfg a w sts c" and "P w"
    and keeps: "\<And>st req v v'. st \<in> set sts \<Longrightarrow> stream_asks cd st = Some req \<Longrightarrow> moves x cfg a req v v' \<Longrightarrow> P v \<Longrightarrow> P v'"
  shows "P (conn_world c)"
proof -
  from serve_streams_obeys [OF assms(1)] have "(stream_moves x cd cfg a sts)\<^sup>*\<^sup>* w (conn_world c)" by blast
  from rtranclp_keeps [OF this, of P] keeps assms(2) show ?thesis by (auto simp: stream_moves_def)
qed

section \<open>Tasks end\<close>

definition stream_is_exec :: "codec \<Rightarrow> bi_stream \<Rightarrow> bool" where
  "stream_is_exec cd st \<longleftrightarrow> (\<exists>r. stream_asks cd st = Some (ReqExec r))"

lemma stream_ends_proc: "\<not> stream_is_exec cd st \<Longrightarrow> ends (stream_proc x cd st cfg a)"
  by (auto simp: stream_proc_def stream_is_exec_def stream_asks_def intro!: ends_then dispatch_ends
      split: sum.splits)

lemma serve_streams_ends:
  assumes "serve_streams x cd cfg a w sts c" and "i < length sts" and "\<not> stream_is_exec cd (sts ! i)"
  shows "ends (tasks c ! i)"
  using assms
proof (induction arbitrary: i)
  case (accepted sts c st)
  with serve_streams_obeys [OF accepted.hyps(1)] stream_ends_proc [of cd st x cfg a] show ?case
    by (cases "i < length sts") (auto simp: nth_append less_Suc_eq)
next
  case (ran sts c ps v)
  with serve_streams_obeys [OF ran.hyps(1)] have "i < length (tasks c)" "ends (tasks c ! i)" by auto
  from ends_step [OF ran.hyps(2) this] show ?case by simp
qed simp_all

text \<open>
  Tasks that run no command keep their temporary files apart and every other file whole.
\<close>

lemma stream_guards:
  assumes "tempfile_ok x" and "s \<longrightarrow> temps_unlogged x" and "\<not> stream_is_exec cd st"
    and "\<And>req. stream_asks cd st = Some req \<Longrightarrow> spares_temps x req \<and> written_data req \<subseteq> ds"
  shows "guards x s ds None (stream_proc x cd st cfg a)"
proof (cases "stream_request cd st")
  case (Inr q)
  obtain req st2 where q: "q = (req, st2)" by fastforce
  with Inr have "stream_asks cd st = Some req" by (simp add: stream_asks_def)
  with assms(3,4) have "\<not> is_exec req" "spares_temps x req" "written_data req \<subseteq> ds"
    by (auto simp: stream_is_exec_def is_exec_def split: Request.splits)
  from dispatch_guards [OF assms(1,2) this] have "guards x s ds None (dispatch_proc x req cfg a)" .
  with Inr q show ?thesis by (auto simp: stream_proc_def intro: guards_then)
qed (simp add: stream_proc_def)

lemma serve_streams_steps:
  assumes "pool_steps (ps, v) (ps', v')" and "serve_streams x cd cfg a w sts (c\<lparr>tasks := ps, conn_world := v\<rparr>)"
  shows "serve_streams x cd cfg a w sts (c\<lparr>tasks := ps', conn_world := v'\<rparr>)"
  using assms
proof (induction "(ps', v')" arbitrary: ps' v' rule: rtranclp_induct)
  case (step q)
  obtain qs u where q: "q = (qs, u)" by fastforce
  have "serve_streams x cd cfg a w sts (c\<lparr>tasks := qs, conn_world := u\<rparr>)" using step q by simp
  from ran [OF this, of ps' v'] step.hyps(2) q show ?case by simp
qed simp

lemma task_runs_out:
  assumes run: "serve_streams x cd cfg a w sts c" and i: "i < length sts"
    and cmd: "\<not> stream_is_exec cd (sts ! i)"
  obtains out v where "serve_streams x cd cfg a w sts (c\<lparr>tasks := (tasks c)[i := Done out], conn_world := v\<rparr>)"
proof -
  from serve_streams_obeys [OF run] i have l: "i < length (tasks c)" by simp
  from ends_run [OF serve_streams_ends [OF run i cmd]] obtain out v
    where "run_proc (tasks c ! i) (conn_world c) = Some (out, v)" by blast
  from run_alone [OF this l refl] have "pool_steps (tasks c, conn_world c) ((tasks c)[i := Done out], v)" .
  from serve_streams_steps [OF this, of x cd cfg a w sts c] run that show thesis by simp
qed

section \<open>A connection on the sample machine\<close>

definition write_codec :: codec where
  "write_codec = sample_codec\<lparr>cd_de := (\<lambda>b. Inr (ReqWriteFile sample_write))\<rparr>"

definition sample_stream :: bi_stream where
  "sample_stream = \<lparr>recv = [1, 0, 0, 0, 7], recv_end = ''eof'', st_write = (\<lambda>f. None), st_finish = None\<rparr>"

definition sample_conn :: conn where
  "sample_conn = (conn_open sample_world)
     \<lparr>tasks := [stream_proc (exec_sample_deps sample_child) write_codec sample_stream sample_config sample_audit]\<rparr>"

abbreviation sample_serves :: "bi_stream list \<Rightarrow> conn \<Rightarrow> bool" where
  "sample_serves \<equiv>
     serve_streams (exec_sample_deps sample_child) write_codec sample_config sample_audit sample_world"

lemma sample_conn_reached: "sample_serves [sample_stream] sample_conn"
  using accepted [OF opened, where st = sample_stream] by (simp add: sample_conn_def conn_open_def)

lemma sample_asks: "stream_asks write_codec sample_stream = Some (ReqWriteFile sample_write)"
  by (simp add: stream_asks_def stream_request_def sample_stream_def write_codec_def read_exact_def
      from_le_bytes_def max_request_def Let_def)

lemma sample_no_exec: "\<not> stream_is_exec write_codec sample_stream"
  by (simp add: stream_is_exec_def sample_asks)

lemma sample_task_over: obtains out v where
  "sample_serves [sample_stream] (sample_conn\<lparr>tasks := [Done out], conn_world := v\<rparr>)"
proof (rule task_runs_out [OF sample_conn_reached, of 0])
  fix out v
  assume "sample_serves [sample_stream] (sample_conn\<lparr>tasks := (tasks sample_conn)[0 := Done out], conn_world := v\<rparr>)"
  then show thesis using that by (simp add: sample_conn_def)
qed (simp_all add: sample_no_exec)

section \<open>Properties\<close>

text \<open>A stream's task that is not interrupted does what the handler of a stream does: the same
  outcome, the same bytes sent, the same world, or no end in either.\<close>

theorem stream_task_alone:
  "handle_stream x cd st cfg a w
    = (case run_proc (stream_proc x cd st cfg a) w of
         None \<Rightarrow> None
       | Some (res, w') \<Rightarrow> Some (fst res, snd res, w'))"
  unfolding run_stream [symmetric] by (auto split: option.splits)

text \<open>C12. Answers never cross: however the tasks interleave, a task that has ended has sent, on its own
  stream, the encoding of a response of the kind its own request asks for, or nothing after an
  error in the request.\<close>

theorem stream_replies_typed:
  assumes "serve_streams x cd cfg a w sts c" and "i < length sts" and "tasks c ! i = Done out"
  shows "(\<exists>e. stream_asks cd (sts ! i) = None \<and> out = (Inl e, []))
    \<or> (\<exists>req st2 resp. stream_request cd (sts ! i) = Inr (req, st2) \<and> answers req resp
        \<and> out = stream_reply cd st2 resp)"
proof -
  from serve_streams_obeys [OF assms(1)] assms(2,3)
  have "obeys (stream_moves x cd cfg a sts) (stream_ends cd (sts ! i)) (Done out)"
    unfolding pool_obeys_def by metis
  then show ?thesis by (auto simp: stream_ends_def stream_asks_def split: sum.splits)
qed

theorem stream_replies_typed_witness:
  "\<exists>c out resp. sample_serves [sample_stream] c \<and> tasks c = [Done out]
    \<and> (\<exists>st. out = stream_reply write_codec st (RespWriteFile resp))"
proof (rule sample_task_over)
  fix out v
  assume r: "sample_serves [sample_stream] (sample_conn\<lparr>tasks := [Done out], conn_world := v\<rparr>)"
  from stream_replies_typed [OF r, of 0 out]
  obtain req st2 resp where q: "stream_request write_codec sample_stream = Inr (req, st2)"
    "answers req resp" "out = stream_reply write_codec st2 resp"
    by (auto simp: sample_asks)
  then have "req = ReqWriteFile sample_write" using sample_asks by (simp add: stream_asks_def)
  with q obtain res where "resp = RespWriteFile res" by (cases resp) auto
  with q r show ?thesis
    by (intro exI [of _ "sample_conn\<lparr>tasks := [Done out], conn_world := v\<rparr>"] exI [of _ out] exI [of _ res]) auto
qed

text \<open>C13. No task waits for another or for the connection: in every state, also after the connection has
  ended, a task that does not run a command can go to its end alone, and ends as its stream
  must: with the error in the request, or with an attempt to send an answer of its kind.\<close>

theorem stream_tasks_end:
  assumes run: "serve_streams x cd cfg a w sts c" and i: "i < length sts"
    and cmd: "\<not> stream_is_exec cd (sts ! i)"
  shows "\<exists>out v. serve_streams x cd cfg a w sts (c\<lparr>tasks := (tasks c)[i := Done out], conn_world := v\<rparr>)
    \<and> stream_ends cd (sts ! i) out"
proof -
  obtain out v where r: "serve_streams x cd cfg a w sts (c\<lparr>tasks := (tasks c)[i := Done out], conn_world := v\<rparr>)"
    using run i cmd by (rule task_runs_out)
  have "i < length (tasks c)" using serve_streams_obeys [OF run] i by simp
  with serve_streams_obeys [OF r] have "obeys (stream_moves x cd cfg a sts) (stream_ends cd (sts ! i)) (Done out)"
    by (auto simp: pool_obeys_def)
  then have "stream_ends cd (sts ! i) out" by simp
  with r show ?thesis by blast
qed

theorem stream_tasks_end_witness:
  "\<exists>out v. sample_serves [sample_stream] (sample_conn\<lparr>tasks := [Done out], conn_world := v\<rparr>)
    \<and> stream_ends write_codec sample_stream out"
  using stream_tasks_end [OF sample_conn_reached, of 0] sample_no_exec
  by (auto simp: sample_conn_def conn_open_def)

end
