(* ===== verification/Running.thy ===== *)
theory Running
  imports Streams Daemon
begin

text \<open>
  The daemon as it runs: the loop of \<^verbatim>\<open>tunnel::run\<close> and the tasks of all the streams it ever
  accepted, interleaved.  The first process of the pool is the log entry that the loop is
  writing; the others are the tasks, which outlive their connection.  \<open>Tunnel.dials\<close> is the same
  loop without the streams.  Once the loop is over the process logs its end and exits; the tasks
  may still act here, which the code cuts short.
\<close>

datatype phase = Dialling | Serving string | Over string

record running =
  phase :: phase
  wait :: u64
  pauses :: "u64 list"
  procs :: "((string + unit) \<times> bytes) proc list"
  run_world :: world

definition loop_idle :: "((string + unit) \<times> bytes) proc" where
  "loop_idle = Done (Inr (), [])"

definition loop_logs :: "'z audit_deps_scheme \<Rightarrow> Audit \<Rightarrow> Event \<Rightarrow> ((string + unit) \<times> bytes) proc" where
  "loop_logs x a ev = log_done x a ev (Inr (), [])"

definition run_start :: "world \<Rightarrow> running" where
  "run_start w = \<lparr>phase = Dialling, wait = 1, pauses = [], procs = [loop_idle], run_world = w\<rparr>"

definition dial_failed :: "'z audit_deps_scheme \<Rightarrow> Audit \<Rightarrow> string \<Rightarrow> running \<Rightarrow> running" where
  "dial_failed x a e r =
     r\<lparr>procs := (procs r)[0 := loop_logs x a (EvLifecycle ''connect_failed'' e)],
       pauses := wait r # pauses r, wait := min (wait r * 2) 60\<rparr>"

definition dial_succeeded :: "'z audit_deps_scheme \<Rightarrow> Audit \<Rightarrow> string \<Rightarrow> running \<Rightarrow> running" where
  "dial_succeeded x a addr r =
     r\<lparr>phase := Serving addr, wait := 1,
       procs := (procs r)[0 := loop_logs x a (EvLifecycle ''connected'' (''remote='' @ addr))]\<rparr>"

definition stream_accepted ::
    "'z exec_deps_scheme \<Rightarrow> codec \<Rightarrow> Config \<Rightarrow> Audit \<Rightarrow> bi_stream \<Rightarrow> running \<Rightarrow> running" where
  "stream_accepted x cd cfg a st r = r\<lparr>procs := procs r @ [stream_proc x cd st cfg a]\<rparr>"

definition connection_ended ::
    "'z audit_deps_scheme \<Rightarrow> Audit \<Rightarrow> string option \<Rightarrow> running \<Rightarrow> running" where
  "connection_ended x a ended r =
     r\<lparr>phase := Dialling,
       procs := (procs r)[0 := (case ended of
           None \<Rightarrow> loop_idle
         | Some e \<Rightarrow> loop_logs x a (EvLifecycle ''disconnected'' e))]\<rparr>"

text \<open>The dials finished so far, the streams accepted so far, and the state.\<close>

inductive runs ::
    "'z exec_deps_scheme \<Rightarrow> codec \<Rightarrow> Config \<Rightarrow> Audit \<Rightarrow> world \<Rightarrow> dial list \<Rightarrow> bi_stream list \<Rightarrow> running \<Rightarrow> bool"
  for x cd cfg a w where
  started: "runs x cd cfg a w [] [] (run_start w)"
| failed: "runs x cd cfg a w ds sts r \<Longrightarrow> phase r = Dialling \<Longrightarrow> procs r ! 0 = loop_idle \<Longrightarrow>
    parse_endpoint (endpoint cfg) = Inr hp \<Longrightarrow> d = SetupFailed e \<or> d = ConnectFailed e \<Longrightarrow>
    runs x cd cfg a w (ds @ [d]) sts (dial_failed x a e r)"
| connected: "runs x cd cfg a w ds sts r \<Longrightarrow> phase r = Dialling \<Longrightarrow> procs r ! 0 = loop_idle \<Longrightarrow>
    parse_endpoint (endpoint cfg) = Inr hp \<Longrightarrow> runs x cd cfg a w ds sts (dial_succeeded x a addr r)"
| streamed: "runs x cd cfg a w ds sts r \<Longrightarrow> phase r = Serving addr \<Longrightarrow> procs r ! 0 = loop_idle \<Longrightarrow>
    runs x cd cfg a w ds (sts @ [st]) (stream_accepted x cd cfg a st r)"
| disconnected: "runs x cd cfg a w ds sts r \<Longrightarrow> phase r = Serving addr \<Longrightarrow> procs r ! 0 = loop_idle \<Longrightarrow>
    runs x cd cfg a w (ds @ [Served addr (streams_end e)]) sts (connection_ended x a (streams_end e) r)"
| stopped: "runs x cd cfg a w ds sts r \<Longrightarrow> phase r = Dialling \<Longrightarrow> procs r ! 0 = loop_idle \<Longrightarrow>
    redial x cfg a (ResolveFailed e) s = Inl msg \<Longrightarrow> runs x cd cfg a w ds sts (r\<lparr>phase := Over msg\<rparr>)"
| worked: "runs x cd cfg a w ds sts r \<Longrightarrow> pool_step (procs r, run_world r) (ps, v) \<Longrightarrow>
    runs x cd cfg a w ds sts (r\<lparr>procs := ps, run_world := v\<rparr>)"

lemmas run_defs = run_start_def dial_failed_def dial_succeeded_def stream_accepted_def connection_ended_def

section \<open>What every action respects\<close>

lemma obeys_loop_logs: "obeys (log_step x) (\<lambda>_. True) (loop_logs x a ev)"
  unfolding loop_logs_def log_done_def by (rule obeys_then [OF obeys_audit]) simp

definition run_moves ::
    "'z exec_deps_scheme \<Rightarrow> codec \<Rightarrow> Config \<Rightarrow> Audit \<Rightarrow> bi_stream list \<Rightarrow> world \<Rightarrow> world \<Rightarrow> bool" where
  "run_moves x cd cfg a sts v v' \<longleftrightarrow> log_step x v v' \<or> stream_moves x cd cfg a sts v v'"

lemma run_obeys_loop: "obeys (run_moves x cd cfg a sts) (\<lambda>_. True) (loop_logs x a ev)"
  "obeys (run_moves x cd cfg a sts) (\<lambda>_. True) loop_idle"
  by (rule obeys_mono [OF obeys_loop_logs]) (simp_all add: run_moves_def loop_idle_def)

lemma run_obeys_stream:
  "st \<in> set sts \<Longrightarrow> obeys (run_moves x cd cfg a sts) (\<lambda>_. True) (stream_proc x cd st cfg a)"
  by (rule obeys_mono [OF stream_obeys]) (auto simp: run_moves_def)

lemma pool_obeys_put:
  "pool_obeys R Q ps \<Longrightarrow> obeys R (Q i) p \<Longrightarrow> pool_obeys R Q (ps[i := p])"
  by (cases "i < length ps") (auto simp: pool_obeys_def nth_list_update list_update_beyond)

lemma pool_obeys_mono:
  assumes "pool_obeys R Q ps" and "\<And>v v'. R v v' \<Longrightarrow> S v v'"
  shows "pool_obeys S Q ps"
proof -
  have "obeys S P p" if "obeys R P p" for P p using that by (rule obeys_mono) (simp_all add: assms(2))
  with assms(1) show ?thesis by (auto simp: pool_obeys_def)
qed

lemma pool_obeys_join:
  "pool_obeys R (\<lambda>_. Q) ps \<Longrightarrow> obeys R Q p \<Longrightarrow> pool_obeys R (\<lambda>_. Q) (ps @ [p])"
  by (auto simp: pool_obeys_def nth_append less_Suc_eq)

lemma runs_obeys:
  assumes "runs x cd cfg a w ds sts r"
  shows "length (procs r) = Suc (length sts)
    \<and> pool_obeys (run_moves x cd cfg a sts) (\<lambda>_ _. True) (procs r)
    \<and> (run_moves x cd cfg a sts)\<^sup>*\<^sup>* w (run_world r)"
  using assms
proof induction
  case started
  show ?case by (simp add: run_start_def pool_obeys_def loop_idle_def)
next
  case (streamed ds sts r addr st)
  have m: "run_moves x cd cfg a sts v v' \<Longrightarrow> run_moves x cd cfg a (sts @ [st]) v v'" for v v'
    using stream_moves_more [of x cd cfg a sts v v' st] by (auto simp: run_moves_def)
  have "pool_obeys (run_moves x cd cfg a (sts @ [st])) (\<lambda>_ _. True) (procs r)"
    using streamed.IH m by (blast intro: pool_obeys_mono)
  then have "pool_obeys (run_moves x cd cfg a (sts @ [st])) (\<lambda>_ _. True) (procs r @ [stream_proc x cd st cfg a])"
    by (rule pool_obeys_join) (simp add: run_obeys_stream)
  moreover have "(run_moves x cd cfg a (sts @ [st]))\<^sup>*\<^sup>* w (run_world r)"
    using streamed.IH m mono_rtranclp [of "run_moves x cd cfg a sts"] by blast
  ultimately show ?case using streamed.IH by (simp add: stream_accepted_def)
next
  case (worked ds sts r ps v)
  with pool_step_obeys [OF worked.hyps(2)] show ?case by (auto intro: rtranclp.rtrancl_into_rtrancl)
qed (simp_all add: run_defs pool_obeys_put run_obeys_loop split: option.split)

lemma runs_invariant:
  assumes "runs x cd cfg a w ds sts r" and "P w" and "\<And>v v'. log_step x v v' \<Longrightarrow> P v \<Longrightarrow> P v'"
    and "\<And>st req v v'. st \<in> set sts \<Longrightarrow> stream_asks cd st = Some req \<Longrightarrow> moves x cfg a req v v' \<Longrightarrow> P v \<Longrightarrow> P v'"
  shows "P (run_world r)"
proof -
  from runs_obeys [OF assms(1)] have "(run_moves x cd cfg a sts)\<^sup>*\<^sup>* w (run_world r)" by blast
  moreover have "P v'" if "run_moves x cd cfg a sts v v'" "P v" for v v'
    using that assms(3,4) unfolding run_moves_def stream_moves_def by blast
  ultimately show ?thesis
    using rtranclp_keeps [of "run_moves x cd cfg a sts" w "run_world r" P] assms(2) by blast
qed

text \<open>The file system stays well-formed, provided commands leave one.\<close>

lemma runs_wf:
  assumes "tempfile_ok x" and "spawn_ok x" and "runs x cd cfg a w ds sts r" and "wf_world w"
  shows "wf_world (run_world r)"
  by (rule runs_invariant [where P = wf_world, OF assms(3,4)]) (auto intro: log_step_wf moves_wf [OF assms(1,2)])

section \<open>Files stay whole\<close>

lemma guards_loop: "guards x s ds None (loop_logs x a ev)" "guards x s ds None loop_idle"
  by (auto simp: loop_idle_def intro: guards_obeys [OF obeys_loop_logs] log_step_spares)

text \<open>The loop's place in the pool may be refilled when the loop is idle.\<close>

lemma refill:
  assumes "runs x cd cfg a w dls sts r" and "procs r ! 0 = loop_idle" and "guards x s ds None p"
    and "\<exists>ows. pool_guards x s ds ows (procs r, run_world r) \<and> kept_whole x s q ds ows (run_world r)"
  shows "\<exists>ows. pool_guards x s ds ows ((procs r)[0 := p], run_world r) \<and> kept_whole x s q ds ows (run_world r)"
  using pool_guards_put [of x s ds _ "procs r" "run_world r" 0] runs_obeys [OF assms(1)] assms(2-4)
  unfolding loop_idle_def by fastforce

lemma runs_guards:
  assumes "runs x cd cfg a w dls sts r" and "tempfile_ok x" and "s \<longrightarrow> temps_unlogged x \<and> linkless w"
    and "node_at w q = Some (FileN old m)" and "old \<in> ds"
    and "\<forall>st \<in> set sts. \<not> stream_is_exec cd st
      \<and> (\<forall>req. stream_asks cd st = Some req \<longrightarrow> spares_temps x req \<and> written_data req \<subseteq> ds)"
  shows "\<exists>ows. pool_guards x s ds ows (procs r, run_world r) \<and> kept_whole x s q ds ows (run_world r)"
  using assms
proof induction
  case started
  have "begun x s ds q old" using \<open>old \<in> ds\<close> by (rule begun_start)
  with started show ?case
    by (intro exI [of _ "[None]"]) (auto simp: run_start_def loop_idle_def pool_guards_def apart_def kept_whole_def)
next
  case (streamed dls sts r addr st)
  then obtain ows where "pool_guards x s ds ows (procs r, run_world r)" "kept_whole x s q ds ows (run_world r)" by auto
  moreover have "guards x s ds None (stream_proc x cd st cfg a)"
    using streamed.prems by (intro stream_guards) auto
  ultimately show ?case
    using pool_guards_join [of x s ds ows "procs r" "run_world r"] kept_whole_join [of x s q ds ows]
    by (auto simp: stream_accepted_def)
next
  case (worked dls sts r ps v)
  then obtain ows where "pool_guards x s ds ows (procs r, run_world r)" "kept_whole x s q ds ows (run_world r)" by auto
  from pool_step_guards [OF worked.hyps(2) this] show ?case by simp
next
  case (disconnected dls sts r addr e)
  then have "\<exists>ows. pool_guards x s ds ows (procs r, run_world r) \<and> kept_whole x s q ds ows (run_world r)" by simp
  from refill [OF disconnected.hyps(1,3) _ this] show ?case
    by (simp add: connection_ended_def guards_loop split: option.split)
next
  case (failed dls sts r hp d e)
  then have "\<exists>ows. pool_guards x s ds ows (procs r, run_world r) \<and> kept_whole x s q ds ows (run_world r)" by simp
  from refill [OF failed.hyps(1,3) _ this] show ?case by (simp add: dial_failed_def guards_loop)
next
  case (connected dls sts r hp addr)
  then have "\<exists>ows. pool_guards x s ds ows (procs r, run_world r) \<and> kept_whole x s q ds ows (run_world r)" by simp
  from refill [OF connected.hyps(1,3) _ this] show ?case by (simp add: dial_succeeded_def guards_loop)
qed simp

section \<open>The loop among its tasks\<close>

text \<open>A loop that is left alone: no tasks, and each log entry written at once.\<close>

definition undisturbed :: "dialer \<Rightarrow> running" where
  "undisturbed s = \<lparr>phase = Dialling, wait = backoff_secs s, pauses = slept s, procs = [loop_idle],
     run_world = dl_world s\<rparr>"

lemma runs_work:
  assumes "pool_steps (procs r, run_world r) (ps, v)" and "runs x cd cfg a w ds sts r"
  shows "runs x cd cfg a w ds sts (r\<lparr>procs := ps, run_world := v\<rparr>)"
  using assms(1)
proof (induction "(ps, v)" arbitrary: ps v rule: rtranclp_induct)
  case base
  then show ?case using assms(2) by simp
next
  case (step q)
  obtain qs u where q: "q = (qs, u)" by fastforce
  with step have "runs x cd cfg a w ds sts (r\<lparr>procs := qs, run_world := u\<rparr>)" by simp
  from worked [OF this, of ps v] step.hyps(2) q show ?case by simp
qed

lemma log_alone:
  assumes "runs x cd cfg a w ds sts r" and "procs r = [loop_logs x a ev]"
  shows "runs x cd cfg a w ds sts (r\<lparr>procs := [loop_idle], run_world := audit_log x a ev (run_world r)\<rparr>)"
proof -
  have "run_proc (loop_logs x a ev) (run_world r) = Some ((Inr (), []), audit_log x a ev (run_world r))"
    by (simp add: loop_logs_def)
  from run_alone [OF this, of 0 "procs r"] assms(2)
  have "pool_steps (procs r, run_world r) ([loop_idle], audit_log x a ev (run_world r))"
    by (simp add: loop_idle_def)
  from runs_work [OF this assms(1)] show ?thesis .
qed

lemma redial_ok:
  "redial x cfg a d s = Inr s' \<Longrightarrow> (\<exists>hp. parse_endpoint (endpoint cfg) = Inr hp)"
  by (auto simp: redial_def split: sum.splits)

lemma dials_runs: "dials x cfg a w ds s \<Longrightarrow> runs x cd cfg a w ds [] (undisturbed s)"
proof (induction rule: dials.induct)
  case start
  then show ?case using started by (simp add: run_start_def undisturbed_def dialer_start_def)
next
  case (turn ds s d s')
  from redial_ok [OF turn.hyps(2)] obtain hp where hp: "parse_endpoint (endpoint cfg) = Inr hp" by blast
  have idle: "phase (undisturbed s) = Dialling" "procs (undisturbed s) ! 0 = loop_idle"
    by (simp_all add: undisturbed_def)
  show ?case
  proof (cases d)
    case (ResolveFailed e)
    with turn.hyps(2) hp show ?thesis by (auto simp: redial_def split: prod.splits)
  next
    case (SetupFailed e)
    then have s': "s' = back_off x a e s" using turn.hyps(2) hp by (auto simp: redial_def split: prod.splits)
    from failed [OF turn.IH idle hp, of d e] SetupFailed
    have "runs x cd cfg a w (ds @ [d]) [] (dial_failed x a e (undisturbed s))" by simp
    from log_alone [OF this, of "EvLifecycle ''connect_failed'' e"] s' show ?thesis
      by (simp add: dial_failed_def undisturbed_def back_off_def)
  next
    case (ConnectFailed e)
    then have s': "s' = back_off x a e s" using turn.hyps(2) hp by (auto simp: redial_def split: prod.splits)
    from failed [OF turn.IH idle hp, of d e] ConnectFailed
    have "runs x cd cfg a w (ds @ [d]) [] (dial_failed x a e (undisturbed s))" by simp
    from log_alone [OF this, of "EvLifecycle ''connect_failed'' e"] s' show ?thesis
      by (simp add: dial_failed_def undisturbed_def back_off_def)
  next
    case (Served addr ended)
    let ?ev = "EvLifecycle ''connected'' (''remote='' @ addr)"
    let ?r = "(dial_succeeded x a addr (undisturbed s))
      \<lparr>procs := [loop_idle], run_world := audit_log x a ?ev (dl_world s)\<rparr>"
    have "runs x cd cfg a w ds [] ?r"
      using log_alone [OF connected [OF turn.IH idle hp, of addr], of ?ev]
      by (simp add: dial_succeeded_def undisturbed_def)
    moreover obtain e where e: "ended = streams_end e"
      by (cases ended) (metis streams_end.simps)+
    ultimately have "runs x cd cfg a w (ds @ [d]) [] (connection_ended x a ended ?r)"
      using disconnected [of x cd cfg a w ds "[]" ?r addr e] Served by (simp add: dial_succeeded_def)
    moreover have "s' = s\<lparr>backoff_secs := 1, dl_world := (case ended of None \<Rightarrow> audit_log x a ?ev (dl_world s)
        | Some e \<Rightarrow> audit_log x a (EvLifecycle ''disconnected'' e) (audit_log x a ?ev (dl_world s)))\<rparr>"
      using turn.hyps(2) hp Served by (cases hp; cases ended) (auto simp: redial_def Let_def)
    ultimately show ?thesis
      using log_alone [of x cd cfg a w "ds @ [d]" "[]" "connection_ended x a ended ?r"]
      by (cases ended) (simp_all add: connection_ended_def dial_succeeded_def undisturbed_def)
  qed
qed

text \<open>And whatever the tasks do, the loop dials and sleeps as it does alone.\<close>

lemma runs_dials:
  assumes "runs x cd cfg a w ds sts r"
  shows "\<exists>s. dials x cfg a w ds s \<and> slept s = pauses r
    \<and> (case phase r of
           Serving addr \<Rightarrow> wait r = 1 \<and> (\<exists>hp. parse_endpoint (endpoint cfg) = Inr hp)
         | _ \<Rightarrow> wait r = backoff_secs s)"
  using assms
proof induction
  case started
  have "dials x cfg a w [] (dialer_start w)" by (rule dials.start)
  then show ?case by (intro exI [of _ "dialer_start w"]) (simp add: run_start_def dialer_start_def)
next
  case (failed ds sts r hp d e)
  then obtain s where s: "dials x cfg a w ds s" "slept s = pauses r" "wait r = backoff_secs s" by auto
  have "redial x cfg a d s = Inr (back_off x a e s)"
    using failed.hyps(4,5) by (auto simp: redial_def split: prod.splits)
  from turn [OF s(1) this] s(2,3) failed.hyps(2) show ?case
    by (intro exI [of _ "back_off x a e s"]) (simp add: dial_failed_def back_off_def)
next
  case (connected ds sts r hp addr)
  then show ?case by (auto simp: dial_succeeded_def)
next
  case (streamed ds sts r addr st)
  then show ?case by (auto simp: stream_accepted_def)
next
  case (disconnected ds sts r addr e)
  then obtain s where s: "dials x cfg a w ds s" "slept s = pauses r" "wait r = 1"
    "\<exists>hp. parse_endpoint (endpoint cfg) = Inr hp" by auto
  then obtain s' where "redial x cfg a (Served addr (streams_end e)) s = Inr s'" "slept s' = slept s" "backoff_secs s' = 1"
    by (auto simp: redial_def Let_def split: prod.splits)
  from turn [OF s(1) this(1)] s(2,3) this(2,3) show ?case by (intro exI [of _ s']) (simp add: connection_ended_def)
next
  case (worked ds sts r ps v)
  then show ?case by (auto split: phase.splits)
qed auto

section \<open>A daemon on the sample machine\<close>

text \<open>It has connected, and one stream's task has come to its end.\<close>

abbreviation sample_runs :: "Config \<Rightarrow> dial list \<Rightarrow> bi_stream list \<Rightarrow> running \<Rightarrow> bool" where
  "sample_runs cfg \<equiv> runs (exec_sample_deps sample_child) write_codec cfg sample_audit sample_world"

lemma sample_running:
  assumes hp: "parse_endpoint (endpoint cfg) = Inr hp"
  obtains r out where "sample_runs cfg [] [sample_stream] r" and "phase r = Serving ''c''"
    and "procs r = [loop_idle, Done out]" and "pauses r = []"
proof -
  let ?x = "exec_sample_deps sample_child" and ?p = "stream_proc (exec_sample_deps sample_child) write_codec sample_stream cfg sample_audit"
  let ?r = "dial_succeeded ?x sample_audit ''c'' (run_start sample_world)"
  have "sample_runs cfg [] [] ?r"
    by (rule connected [OF started _ _ hp]) (simp_all add: run_start_def)
  from log_alone [OF this] obtain v where
    "sample_runs cfg [] [] (?r\<lparr>procs := [loop_idle], run_world := v\<rparr>)"
    by (simp add: dial_succeeded_def run_start_def) blast
  from streamed [OF this, of "''c''" sample_stream]
  have s: "sample_runs cfg [] [sample_stream] (?r\<lparr>procs := [loop_idle, ?p], run_world := v\<rparr>)"
    by (simp add: dial_succeeded_def stream_accepted_def run_start_def)
  from ends_run [OF stream_ends_proc [OF sample_no_exec]] obtain out u where "run_proc ?p v = Some (out, u)" by blast
  from run_alone [OF this, of "Suc 0" "[loop_idle, ?p]"]
  have "pool_steps ([loop_idle, ?p], v) ([loop_idle, Done out], u)" by simp
  with runs_work [of "?r\<lparr>procs := [loop_idle, ?p], run_world := v\<rparr>"] s
  have "sample_runs cfg [] [sample_stream] (?r\<lparr>procs := [loop_idle, Done out], run_world := u\<rparr>)" by fastforce
  then show thesis using that by (simp add: dial_succeeded_def run_start_def)
qed

section \<open>Properties\<close>

text \<open>C3. Files stay whole for as long as the daemon runs: whatever connections are made and lost,
  whatever streams the cloud opens on them, as long as none runs a command or names a temporary
  file, and however the tasks and the loop interleave, down to the steps of their temporary
  files, and system calls fail, writes half-way included, every file that existed holds at every
  moment its old content or the whole content of one of the requested writes, followed by
  nothing but pieces of lines of the audit log; and by nothing at all on a machine without
  symbolic links, when its name does not end in \<open>.jsonl\<close> (nor do those of temporary files).\<close>

theorem daemon_untorn:
  assumes "tempfile_ok x" and "runs x cd cfg a w ds sts r"
    and "\<forall>st \<in> set sts. \<not> stream_is_exec cd st"
    and "\<forall>st \<in> set sts. \<forall>req. stream_asks cd st = Some (ReqWriteFile req) \<longrightarrow>
      last (os_names (wf_path req)) \<notin> temp_names x"
    and "node_at w p = Some (FileN old m)"
  shows "\<exists>d more m'. node_at (run_world r) p = Some (FileN (d @ more) m')
    \<and> (d = old \<or> (\<exists>st req. st \<in> set sts \<and> stream_asks cd st = Some (ReqWriteFile req) \<and> d = wf_data req))
    \<and> log_text x more
    \<and> (linkless w \<and> temps_unlogged x \<and> \<not> log_named (last p) \<longrightarrow> more = [])"
proof -
  let ?ds = "insert old {d. \<exists>st r. st \<in> set sts \<and> stream_asks cd st = Some (ReqWriteFile r) \<and> d = wf_data r}"
  let ?s = "temps_unlogged x \<and> linkless w"
  have data: "spares_temps x req \<and> written_data req \<subseteq> ?ds" if "st \<in> set sts" "stream_asks cd st = Some req" for st req
    using that assms(4) by (cases req) (auto simp: spares_temps_def)
  have "\<exists>ows. pool_guards x ?s ?ds ows (procs r, run_world r) \<and> kept_whole x ?s p ?ds ows (run_world r)"
    by (rule runs_guards [OF assms(2,1) _ assms(5)]) (use assms(3) data in auto)
  then obtain c m' where c: "node_at (run_world r) p = Some (FileN c m')" "begun x ?s ?ds p c"
    unfolding kept_whole_def by blast
  then obtain d more where "node_at (run_world r) p = Some (FileN (d @ more) m')" "d \<in> ?ds" "log_tail x ?s p more"
    unfolding begun_def by blast
  then show ?thesis unfolding log_tail_def by blast
qed

lemma sample_temp_names: "n \<in> temp_names (exec_sample_deps sample_child) \<Longrightarrow> n = ''.tmp0''"
proof -
  have "last t = ''.tmp0''" if run: "simple_new_in dir w = (Inr t, w')" for dir w t w'
  proof (cases "lookup w (if dir = [] then ''.'' else dir)")
    case (Inr q)
    with run have "os_create_new q ''.tmp0'' w = (Inr t, w')" by (simp add: simple_new_in_def)
    from os_create_new_ok [OF this] show ?thesis by simp
  qed (use run in \<open>simp add: simple_new_in_def\<close>)
  then show "n \<in> temp_names (exec_sample_deps sample_child) \<Longrightarrow> n = ''.tmp0''"
    by (auto simp: temp_names_def)
qed

lemma sample_spares_temps: "last (os_names ''/ws/a'') \<notin> temp_names (exec_sample_deps sample_child)"
  using sample_temp_names [of "''a''"] by (auto simp: path_eval)

theorem daemon_untorn_witness:
  "\<exists>r d more m. sample_runs sample_config [] [sample_stream] r
    \<and> node_at (run_world r) [''ws'', ''a''] = Some (FileN (d @ more) m) \<and> d \<in> {[104, 105], [5]}
    \<and> log_text (exec_sample_deps sample_child) more"
proof -
  obtain r where r: "sample_runs sample_config [] [sample_stream] r"
    using sample_running [OF sample_endpoint] by metis
  have "node_at sample_world [''ws'', ''a''] = Some (FileN [104, 105] (Some 7))"
    by (simp add: sample_nodes_def)
  from daemon_untorn [OF tempfile_ok_exec_sample r _ _ this] sample_no_exec sample_spares_temps
  obtain d more m where "node_at (run_world r) [''ws'', ''a''] = Some (FileN (d @ more) m)" "d \<in> {[104, 105], [5]}"
    "log_text (exec_sample_deps sample_child) more"
    by (auto simp: sample_asks sample_write_def)
  with r show ?thesis by blast
qed

text \<open>C4. Read-only mode holds for as long as the daemon runs: whatever the cloud asks for, on however
  many streams and connections, commands included, nothing that existed is ever removed or
  changed, except that files may have been appended to, as the log is.\<close>

theorem daemon_readonly:
  assumes "policy cfg = ReadOnly rs" and "runs x cd cfg a w ds sts r" and "node_at w p = Some nd"
  shows "node_at (run_world r) p = Some nd
    \<or> (\<exists>d m more m'. nd = FileN d m \<and> node_at (run_world r) p = Some (FileN (d @ more) m'))"
proof -
  have "grows w (run_world r)"
    by (rule runs_invariant [OF assms(2), where P = "grows w"])
      (blast intro: grows_trans log_step_grows moves_readonly [OF assms(1)])+
  with assms(3) show ?thesis by (auto simp: grows_def)
qed

theorem daemon_readonly_witness:
  "\<exists>r m d. sample_runs (sample_config\<lparr>policy := ReadOnly [''/ws'']\<rparr>) [] [sample_stream] r
    \<and> node_at (run_world r) [''ws'', ''a''] = Some (FileN ([104, 105] @ d) m)"
proof -
  let ?cfg = "sample_config\<lparr>policy := ReadOnly [''/ws'']\<rparr>"
  have "parse_endpoint (endpoint ?cfg) = parse_endpoint (endpoint sample_config)" by simp
  with sample_endpoint obtain hp where "parse_endpoint (endpoint ?cfg) = Inr hp" by metis
  from sample_running [OF this] obtain r where r: "sample_runs ?cfg [] [sample_stream] r" by metis
  have "policy ?cfg = ReadOnly [''/ws'']"
    and "node_at sample_world [''ws'', ''a''] = Some (FileN [104, 105] (Some 7))"
    by (simp_all add: sample_nodes_def)
  from daemon_readonly [OF this(1) r this(2)] r show ?thesis by (auto intro: exI [of _ "[]"])
qed

text \<open>C27. The tasks do not disturb the loop, and the loop alone is one of its runs: in every state the
  dials so far and the pauses between them are those of the sequential loop, which has reached
  the same backoff, or the reset one while a connection stands; and every state of the
  sequential loop, with its world, is one of the running daemon without tasks.\<close>

theorem daemon_refines_loop:
  "(runs x cd cfg a w ds sts r \<longrightarrow>
      (\<exists>s. dials x cfg a w ds s \<and> slept s = pauses r
        \<and> (case phase r of Serving addr \<Rightarrow> wait r = 1 | _ \<Rightarrow> wait r = backoff_secs s)))
   \<and> (dials x cfg a w ds s \<longrightarrow> runs x cd cfg a w ds [] (undisturbed s))"
proof (intro conjI impI)
  assume "runs x cd cfg a w ds sts r"
  from runs_dials [OF this] show "\<exists>s. dials x cfg a w ds s \<and> slept s = pauses r
      \<and> (case phase r of Serving addr \<Rightarrow> wait r = 1 | _ \<Rightarrow> wait r = backoff_secs s)"
    by (auto split: phase.splits)
qed (rule dials_runs)

theorem daemon_refines_loop_witness:
  "\<exists>r. sample_runs sample_config [] [sample_stream] r \<and> wait r = 1 \<and> pauses r = []"
proof -
  obtain r where r: "sample_runs sample_config [] [sample_stream] r" "phase r = Serving ''c''"
    using sample_running [OF sample_endpoint] by metis
  obtain s where "dials (exec_sample_deps sample_child) sample_config sample_audit sample_world [] s"
    "slept s = pauses r" "wait r = 1"
    using daemon_refines_loop [of "exec_sample_deps sample_child" write_codec sample_config sample_audit
        sample_world "[]" "[sample_stream]" r] r by auto
  moreover from this(1) have "slept s = []" by (cases rule: dials.cases) (auto simp: dialer_start_def)
  ultimately show ?thesis using r(1) by metis
qed

end
