(* ===== verification/AuditRace.thy ===== *)
theory AuditRace
  imports Races RustText
begin

text \<open>
  The audit log under concurrency.  \<^verbatim>\<open>append_line\<close> of \<^verbatim>\<open>membrane-daemon/src/audit.rs\<close> appends the
  text of an entry and its line end separately, and no lock keeps two requests from logging at
  once.
\<close>

text \<open>\<open>logs_to w path q d\<close>: the path leads to the regular, writable file \<open>q\<close>, which holds \<open>d\<close>.\<close>

definition logs_to :: "world \<Rightarrow> string \<Rightarrow> string list \<Rightarrow> bytes \<Rightarrow> bool" where
  "logs_to w path q d \<longleftrightarrow> lookup_create w path = Inr q \<and> (\<exists>m. node_at w q = Some (FileN d m))
     \<and> fs_faults w OpOpen q = None \<and> fs_faults w OpWrite q = None"

lemma logs_to_tick [simp]: "logs_to (tick w) path q d = logs_to w path q d"
proof -
  have "walk (tick w) mk n cur ns = walk w mk n cur ns" for mk n cur ns
    by (rule walk_cong) simp_all
  then show ?thesis by (simp add: logs_to_def lookup_create_def start_dir_def)
qed

lemma append_to_log:
  assumes "logs_to w path q d"
  obtains v where "fs_append path dat w = (Inr (), v)" and "logs_to v path q (d @ dat)"
    and "env_vars v = env_vars w"
proof -
  obtain m where l: "lookup_create w path = Inr q" and n: "node_at w q = Some (FileN d m)"
    and f: "fs_faults w OpOpen q = None" "fs_faults w OpWrite q = None" using assms by (auto simp: logs_to_def)
  let ?nd = "FileN (d @ dat) (Some (now w))"
  let ?v = "put_node q ?nd (tick w)"
  have "walk ?v False n cur ns = Inr q" if "walk w True n cur ns = Inr q" for n cur ns
    using walk_after_put [of w q ?nd ?v, OF _ _ _ _ that] n by simp
  with l have "lookup_create ?v path = Inr q"
    by (auto simp: lookup_create_def start_dir_def split: if_splits intro: walk_creating)
  with f have "logs_to ?v path q (d @ dat)" by (simp add: logs_to_def)
  moreover have "fs_append path dat w = (Inr (), ?v)"
    using l n f by (simp add: fs_append_def fs_open_write_def write_node_def write_result_def write_fault_def)
  ultimately show thesis using that [of ?v] by simp
qed

lemma split_on_end: "c \<notin> set s \<Longrightarrow> split_on c (s @ [c, c]) = [s, [], []]"
  by (simp add: split_on_append split_on_id)

lemma glued_lines:
  "CHR 0x0A \<notin> set l1 \<Longrightarrow> CHR 0x0A \<notin> set l2 \<Longrightarrow>
    str_lines (l1 @ l2 @ [CHR 0x0A, CHR 0x0A]) = [strip_cr (l1 @ l2), strip_cr []]"
  using split_on_end [of "CHR 0x0A" "l1 @ l2"] by (simp add: str_lines_def)

section \<open>Property\<close>

text \<open>C11. Entries logged at the same time may share a line: under some interleaving two records of the
  log, both reported as written, end up as their texts one behind the other followed by two
  line ends, so that a reader that goes by lines finds one line with both and an empty one.\<close>

theorem audit_lines_glued:
  assumes path: "path = audit_log_for x (env_vars w) day" "path_parent path = Some par"
    and days: "dep_day x (now w) = day" "dep_day x (now (tick w)) = day"
    and json: "dep_json_entry x \<lparr>ts = now w, mode = mode_name a, event = e1\<rparr> = Inr l1"
      "dep_json_entry x \<lparr>ts = now (tick w), mode = mode_name a, event = e2\<rparr> = Inr l2"
    and dir: "fs_create_dir_all par (tick (tick w)) = (Inr (), tick (tick w))"
    and log: "logs_to w path q old"
  shows "(\<exists>w'. pool_steps ([audit_proc x a e1, audit_proc x a e2], w) ([Done (Inr ()), Done (Inr ())], w')
      \<and> logs_to w' path q (old @ as_bytes (l1 @ l2 @ [CHR 0x0A, CHR 0x0A])))
    \<and> (CHR 0x0A \<notin> set l1 \<and> CHR 0x0A \<notin> set l2 \<longrightarrow>
        str_lines (l1 @ l2 @ [CHR 0x0A, CHR 0x0A]) = [strip_cr (l1 @ l2), strip_cr []])"
proof -
  let ?nl = "as_bytes [CHR 0x0A]"
  from log have "logs_to (tick (tick w)) path q old" by simp
  from append_to_log [OF this, of "as_bytes l1"] obtain w1
    where 1: "fs_append path (as_bytes l1) (tick (tick w)) = (Inr (), w1)" "logs_to w1 path q (old @ as_bytes l1)"
    by blast
  from append_to_log [OF 1(2), of "as_bytes l2"] obtain w2
    where 2: "fs_append path (as_bytes l2) w1 = (Inr (), w2)" "logs_to w2 path q ((old @ as_bytes l1) @ as_bytes l2)"
    by blast
  from append_to_log [OF 2(2), of ?nl] obtain w3
    where 3: "fs_append path ?nl w2 = (Inr (), w3)" "logs_to w3 path q (((old @ as_bytes l1) @ as_bytes l2) @ ?nl)"
    by blast
  from append_to_log [OF 3(2), of ?nl] obtain w4
    where 4: "fs_append path ?nl w3 = (Inr (), w4)"
      "logs_to w4 path q ((((old @ as_bytes l1) @ as_bytes l2) @ ?nl) @ ?nl)" by blast
  have "schedule [0, 1, 0, 1, 0, 1, 0, 1, 0, 1] ([audit_proc x a e1, audit_proc x a e2], w)
      = Some ([Done (Inr ()), Done (Inr ())], w4)"
    using path days json dir 1(1) 2(1) 3(1) 4(1)
    by (simp add: audit_proc_def append_line_proc_def proc_eval utc_now_def)
  from schedule_steps [OF this] have "pool_steps ([audit_proc x a e1, audit_proc x a e2], w)
      ([Done (Inr ()), Done (Inr ())], w4)" .
  moreover have "logs_to w4 path q (old @ as_bytes (l1 @ l2 @ [CHR 0x0A, CHR 0x0A]))"
    using 4(2) by (simp add: as_bytes_def)
  ultimately show ?thesis using glued_lines [of l1 l2] by blast
qed

text \<open>An empty log of the day.\<close>

definition log_world :: world where
  "log_world = sample_world
     \<lparr>fs_nodes := [([], DirN 4096 None), ([''cfg''], DirN 4096 None), ([''cfg'', ''audit''], DirN 4096 None),
        ([''cfg'', ''audit'', ''d.jsonl''], FileN [] None)]\<rparr>"

theorem audit_lines_glued_witness:
  "\<exists>w' m. pool_steps ([audit_proc sample_deps sample_audit (EvLifecycle ''a'' []), audit_proc sample_deps sample_audit (EvLifecycle ''b'' [])], log_world)
      ([Done (Inr ()), Done (Inr ())], w')
    \<and> node_at w' [''cfg'', ''audit'', ''d.jsonl''] = Some (FileN [101, 101, 10, 10] m)"
proof -
  have p: "audit_log_for sample_deps (env_vars log_world) ''d'' = ''/cfg/audit/d.jsonl''"
    by (simp add: audit_log_for_def audit_dir_def user_dir_def path_join_def path_eval)
  have "path_parent ''/cfg/audit/d.jsonl'' = Some ''/cfg/audit''"
    by (simp add: path_parent_def path_eval)
  moreover have "fs_create_dir_all ''/cfg/audit'' (tick (tick log_world)) = (Inr (), tick (tick log_world))"
    by (simp add: fs_create_dir_all_def create_dirs.simps fs_mkdir_def world_eval log_world_def)
  moreover have "logs_to log_world ''/cfg/audit/d.jsonl'' [''cfg'', ''audit'', ''d.jsonl''] []"
    by (simp add: logs_to_def world_eval log_world_def)
  ultimately show ?thesis
    using audit_lines_glued [OF p [symmetric], of "''/cfg/audit''" sample_audit
        "EvLifecycle ''a'' []" "''e''" "EvLifecycle ''b'' []" "''e''"]
    by (fastforce simp: logs_to_def as_bytes_def byte_of_char_def)
qed

end
