(* ===== verification/DevTunnel.thy ===== *)
theory DevTunnel
  imports Tunnel
begin

text \<open>
  \<^verbatim>\<open>membrane-daemon/src/tunnel.rs\<close> as built with the feature \<^verbatim>\<open>dev-cert\<close>, for tests against a
  mock cloud: a certificate is generated when there is none, and without a pin every server is
  trusted.  Certificate generation by \<^verbatim>\<open>rcgen\<close> is a parameter.
\<close>

record dev_deps = tunnel_deps +
  dep_simple_self_signed :: "string list \<Rightarrow> world \<Rightarrow> string + string \<times> string"

section \<open>The verifiers\<close>

datatype Verifier = Pinned PinnedVerifier | NoVerify

definition no_verify_server_cert :: "bytes \<Rightarrow> string + unit" where
  "no_verify_server_cert end_entity = Inr ()"

definition no_verify_tls12_signature :: "bytes \<Rightarrow> bytes \<Rightarrow> bytes \<Rightarrow> string + unit" where
  "no_verify_tls12_signature msg cert sig = Inr ()"

definition no_verify_tls13_signature :: "bytes \<Rightarrow> bytes \<Rightarrow> bytes \<Rightarrow> string + unit" where
  "no_verify_tls13_signature msg cert sig = Inr ()"

definition no_verify_schemes :: "SignatureScheme list" where
  "no_verify_schemes = supported_schemes"

fun verifier_trusts :: "'z tunnel_deps_scheme \<Rightarrow> Verifier \<Rightarrow> bytes \<Rightarrow> bytes \<Rightarrow> bytes \<Rightarrow> bool" where
  "verifier_trusts x (Pinned v) cert msg sig = trusts_server x v cert msg sig"
| "verifier_trusts x NoVerify cert msg sig =
     (is_ok (no_verify_server_cert cert) \<and> is_ok (no_verify_tls13_signature msg cert sig))"

section \<open>The start of the development build\<close>

definition ensure_dev_cert ::
    "'z dev_deps_scheme \<Rightarrow> string \<Rightarrow> string \<Rightarrow> world \<Rightarrow> (string + unit) \<times> world" where
  "ensure_dev_cert x certp keyp w =
     (if path_exists w certp \<and> path_exists w keyp then (Inr (), w)
      else
       (case dep_simple_self_signed x [''membrane-daemon-dev''] w of
          Inl e \<Rightarrow> (Inl ''generate self-signed cert'', w)
        | Inr (cert_pem, key_pem) \<Rightarrow>
            (let (made, w1) = (case path_parent certp of
                                 None \<Rightarrow> (Inr (), w)
                               | Some parent \<Rightarrow> fs_create_dir_all parent w)
             in case made of
                  Inl e \<Rightarrow> (Inl (io_to_string e), w1)
                | Inr _ \<Rightarrow>
                    (case fs_write certp (as_bytes cert_pem) w1 of
                       (Inl e, w2) \<Rightarrow> (Inl (io_to_string e), w2)
                     | (Inr _, w2) \<Rightarrow>
                         (case fs_write keyp (as_bytes key_pem) w2 of
                            (Inl e, w3) \<Rightarrow> (Inl (io_to_string e), w3)
                          | (Inr _, w3) \<Rightarrow>
                              (case fs_metadata w3 keyp of
                                 Inl e \<Rightarrow> (Inl (io_to_string e), w3)
                               | Inr m \<Rightarrow> (map_sum io_to_string id (fs_set_permissions keyp w3), w3)))))))"

record DevClientConfig =
  dv_certs :: "bytes list"
  dv_key :: bytes
  dv_verifier :: Verifier
  dv_max_idle_secs :: nat
  dv_keep_alive_secs :: nat

definition dev_build_client_config ::
    "'z tunnel_deps_scheme \<Rightarrow> world \<Rightarrow> string \<Rightarrow> string \<Rightarrow> bytes option \<Rightarrow> string + DevClientConfig" where
  "dev_build_client_config x w certp keyp cloud_pin =
     (case load_certs x w certp of
        Inl e \<Rightarrow> Inl ''load daemon cert''
      | Inr certs \<Rightarrow>
          (case load_key x w keyp of
             Inl e \<Rightarrow> Inl ''load daemon key''
           | Inr key \<Rightarrow>
               (let verifier = (case cloud_pin of None \<Rightarrow> NoVerify | Some p \<Rightarrow> Pinned \<lparr>pin = p\<rparr>) in
                case dep_tls_build x certs key of
                  Inl e \<Rightarrow> Inl ''install client auth cert''
                | Inr _ \<Rightarrow>
                    (case dep_quic_crypto x certs key of
                       Inl e \<Rightarrow> Inl ''rustls -> quinn crypto''
                     | Inr _ \<Rightarrow>
                         Inr \<lparr>dv_certs = certs, dv_key = key, dv_verifier = verifier,
                              dv_max_idle_secs = 300, dv_keep_alive_secs = 60\<rparr>))))"

definition dev_tunnel_setup :: "'z dev_deps_scheme \<Rightarrow> world \<Rightarrow> (string + DevClientConfig) \<times> world" where
  "dev_tunnel_setup x w =
     (let certp = cert_path x (env_vars w);
          keyp = key_path x (env_vars w);
          pinp = cloud_pin_path x (env_vars w)
      in case ensure_dev_cert x certp keyp w of
           (Inl e, w1) \<Rightarrow> (Inl ''ensure daemon cert+key'', w1)
         | (Inr _, w1) \<Rightarrow>
             (if \<not> path_exists w1 certp \<or> \<not> path_exists w1 keyp then (Inl (unpaired_error certp keyp), w1)
              else
               (case (if path_exists w1 pinp then map_sum io_to_string Some (fs_read w1 pinp) else Inr None) of
                  Inl e \<Rightarrow> (Inl ''read cloud pin'', w1)
                | Inr cloud_pin \<Rightarrow> (dev_build_client_config x w1 certp keyp cloud_pin, w1))))"

section \<open>The two builds compared\<close>

definition dev_config_of :: "ClientConfig \<Rightarrow> DevClientConfig" where
  "dev_config_of c =
     \<lparr>dv_certs = cc_certs c, dv_key = cc_key c, dv_verifier = Pinned (cc_verifier c),
      dv_max_idle_secs = cc_max_idle_secs c, dv_keep_alive_secs = cc_keep_alive_secs c\<rparr>"

lemma dev_build_pinned:
  "dev_build_client_config x w certp keyp (Some p)
    = map_sum id dev_config_of (build_client_config x w certp keyp (Some p))"
  by (simp add: dev_build_client_config_def build_client_config_def dev_config_of_def split: sum.splits)

lemma dev_build_unpinned:
  "dev_build_client_config x w certp keyp None = Inr c \<Longrightarrow> dv_verifier c = NoVerify"
  by (auto simp: dev_build_client_config_def Let_def split: sum.splits)

lemma dev_cert_kept:
  "path_exists w certp \<Longrightarrow> path_exists w keyp \<Longrightarrow> ensure_dev_cert x certp keyp w = (Inr (), w)"
  by (simp add: ensure_dev_cert_def)

definition dev_sample_deps :: dev_deps where
  "dev_sample_deps = tunnel_deps.extend tunnel_sample_deps
     \<lparr>dep_simple_self_signed = (\<lambda>names w. Inr (''CERT'', ''KEY''))\<rparr>"

lemma dev_sample_sel [simp]:
  "dep_config_dir dev_sample_deps = (\<lambda>env. Some ''/cfg'')" "dep_pem_certs dev_sample_deps = (\<lambda>d. Inr [d])"
  "dep_pem_key dev_sample_deps = (\<lambda>d. Inr (Some d))" "dep_tls_build dev_sample_deps = (\<lambda>cs k. Inr ())"
  "dep_quic_crypto dev_sample_deps = (\<lambda>cs k. Inr ())"
  by (simp_all add: dev_sample_deps_def tunnel_deps.defs tunnel_sample_deps_def exec_deps.defs
      exec_sample_deps_def tmp_deps.defs sample_deps_def)

section \<open>Property\<close>

text \<open>C35. What the development build gives up: with certificate, key and pin on disk it starts exactly as
  the production build does and changes nothing; whenever it starts without a pin it trusts every
  server, where the production build refuses to start.\<close>

theorem dev_build_trust:
  "(path_exists w (cert_path x (env_vars w)) \<and> path_exists w (key_path x (env_vars w))
      \<and> path_exists w (cloud_pin_path x (env_vars w)) \<longrightarrow>
      dev_tunnel_setup x w = (map_sum id dev_config_of (tunnel_setup x w), w))
    \<and> (\<forall>c w'. dev_tunnel_setup x w = (Inr c, w') \<and> \<not> path_exists w' (cloud_pin_path x (env_vars w)) \<longrightarrow>
        verifier_trusts x (dv_verifier c) cert msg sig)
    \<and> (\<not> path_exists w (cloud_pin_path x (env_vars w)) \<longrightarrow> \<not> is_ok (tunnel_setup x w))"
proof (intro conjI impI allI)
  assume "path_exists w (cert_path x (env_vars w)) \<and> path_exists w (key_path x (env_vars w))
    \<and> path_exists w (cloud_pin_path x (env_vars w))"
  then show "dev_tunnel_setup x w = (map_sum id dev_config_of (tunnel_setup x w), w)"
    by (cases "fs_read w (cloud_pin_path x (env_vars w))")
      (simp_all add: dev_tunnel_setup_def tunnel_setup_def Let_def dev_cert_kept dev_build_pinned)
next
  fix c w'
  assume "dev_tunnel_setup x w = (Inr c, w') \<and> \<not> path_exists w' (cloud_pin_path x (env_vars w))"
  then have "dv_verifier c = NoVerify"
    by (auto simp: dev_tunnel_setup_def Let_def split: prod.splits sum.splits if_splits
        intro: dev_build_unpinned)
  then show "verifier_trusts x (dv_verifier c) cert msg sig"
    by (simp add: no_verify_server_cert_def no_verify_tls13_signature_def)
next
  assume "\<not> path_exists w (cloud_pin_path x (env_vars w))"
  then show "\<not> is_ok (tunnel_setup x w)" by (simp add: tunnel_setup_def Let_def)
qed

theorem dev_build_trust_witness:
  "\<exists>c. dev_tunnel_setup dev_sample_deps paired_world = (Inr c, paired_world)
    \<and> dv_verifier c = Pinned \<lparr>pin = [3]\<rparr>"
proof -
  let ?c = "\<lparr>cc_certs = [[1]], cc_key = [2], cc_verifier = \<lparr>pin = [3]\<rparr>,
    cc_max_idle_secs = 300, cc_keep_alive_secs = 60\<rparr>"
  have run: "tunnel_setup dev_sample_deps paired_world = Inr ?c"
    by (simp add: tunnel_setup_def build_client_config_def load_certs_def load_key_def
        cert_path_def key_path_def cloud_pin_path_def user_dir_def path_join_def world_eval
        paired_world_def)
  have "path_exists paired_world (cert_path dev_sample_deps (env_vars paired_world))"
    "path_exists paired_world (key_path dev_sample_deps (env_vars paired_world))"
    "path_exists paired_world (cloud_pin_path dev_sample_deps (env_vars paired_world))"
    by (simp_all add: cert_path_def key_path_def cloud_pin_path_def user_dir_def path_join_def world_eval
        paired_world_def)
  with dev_build_trust [of paired_world dev_sample_deps] run show ?thesis
    by (simp add: dev_config_of_def)
qed

end
