(* ===== verification/WinService.thy ===== *)
theory WinService
  imports Service
begin

text \<open>
  \<^verbatim>\<open>membrane-daemon/src/service/windows.rs\<close>: registration with the Windows service control
  manager.  The manager is a parameter, a record of the calls of the \<^verbatim>\<open>windows_service\<close> crate
  that the file makes; each may change the machine, and handles are opaque.  Of the crate's
  access rights and options only those the file names are listed.
\<close>

section \<open>The service control manager\<close>

datatype ManagerAccess = ACCESS_CONNECT | CREATE_SERVICE

datatype ServiceAccess = CHANGE_CONFIG | ACCESS_STOP | ACCESS_DELETE | ACCESS_START | QUERY_STATUS

datatype ServiceType = OWN_PROCESS

datatype ServiceStartType = AutoStart

datatype ServiceErrorControl = NormalError

record ServiceInfo =
  si_name :: string
  si_display_name :: string
  si_type :: ServiceType
  si_start :: ServiceStartType
  si_error_control :: ServiceErrorControl
  si_executable :: string
  si_arguments :: "string list"
  si_dependencies :: "string list"
  si_account :: "string option"
  si_password :: "string option"

datatype ServiceState =
  SvcStopped | SvcStartPending | SvcStopPending | SvcRunning | SvcContinuePending | SvcPausePending
| SvcPaused

type_synonym 'a scm_call = "world \<Rightarrow> (string + 'a) \<times> world"

record ('m, 'h) scm =
  scm_local_computer :: "ManagerAccess list \<Rightarrow> 'm scm_call"
  scm_create_service :: "'m \<Rightarrow> ServiceInfo \<Rightarrow> ServiceAccess list \<Rightarrow> 'h scm_call"
  scm_open_service :: "'m \<Rightarrow> string \<Rightarrow> ServiceAccess list \<Rightarrow> 'h scm_call"
  scm_set_description :: "'h \<Rightarrow> string \<Rightarrow> unit scm_call"
  scm_start :: "'h \<Rightarrow> string list \<Rightarrow> unit scm_call"
  scm_stop :: "'h \<Rightarrow> unit scm_call"
  scm_delete :: "'h \<Rightarrow> unit scm_call"
  scm_query_status :: "'h \<Rightarrow> ServiceState scm_call"

text \<open>\<^verbatim>\<open>{:?}\<close> of a state.\<close>

fun service_state_debug :: "ServiceState \<Rightarrow> string" where
  "service_state_debug SvcStopped = ''Stopped''"
| "service_state_debug SvcStartPending = ''StartPending''"
| "service_state_debug SvcStopPending = ''StopPending''"
| "service_state_debug SvcRunning = ''Running''"
| "service_state_debug SvcContinuePending = ''ContinuePending''"
| "service_state_debug SvcPausePending = ''PausePending''"
| "service_state_debug SvcPaused = ''Paused''"

section \<open>The operations\<close>

definition WIN_SERVICE_NAME :: string where
  "WIN_SERVICE_NAME = ''MembraneDaemon''"

definition WIN_DISPLAY_NAME :: string where
  "WIN_DISPLAY_NAME = ''Membrane Daemon''"

definition WIN_DESCRIPTION :: string where
  "WIN_DESCRIPTION = ''Customer-side daemon for the membrane cloud.''"

definition open_manager :: "('m, 'h) scm \<Rightarrow> ManagerAccess list \<Rightarrow> 'm cmd" where
  "open_manager x access = perform (\<lambda>e. ''open service control manager'') (scm_local_computer x access)"

definition win_service_info :: "string \<Rightarrow> ServiceInfo" where
  "win_service_info exe =
     \<lparr>si_name = WIN_SERVICE_NAME, si_display_name = WIN_DISPLAY_NAME, si_type = OWN_PROCESS,
      si_start = AutoStart, si_error_control = NormalError, si_executable = exe,
      si_arguments = [''run''], si_dependencies = [], si_account = None, si_password = None\<rparr>"

definition win_install :: "('m, 'h) scm \<Rightarrow> string \<Rightarrow> unit cmd" where
  "win_install x exe =
     seq (open_manager x [ACCESS_CONNECT, CREATE_SERVICE]) (\<lambda>manager.
     seq (perform (\<lambda>e. ''create service'')
           (scm_create_service x manager (win_service_info exe) [CHANGE_CONFIG])) (\<lambda>service.
     seq (ignore (perform id (scm_set_description x service WIN_DESCRIPTION))) (\<lambda>_.
     say [Err (''installed Windows service: '' @ WIN_SERVICE_NAME)])))"

text \<open>\<open>either m\<close> hands on the outcome of \<open>m\<close>, as \<^verbatim>\<open>match\<close> on a result does.\<close>

definition either :: "'a cmd \<Rightarrow> (string + 'a) cmd" where
  "either m w = (case m w of (r, ls, w1) \<Rightarrow> (Inr r, ls, w1))"

definition win_uninstall :: "('m, 'h) scm \<Rightarrow> unit cmd" where
  "win_uninstall x =
     seq (open_manager x [ACCESS_CONNECT]) (\<lambda>manager.
     seq (either (perform id (scm_open_service x manager WIN_SERVICE_NAME [ACCESS_STOP, ACCESS_DELETE])))
       (\<lambda>opened.
     case opened of
       Inl e \<Rightarrow> ret ()
     | Inr service \<Rightarrow>
         seq (ignore (perform id (scm_stop x service))) (\<lambda>_.
         seq (perform (\<lambda>e. ''delete service'') (scm_delete x service)) (\<lambda>_.
         say [Err ''uninstalled Windows service'']))))"

definition win_start :: "('m, 'h) scm \<Rightarrow> unit cmd" where
  "win_start x =
     seq (open_manager x [ACCESS_CONNECT]) (\<lambda>manager.
     seq (perform (\<lambda>e. ''open service'') (scm_open_service x manager WIN_SERVICE_NAME [ACCESS_START]))
       (\<lambda>service.
     perform (\<lambda>e. ''start service'') (scm_start x service [])))"

definition win_stop :: "('m, 'h) scm \<Rightarrow> unit cmd" where
  "win_stop x =
     seq (open_manager x [ACCESS_CONNECT]) (\<lambda>manager.
     seq (perform (\<lambda>e. ''open service'') (scm_open_service x manager WIN_SERVICE_NAME [ACCESS_STOP]))
       (\<lambda>service.
     perform (\<lambda>e. ''stop service'') (scm_stop x service)))"

fun status_of_service_state :: "ServiceState \<Rightarrow> ServiceStatus" where
  "status_of_service_state SvcRunning = Running"
| "status_of_service_state SvcStopped = Stopped"
| "status_of_service_state other = Unknown (service_state_debug other)"

definition win_status :: "('m, 'h) scm \<Rightarrow> ServiceStatus cmd" where
  "win_status x =
     seq (either (open_manager x [ACCESS_CONNECT])) (\<lambda>connected.
     case connected of
       Inl e \<Rightarrow> ret (Unknown ''cannot open SCM'')
     | Inr manager \<Rightarrow>
         seq (either (perform id (scm_open_service x manager WIN_SERVICE_NAME [QUERY_STATUS])))
           (\<lambda>opened.
         case opened of
           Inl e \<Rightarrow> ret NotInstalled
         | Inr service \<Rightarrow>
             seq (perform (\<lambda>e. ''query status'') (scm_query_status x service))
               (\<lambda>st. ret (status_of_service_state st))))"

section \<open>The contract\<close>

lemma either_seq: "seq (either (perform msg f)) g w = (case f w of (r, w1) \<Rightarrow> g (map_sum msg id r) w1)"
  by (simp add: seq_def either_def perform_def split: prod.splits)

lemma seq_ignore_perform: "seq (ignore (perform msg f)) g w = (case f w of (r, w1) \<Rightarrow> g () w1)"
  by (simp add: seq_def ignore_def perform_def split: prod.splits)

text \<open>
  Documented behaviour: connecting works and, like opening, querying and describing, leaves
  the registrations alone; a registered service, and only that, can be opened to be queried;
  creating a service registers it.  \<open>here w\<close> says that the daemon's service is registered.
\<close>

definition scm_ok :: "('m, 'h) scm \<Rightarrow> (world \<Rightarrow> bool) \<Rightarrow> bool" where
  "scm_ok x here \<longleftrightarrow>
     (\<forall>w r w'. scm_local_computer x [ACCESS_CONNECT] w = (r, w') \<longrightarrow>
        (\<exists>m. r = Inr m) \<and> here w' = here w)
   \<and> (\<forall>m w r w'. scm_open_service x m WIN_SERVICE_NAME [QUERY_STATUS] w = (r, w') \<longrightarrow>
        here w = (\<exists>h. r = Inr h) \<and> here w' = here w)
   \<and> (\<forall>m i acc w h w'. scm_create_service x m i acc w = (Inr h, w') \<longrightarrow>
        si_name i = WIN_SERVICE_NAME \<longrightarrow> here w')
   \<and> (\<forall>h d w r w'. scm_set_description x h d w = (r, w') \<longrightarrow> here w' = here w)"

lemma status_of_service_state_installed: "status_of_service_state st \<noteq> NotInstalled"
  by (cases st) simp_all

lemma win_status_here:
  assumes "scm_ok x here"
  shows "fst (win_status x w) = Inr NotInstalled \<longleftrightarrow> \<not> here w"
proof -
  obtain m w1 where c: "scm_local_computer x [ACCESS_CONNECT] w = (Inr m, w1)" "here w1 = here w"
    using assms unfolding scm_ok_def by (metis prod.exhaust_sel)
  obtain r w2 where o: "scm_open_service x m WIN_SERVICE_NAME [QUERY_STATUS] w1 = (r, w2)" by fastforce
  with c assms have "here w = (\<exists>h. r = Inr h)" unfolding scm_ok_def by metis
  with c o show ?thesis
    by (cases r) (auto simp: win_status_def open_manager_def either_seq seq_perform ret_def
        status_of_service_state_installed split: prod.splits sum.splits)
qed

lemma win_install_here:
  assumes "scm_ok x here" and run: "win_install x exe w = (Inr (), ls, w')"
  shows "here w'"
proof -
  from run obtain m w1 h w2 r
    where c: "scm_create_service x m (win_service_info exe) [CHANGE_CONFIG] w1 = (Inr h, w2)"
      and d: "scm_set_description x h WIN_DESCRIPTION w2 = (r, w')"
    by (auto simp: win_install_def open_manager_def seq_perform seq_ignore_perform say_def
        split: prod.splits sum.splits)
  have "si_name (win_service_info exe) = WIN_SERVICE_NAME" by (simp add: win_service_info_def)
  with c d assms(1) show ?thesis unfolding scm_ok_def by metis
qed

interpretation windows: service_backend "scm_ok x here" "\<lambda>w. True" here "win_install x" "win_status x"
  for x :: "('m, 'h) scm" and here
  by unfold_locales (simp_all add: win_status_here win_install_here)

text \<open>What a successful removal did: nothing at all, when the service could not be opened; else it
  was told to stop, whatever came of that, and then marked for deletion.\<close>

lemma win_uninstall_steps:
  assumes "win_uninstall x w = (Inr (), ls, w')"
  obtains m w1 where "scm_local_computer x [ACCESS_CONNECT] w = (Inr m, w1)"
    and "(\<exists>e. scm_open_service x m WIN_SERVICE_NAME [ACCESS_STOP, ACCESS_DELETE] w1 = (Inl e, w')) \<and> ls = []
      \<or> (\<exists>h w2 r w3. scm_open_service x m WIN_SERVICE_NAME [ACCESS_STOP, ACCESS_DELETE] w1 = (Inr h, w2)
          \<and> scm_stop x h w2 = (r, w3) \<and> scm_delete x h w3 = (Inr (), w')
          \<and> ls = [Err ''uninstalled Windows service''])"
  using assms
  by (auto simp: win_uninstall_def open_manager_def either_seq seq_perform seq_ignore_perform sum.map_id
      say_def ret_def split: prod.splits sum.splits)

section \<open>A manager that obeys\<close>

text \<open>A registration is a file named after the service at the top of the file system.\<close>

definition sample_registered :: "world \<Rightarrow> bool" where
  "sample_registered w \<longleftrightarrow> node_at w [WIN_SERVICE_NAME] \<noteq> None"

definition sample_scm :: "(unit, unit) scm" where
  "sample_scm =
     \<lparr>scm_local_computer = (\<lambda>acc w. (Inr (), w)),
      scm_create_service = (\<lambda>m i acc w. (Inr (), put_node [si_name i] (FileN [] None) w)),
      scm_open_service = (\<lambda>m n acc w. (if node_at w [n] = None then Inl ''no such service'' else Inr (), w)),
      scm_set_description = (\<lambda>h d w. (Inr (), w)), scm_start = (\<lambda>h args w. (Inr (), w)),
      scm_stop = (\<lambda>h w. (Inr (), w)), scm_delete = (\<lambda>h w. (Inr (), del_node [WIN_SERVICE_NAME] w)),
      scm_query_status = (\<lambda>h w. (Inr SvcRunning, w))\<rparr>"

lemma scm_ok_sample: "scm_ok sample_scm sample_registered"
  by (auto simp: scm_ok_def sample_scm_def sample_registered_def split: if_splits)

section \<open>Properties\<close>

text \<open>The Windows service manager honours the contract of the other back ends: the status is
  \<^verbatim>\<open>NotInstalled\<close> exactly when the service is not registered, and never after a successful
  installation.\<close>

theorem win_status_truthful:
  assumes "scm_ok x here"
  shows "(win_install x exe w = (Inr (), ls, w') \<longrightarrow> fst (win_status x w') \<noteq> Inr NotInstalled)
    \<and> (\<not> here w \<longleftrightarrow> fst (win_status x w) = Inr NotInstalled)"
  using windows.status_installed [OF assms] windows.status_iff [OF assms] by blast

theorem win_status_truthful_witness:
  "\<exists>w'. win_install sample_scm ''d.exe'' empty_world
      = (Inr (), [Err ''installed Windows service: MembraneDaemon''], w')
    \<and> fst (win_status sample_scm w') \<noteq> Inr NotInstalled"
proof -
  let ?w = "put_node [WIN_SERVICE_NAME] (FileN [] None) empty_world"
  have run: "win_install sample_scm ''d.exe'' empty_world
      = (Inr (), [Err ''installed Windows service: MembraneDaemon''], ?w)"
    by (simp add: win_install_def open_manager_def sample_scm_def seq_perform seq_def ignore_def
        perform_def say_def win_service_info_def WIN_SERVICE_NAME_def)
  with win_status_truthful [OF scm_ok_sample] show ?thesis by blast
qed

text \<open>C34. A manager that refuses to open the service, for whatever reason, is taken for one that does
  not know it: removal reports success and status reports \<^verbatim>\<open>NotInstalled\<close>, with nothing done,
  where starting and stopping report the refusal.\<close>

theorem win_refusal_is_absence:
  assumes "scm_local_computer x [ACCESS_CONNECT] w = (Inr m, w1)"
    and "\<And>acc. scm_open_service x m WIN_SERVICE_NAME acc w1 = (Inl (why acc), w1)"
  shows "win_uninstall x w = (Inr (), [], w1) \<and> win_status x w = (Inr NotInstalled, [], w1)
    \<and> win_start x w = (Inl ''open service'', [], w1) \<and> win_stop x w = (Inl ''open service'', [], w1)"
  using assms
  by (simp add: win_uninstall_def win_status_def win_start_def win_stop_def open_manager_def either_seq
      seq_perform ret_def)

theorem win_refusal_is_absence_witness:
  "\<exists>w. sample_registered w
    \<and> win_uninstall (sample_scm\<lparr>scm_open_service := \<lambda>m n acc w. (Inl ''access denied'', w)\<rparr>) w
      = (Inr (), [], w)"
proof -
  let ?x = "sample_scm\<lparr>scm_open_service := \<lambda>m n acc w. (Inl ''access denied'', w)\<rparr>"
    and ?w = "put_node [WIN_SERVICE_NAME] (FileN [] None) empty_world"
  have "scm_local_computer ?x [ACCESS_CONNECT] ?w = (Inr (), ?w)"
    "\<And>acc. scm_open_service ?x () WIN_SERVICE_NAME acc ?w = (Inl ''access denied'', ?w)"
    by (simp_all add: sample_scm_def)
  from win_refusal_is_absence [OF this] show ?thesis by (intro exI [of _ ?w]) (simp add: sample_registered_def)
qed

section \<open>The other places that know Windows\<close>

text \<open>
  \<^verbatim>\<open>PathBuf::join\<close> of a relative name on Windows: a separator is put in unless there is one, or
  the path is a bare drive.
\<close>

definition win_join :: "string \<Rightarrow> string \<Rightarrow> string" where
  "win_join a b =
     (if a = [] \<or> last a = CHR 0x5C \<or> last a = CHR ''/'' \<or> (length a = 2 \<and> last a = CHR '':'')
      then a @ b else a @ [CHR 0x5C] @ b)"

definition win_system_dir :: "environment \<Rightarrow> string" where
  "win_system_dir env =
     (case env ''PROGRAMDATA'' of
        Some p \<Rightarrow> win_join p ''membrane''
      | None \<Rightarrow> ''C:'' @ [CHR 0x5C] @ ''ProgramData'' @ [CHR 0x5C] @ ''membrane'')"

definition win_shell_command :: "string \<Rightarrow> Command" where
  "win_shell_command s =
     \<lparr>cmd_program = ''cmd'', cmd_args = [''/C'', s], cmd_current_dir = [], cmd_envs = []\<rparr>"

text \<open>
  Where the policy that overrides the user's is looked for is up to the environment: two
  environments that disagree on the variable lead to different directories, up to a
  separator at the end.
\<close>

lemma win_system_dir_decided:
  assumes "env ''PROGRAMDATA'' = Some p" and "env' ''PROGRAMDATA'' = Some p'"
    and "win_system_dir env = win_system_dir env'" and "length p = length p'"
  shows "p = p'"
  using assms by (auto simp: win_system_dir_def win_join_def split: if_splits)

end
