(* ===== verification/PolicyOrder.thy ===== *)
theory PolicyOrder
  imports Stepwise
begin

text \<open>
  The modes of \<^verbatim>\<open>membrane-daemon/src/config.rs\<close> in the order of what they are meant to permit,
  given by their names, roots and binaries alone: read-only access, then a workspace with an
  allowlist of commands, then one with every command, then no restriction at all.  The order is
  a preorder only, since two lists of roots may hold the same roots.
\<close>

fun tighter :: "PolicyMode \<Rightarrow> PolicyMode \<Rightarrow> bool" where
  "tighter _ Unrestricted = True"
| "tighter Unrestricted _ = False"
| "tighter (ReadOnly rs) (ReadOnly rs') = (set rs \<subseteq> set rs')"
| "tighter (ReadOnly rs) (WorkspaceAllowlistExec rs' _) = (set rs \<subseteq> set rs')"
| "tighter (ReadOnly rs) (Workspace rs') = (set rs \<subseteq> set rs')"
| "tighter (WorkspaceAllowlistExec rs bins) (WorkspaceAllowlistExec rs' bins') =
     (set rs \<subseteq> set rs' \<and> set bins \<subseteq> set bins')"
| "tighter (WorkspaceAllowlistExec rs _) (Workspace rs') = (set rs \<subseteq> set rs')"
| "tighter (Workspace rs) (Workspace rs') = (set rs \<subseteq> set rs')"
| "tighter _ _ = False"

instantiation PolicyMode :: preorder
begin

definition less_eq_PolicyMode :: "PolicyMode \<Rightarrow> PolicyMode \<Rightarrow> bool" where
  "p \<le> q \<longleftrightarrow> tighter p q"

definition less_PolicyMode :: "PolicyMode \<Rightarrow> PolicyMode \<Rightarrow> bool" where
  "p < q \<longleftrightarrow> p \<le> q \<and> \<not> q \<le> (p :: PolicyMode)"

instance
proof
  fix p q r :: PolicyMode
  show "p \<le> p" by (cases p) (simp_all add: less_eq_PolicyMode_def)
  show "p \<le> q \<Longrightarrow> q \<le> r \<Longrightarrow> p \<le> r"
    unfolding less_eq_PolicyMode_def by (cases p; cases q; cases r) auto
qed (simp add: less_PolicyMode_def)

end

lemma order_tops: "p \<le> Unrestricted" "ReadOnly rs \<le> WorkspaceAllowlistExec rs bins"
  "WorkspaceAllowlistExec rs bins \<le> Workspace rs"
  by (simp_all add: less_eq_PolicyMode_def)

section \<open>More is permitted under a larger mode\<close>

lemma path_allowed_mono: "p \<le> q \<Longrightarrow> path_allowed w p s \<Longrightarrow> path_allowed w q s"
  by (cases p; cases q) (auto simp: less_eq_PolicyMode_def path_allowed_def Let_def list_ex_iff)

lemma writes_allowed_mono: "p \<le> q \<Longrightarrow> writes_allowed p \<Longrightarrow> writes_allowed q"
  by (cases p; cases q) (auto simp: less_eq_PolicyMode_def)

lemma exec_allowed_mono: "p \<le> q \<Longrightarrow> exec_allowed p s \<Longrightarrow> exec_allowed q s"
  by (cases p; cases q) (auto simp: less_eq_PolicyMode_def Let_def list_ex_iff)

lemma read_file_mono:
  assumes "p \<le> q" and "read_file_handle x r (cfg\<lparr>policy := p\<rparr>) a w = (Inr resp, w')"
  shows "read_file_handle x r (cfg\<lparr>policy := q\<rparr>) a w = (Inr resp, w')"
proof -
  have "path_allowed w p (rf_path r)" using assms(2) by (auto simp: read_file_handle_def Let_def split: if_splits)
  with path_allowed_mono [OF assms(1) this] assms(2) show ?thesis by (simp add: read_file_handle_def)
qed

lemma list_dir_mono:
  assumes "p \<le> q" and "list_dir_handle x r (cfg\<lparr>policy := p\<rparr>) a w = (Inr resp, w')"
  shows "list_dir_handle x r (cfg\<lparr>policy := q\<rparr>) a w = (Inr resp, w')"
proof -
  have "path_allowed w p (ld_path r)" using assms(2) by (auto simp: list_dir_handle_def Let_def split: if_splits)
  with path_allowed_mono [OF assms(1) this] assms(2) show ?thesis by (simp add: list_dir_handle_def)
qed

lemma write_file_mono:
  assumes "p \<le> q" and "write_file_handle x r (cfg\<lparr>policy := p\<rparr>) a w = (Inr resp, w')"
  shows "write_file_handle x r (cfg\<lparr>policy := q\<rparr>) a w = (Inr resp, w')"
proof -
  have al: "writes_allowed p" "path_allowed w p (wf_path r)"
    using assms(2) by (auto simp: write_file_handle_def Let_def split: if_splits)
  with path_allowed_mono [OF assms(1) al(2)] writes_allowed_mono [OF assms(1) al(1)] assms(2) show ?thesis
    by (simp add: write_file_handle_def)
qed

text \<open>A command meets the policy in its check and in its directory alone.\<close>

lemma exec_same_dir:
  assumes dir: "exec_cwd w p = exec_cwd w q"
    and al: "exec_allowed p (ex_command r)" "exec_allowed q (ex_command r)"
  shows "exec_handle x r (cfg\<lparr>policy := q\<rparr>) a w = exec_handle x r (cfg\<lparr>policy := p\<rparr>) a w"
proof -
  have eff: "effective_exec_timeout_ms (cfg\<lparr>policy := m\<rparr>) n = effective_exec_timeout_ms cfg n" for m n
    by (simp add: effective_exec_timeout_ms_def)
  have cmd: "exec_command w q s = exec_command w p s" for s using dir by (simp add: exec_command_def)
  have sel: "max_output_bytes (cfg\<lparr>policy := m\<rparr>) = max_output_bytes cfg" "policy (cfg\<lparr>policy := m\<rparr>) = m" for m
    by simp_all
  show ?thesis unfolding exec_handle_def Let_def eff cmd sel using al by simp
qed

section \<open>Property\<close>

text \<open>C25. A tighter policy opens nothing.  What a request that is not a command achieves under a mode, it
  achieves under every wider one, with the same answer and the same effects; a command that a
  mode allows is allowed by every wider one, and runs there just the same if the directory it
  is started in is the same.  And under read-only access, the tightest, nothing but reads, listings
  and pings is ever answered by a success.\<close>

theorem policy_monotone:
  assumes "p \<le> q" and run: "dispatch x req (cfg\<lparr>policy := p\<rparr>) a w = Some (resp, w')" and ok: "resp_ok resp"
  shows "(\<not> is_exec req \<longrightarrow> dispatch x req (cfg\<lparr>policy := q\<rparr>) a w = Some (resp, w'))
    \<and> (\<forall>r. req = ReqExec r \<longrightarrow> exec_allowed q (ex_command r)
         \<and> (exec_cwd w p = exec_cwd w q \<longrightarrow> dispatch x req (cfg\<lparr>policy := q\<rparr>) a w = Some (resp, w')))
    \<and> (\<forall>rs. p = ReadOnly rs \<longrightarrow> \<not> is_exec req \<and> (\<forall>r. req \<noteq> ReqWriteFile r))"
proof (cases req)
  case (ReqReadFile r)
  with run ok obtain rr where "read_file_handle x r (cfg\<lparr>policy := p\<rparr>) a w = (Inr rr, w')" "resp = RespReadFile (Inr rr)"
    by (cases "read_file_handle x r (cfg\<lparr>policy := p\<rparr>) a w") (auto simp: dispatch_def is_ok_def split: sum.splits)
  with read_file_mono [OF assms(1) this(1)] ReqReadFile show ?thesis by (simp add: dispatch_def is_exec_def)
next
  case (ReqWriteFile r)
  with run ok obtain rr where h: "write_file_handle x r (cfg\<lparr>policy := p\<rparr>) a w = (Inr rr, w')" "resp = RespWriteFile (Inr rr)"
    by (cases "write_file_handle x r (cfg\<lparr>policy := p\<rparr>) a w") (auto simp: dispatch_def is_ok_def split: sum.splits)
  from h(1) have "p \<noteq> ReadOnly rs" for rs by (auto simp: write_file_handle_def Let_def)
  with h write_file_mono [OF assms(1) h(1)] ReqWriteFile show ?thesis by (simp add: dispatch_def is_exec_def)
next
  case (ReqListDir r)
  with run ok obtain rr where "list_dir_handle x r (cfg\<lparr>policy := p\<rparr>) a w = (Inr rr, w')" "resp = RespListDir (Inr rr)"
    by (cases "list_dir_handle x r (cfg\<lparr>policy := p\<rparr>) a w") (auto simp: dispatch_def is_ok_def split: sum.splits)
  with list_dir_mono [OF assms(1) this(1)] ReqListDir show ?thesis by (simp add: dispatch_def is_exec_def)
next
  case (ReqExec r)
  with run ok have al: "exec_allowed p (ex_command r)"
    by (auto simp: dispatch_def exec_handle_def Let_def split: if_splits)
  moreover have "p \<noteq> ReadOnly rs" for rs using al by auto
  moreover note al' = exec_allowed_mono [OF assms(1) al]
  moreover have "exec_handle x r (cfg\<lparr>policy := q\<rparr>) a w = exec_handle x r (cfg\<lparr>policy := p\<rparr>) a w"
    if "exec_cwd w p = exec_cwd w q" using that al al' by (rule exec_same_dir)
  ultimately show ?thesis using ReqExec run by (simp add: dispatch_def is_exec_def)
next
  case ReqPing
  with run show ?thesis by (simp add: dispatch_def is_exec_def)
qed

theorem policy_monotone_witness:
  "\<exists>resp w'. dispatch (exec_sample_deps sample_child) (ReqReadFile sample_read) (sample_config\<lparr>policy := Unrestricted\<rparr>)
      sample_audit sample_world = Some (RespReadFile (Inr resp), w')"
proof -
  have "fst (read_file_handle (exec_sample_deps sample_child) sample_read sample_config sample_audit
      sample_world) = Inr sample_read_resp"
    using sample_read_run read_file_fst by (metis fst_conv)
  then obtain w' where "read_file_handle (exec_sample_deps sample_child) sample_read sample_config
      sample_audit sample_world = (Inr sample_read_resp, w')" by (metis prod.collapse)
  then have "dispatch (exec_sample_deps sample_child) (ReqReadFile sample_read)
      (sample_config\<lparr>policy := policy sample_config\<rparr>) sample_audit sample_world
    = Some (RespReadFile (Inr sample_read_resp), w')"
    by (simp add: dispatch_def sample_config_def)
  from policy_monotone [OF order_tops(1) this] show ?thesis by (simp add: is_exec_def)
qed

end
