(* ===== verification/Spec2Isabelle.thy ===== *)
theory Spec2Isabelle
  imports EnrolRun Running AuditRace DevTunnel WinService PolicyOrder
begin

text \<open>
  \<^bold>\<open>The membrane daemon.\<close>  The program is a daemon that a customer runs next to their files.
  A cloud service reaches it over QUIC (or, for development, over stdio) and asks it to read,
  write and list files and to run commands; a local policy says which of that is allowed, and
  every request is recorded in an audit log.  The same binary holds the commands that pair the
  daemon with the cloud, change its policy, show its log and install it as a user service.
  This library models the Rust sources under \<^verbatim>\<open>src/membrane-wire\<close> and
  \<^verbatim>\<open>src/membrane-daemon\<close>.

  \<^bold>\<open>Foundations.\<close>
  \<^item> \<open>Prelude\<close>: machine types, bytes and strings (a Rust string is its UTF-8 bytes, one HOL
    character per byte), results as sums with the error left, decimal printing.
  \<^item> \<open>RustStr\<close>, \<open>RustText\<close>, \<open>RustPath\<close>: the string, text and path functions of Rust's standard
    library that the code calls.
  \<^item> \<open>World\<close>: the machine as \<^verbatim>\<open>std::fs\<close>, \<^verbatim>\<open>std::env\<close> and the clock show it.  A file system is an
    association list from canonical paths to nodes (regular files, kernel pseudo-files,
    directories, symbolic links); every system call resolves its path as Linux does, with at
    most 40 links, and may fail by an arbitrary \<open>fs_faults\<close>; a write that fails leaves the
    first \<open>fs_partial\<close> bytes of its data, in a file that \<^verbatim>\<open>std::fs::write\<close> has emptied before.
    \<open>WorldFacts\<close>: well-formedness (\<open>wf_world\<close>) and that every operation keeps it; what can be
    read back after a write.  \<open>Linkless\<close>: machines without symbolic links, where the last name
    of a path is that of the file it leads to.

  \<^bold>\<open>Components\<close>, each with the source it models:
  \<^item> \<open>Wire\<close> (\<^verbatim>\<open>membrane-wire/src/lib.rs\<close>): messages and the length-prefixed frames.
  \<^item> \<open>Paths\<close> (\<^verbatim>\<open>paths.rs\<close>), \<open>Config\<close> (\<^verbatim>\<open>config.rs\<close>): file locations, policy modes, their checks,
    loading, merging, saving; \<open>ConfigProps\<close> has their properties.
  \<^item> \<open>AuditLog\<close> (\<^verbatim>\<open>audit.rs\<close>): events and the append to the day's file.
  \<^item> \<open>TempFile\<close>: the \<^verbatim>\<open>tempfile\<close> crate as documented, the write through a temporary file that
    both \<^verbatim>\<open>write_file.rs\<close> and \<^verbatim>\<open>pairing.rs\<close> use, and the contract \<open>atomic_replace\<close> (a locale,
    interpreted on both).
  \<^item> \<open>ReadFile\<close>, \<open>WriteFile\<close>, \<open>ListDir\<close>, \<open>Exec\<close>, \<open>Handlers\<close> (\<^verbatim>\<open>handlers/\<close>): one operation per
    request and their dispatch.  A started process is data: what it writes to its pipes, when
    it exits, whether its pipes end.
  \<^item> \<open>Rpc\<close> (\<^verbatim>\<open>rpc.rs\<close>): the server loop over a byte stream.
  \<^item> \<open>Tunnel\<close> (\<^verbatim>\<open>tunnel.rs\<close>): the checks before dialling, the pinned certificate verifier, the
    redial loop as a step relation, one stream; \<open>DevTunnel\<close>: the same start as built with the
    feature \<^verbatim>\<open>dev-cert\<close>.
  \<^item> \<open>Process\<close>, \<open>Staging\<close>, \<open>Stepwise\<close>, \<open>Races\<close>, \<open>AuditRace\<close>, \<open>Streams\<close>, \<open>Running\<close>: requests that run
    next to each other.  A process is a tree of atomic actions; a pool interleaves processes.
    \<open>Staging\<close> gives the write through a temporary file action by action, and a rely-guarantee
    argument that keeps the temporary files of a pool apart and lets nothing but pieces of the
    log (\<open>log_text\<close>) be added to a file.  \<open>Stepwise\<close> gives the handlers again
    as processes, equal to the handlers when not interrupted.  \<open>Streams\<close> is \<^verbatim>\<open>serve_streams\<close>, an
    inductive relation between the streams accepted so far and the state of the connection;
    \<open>Running\<close> is the whole daemon, the loop of \<^verbatim>\<open>tunnel::run\<close> among the tasks of all its
    connections, and a refinement of the loop in \<open>Tunnel\<close>.
  \<^item> \<open>PolicyOrder\<close>: the policy modes as a preorder, by their names, roots and binaries alone.
  \<^item> \<open>Pairing\<close> (\<^verbatim>\<open>pairing.rs\<close>): tokens, the key, signing requests, the installation of a token.
  \<^item> \<open>CmdMonad\<close>: a state, output and error monad in which the command line is written;
    \<open>Service\<close> (\<^verbatim>\<open>service/linux.rs\<close>, \<^verbatim>\<open>service/macos.rs\<close>, \<^verbatim>\<open>service/mod.rs\<close>), \<open>WinService\<close>
    (\<^verbatim>\<open>service/windows.rs\<close>), \<open>Daemon\<close> (the tunnel's whole run and \<^verbatim>\<open>cmd_run\<close>,
    \<^verbatim>\<open>cmd_run_stdio\<close>), \<open>Cli\<close> (the other commands of \<^verbatim>\<open>main.rs\<close>) and \<open>CliProps\<close>.
  \<^item> \<open>PairRun\<close>, \<open>EnrolRun\<close>: what pairing by token and by enrolment writes is what the tunnel
    starts with.
  \<^item> \<open>Samples\<close>: a small machine on which the theorems with hypotheses are applied.

  \<^bold>\<open>State and interaction.\<close>  Every operation takes the \<open>world\<close> and returns it changed, next to
  its result.  Each back end of the service is an interpretation of \<open>service_backend\<close>.  The handlers read the \<open>Config\<close> that \<open>load\<close> made at start-up, check the request
  against its policy, act through \<open>World\<close>, and append one event through \<open>AuditLog\<close>, whose
  failures they drop.  \<open>serve\<close> and \<open>handle_stream\<close> decode a request with \<open>Wire\<close>, dispatch it and
  encode the answer.  Pairing writes the files the tunnel reads at start-up.

  \<^bold>\<open>Parameters.\<close>  Code that is not in the repository is a field of a record of dependencies that
  grows from \<open>paths_deps\<close> to \<open>cli_deps\<close>: \<^verbatim>\<open>toml\<close>, \<^verbatim>\<open>serde_json\<close>, \<^verbatim>\<open>bincode\<close>, \<^verbatim>\<open>base64\<close>,
  \<^verbatim>\<open>chrono\<close>'s formats, \<^verbatim>\<open>directories\<close>, \<^verbatim>\<open>tempfile\<close>, BLAKE3, PEM, \<^verbatim>\<open>rcgen\<close>, TLS
  configuration, HTTP, the programs \<^verbatim>\<open>bash\<close>, \<^verbatim>\<open>systemctl\<close> and \<^verbatim>\<open>launchctl\<close>, and (a record of
  its own) the Windows service control manager.  What a theorem needs of them is a hypothesis
  (\<open>tempfile_ok\<close>, \<open>temps_unlogged\<close>, \<open>http_quiet\<close>, \<open>manager_ok\<close>, \<open>scm_ok\<close>, a codec that inverts
  itself).  \<open>paired_daemon_connects\<close>, \<open>enrolled_daemon_connects\<close>, the sequential half of
  \<open>cas_race\<close> and the sharper half of \<open>daemon_untorn\<close> are about machines without symbolic links.

  \<^bold>\<open>What the properties show.\<close>
  \<^item> Confinement: what is read lies under a policy root on its canonical path; writes to existing
    files do too; new files and links show where the check is weaker (\<open>write_file_escapes\<close>).
    Read-only mode changes nothing.
  \<^item> Integrity: writes are all or nothing under every fault, also when a system call writes half of
    its data (a configuration saved in place is not: \<open>failed_save_tears\<close>); a compare-and-swap condition holds
    when a write succeeds; the listing is complete, sorted and free of duplicates.
  \<^item> Commands: what a success, a timeout and a refusal mean; when the handler never answers;
    the environment that is passed on; what the capped readers return.
  \<^item> Concurrency: for as long as the daemon runs, files stay whole, a read-only daemon's files as they were and answers on their own streams, under every
    interleaving, and no task waits for another; but checks and their uses can be
    separated (\<open>cas_race\<close>, \<open>read_race\<close>), and log entries can
    share a line (\<open>audit_lines_glued\<close>).
  \<^item> Protocol: frames round-trip, the server's answers do not depend on how the stream is cut,
    one answer per request, stdio and tunnel agree on what both accept.
  \<^item> Audit: one event per answered request, saying \<open>OpOk\<close> exactly on success; a command that hangs
    is neither answered nor audited; losses are silent.
  \<^item> The daemon's life: it fails closed without credentials, backs off up to a minute, stays up
    through broken connections and ends only with an error.
  \<^item> Configuration, pairing, services and the command line: precedence and ceilings, what is
    saved is loaded, tokens and pins, effects of each command.

  \<^bold>\<open>Bounds and fuel.\<close>  \<open>walk\<close> follows at most \<open>max_symlinks\<close> = 40 links, as Linux does.
  \<open>create_dirs\<close> recurses at most once per component of the path, which is its fuel.
  \<open>strip_rounds\<close> has the six rounds of the code.  \<open>poll_loop\<close> and \<open>serve\<close> terminate by measures;
  a command whose pipes never end, and a daemon that is still running, are \<open>None\<close>.

  \<^bold>\<open>Not modelled.\<close>  A Windows file system, on which the Windows arms of
  \<^verbatim>\<open>paths.rs\<close> and \<^verbatim>\<open>exec.rs\<close> (in \<open>WinService\<close>) would act; the TLS and QUIC stacks and
  the resolver, whose outcomes are data here; interleavings inside one action: the
  look-ups of a directory's entries, the making of several directories, and the start-up and
  pairing commands, which are sequential; a request that names a temporary file that another is
  filling, which \<open>daemon_untorn\<close> excludes (the data would go to the file of that name here, to an
  unnamed one there); the moment between the opening of a file by \<^verbatim>\<open>std::fs::write\<close> and its
  write, which only the sequential commands have; changes that other programs make between
  two actions; panics of a handler; file modes, owners and hard links;
  command line parsing by \<^verbatim>\<open>clap\<close> and the set-up of \<^verbatim>\<open>tracing\<close>; \<^verbatim>\<open>lib.rs\<close>, which only declares
  modules; the tests.
\<close>

end
